(* ===== verification/Go_Prelude.thy ===== *)
theory Go_Prelude
  imports Main "HOL-Library.AList" "HOL-Library.Word"
begin

text \<open>
  The prelude of the development: how the fragments of Go that kube-loxilb relies on are
  represented, and the generic lemmas the component theories share.

  \<^item> A Go call returns, panics or ends the process (\<open>klog.Exit\<close>): the type \<open>'a go\<close>.
  \<^item> A Go \<open>error\<close> is \<open>error option\<close>, \<open>None\<close> being \<open>nil\<close> and the string being what
    \<open>err.Error()\<close> returns.
  \<^item> A Go map is an association list with distinct keys. Its order stands for the
    iteration order of \<open>range\<close>, which Go leaves open: a theorem about every list is a
    theorem about every iteration order.
  \<^item> Go strings are byte strings: \<open>string\<close>, a list of bytes.
  \<^item> The functions of \<open>strings\<close>, \<open>strconv\<close>, \<open>path\<close> and \<open>fmt\<close> that the sources call
    are defined here on those types.
\<close>

named_theorems go_simps "evaluation rules of the Go primitives"
named_theorems frame "operations that leave a field alone"

subsection \<open>Control flow and errors\<close>

datatype 'a go = Ret 'a | Panic string | Exit string

type_synonym error = string

definition go_bind :: "'a go \<Rightarrow> ('a \<Rightarrow> 'b go) \<Rightarrow> 'b go" where
  "go_bind m f = (case m of Ret x \<Rightarrow> f x | Panic p \<Rightarrow> Panic p | Exit e \<Rightarrow> Exit e)"

definition go_map :: "('a \<Rightarrow> 'b) \<Rightarrow> 'a go \<Rightarrow> 'b go" where
  "go_map f m = (case m of Ret x \<Rightarrow> Ret (f x) | Panic p \<Rightarrow> Panic p | Exit e \<Rightarrow> Exit e)"

fun go_fold :: "('a \<Rightarrow> 's \<Rightarrow> 's go) \<Rightarrow> 'a list \<Rightarrow> 's \<Rightarrow> 's go" where
  "go_fold f [] s = Ret s"
| "go_fold f (x # xs) s = go_bind (f x s) (go_fold f xs)"

definition is_ret :: "'a go \<Rightarrow> bool" where
  "is_ret m = (case m of Ret x \<Rightarrow> True | _ \<Rightarrow> False)"

subsection \<open>Maps\<close>

definition map_str :: "(string \<times> string) list \<Rightarrow> string \<Rightarrow> string" where
  "map_str m k = (case map_of m k of None \<Rightarrow> [] | Some v \<Rightarrow> v)"

definition has_key :: "('k \<times> 'v) list \<Rightarrow> 'k \<Rightarrow> bool" where
  "has_key m k = (map_of m k \<noteq> None)"

subsection \<open>Package strings\<close>

fun split_on :: "'a \<Rightarrow> 'a list \<Rightarrow> 'a list list" where
  "split_on c [] = [[]]"
| "split_on c (x # xs) =
     (if x = c then [] # split_on c xs
      else (case split_on c xs of [] \<Rightarrow> [[x]] | y # ys \<Rightarrow> (x # y) # ys))"

fun join_on :: "'a list \<Rightarrow> 'a list list \<Rightarrow> 'a list" where
  "join_on sep [] = []"
| "join_on sep [x] = x"
| "join_on sep (x # y # ys) = x @ sep @ join_on sep (y # ys)"

definition has_prefix :: "'a list \<Rightarrow> 'a list \<Rightarrow> bool" where
  "has_prefix s p = (take (length p) s = p)"

fun contains_str :: "'a list \<Rightarrow> 'a list \<Rightarrow> bool" where
  "contains_str [] p = (p = [])"
| "contains_str (x # xs) p = (has_prefix (x # xs) p \<or> contains_str xs p)"

fun cut_at :: "'a \<Rightarrow> 'a list \<Rightarrow> ('a list \<times> 'a list) option" where
  "cut_at c [] = None"
| "cut_at c (x # xs) =
     (if x = c then Some ([], xs)
      else (case cut_at c xs of None \<Rightarrow> None | Some (a, b) \<Rightarrow> Some (x # a, b)))"

definition char_nat :: "char \<Rightarrow> nat" where
  "char_nat c = of_char c"

definition lower_char :: "char \<Rightarrow> char" where
  "lower_char c = (if 65 \<le> char_nat c \<and> char_nat c \<le> 90 then char_of (char_nat c + 32) else c)"

definition to_lower :: "string \<Rightarrow> string" where
  "to_lower s = map lower_char s"

definition is_space :: "char \<Rightarrow> bool" where
  "is_space c = (c \<in> set [CHR '' '', CHR 0x09, CHR 0x0A, CHR 0x0B, CHR 0x0C, CHR 0x0D])"

definition trim_space :: "string \<Rightarrow> string" where
  "trim_space s = rev (dropWhile is_space (rev (dropWhile is_space s)))"

definition fields_func :: "('a \<Rightarrow> bool) \<Rightarrow> 'a list \<Rightarrow> 'a list list" where
  "fields_func p s =
     filter (\<lambda>w. w \<noteq> [])
       (foldr (\<lambda>x ws. if p x then [] # ws
                      else (case ws of [] \<Rightarrow> [[x]] | y # ys \<Rightarrow> (x # y) # ys)) s [[]])"

subsection \<open>Package strconv and the verbs of fmt\<close>

definition digit_char :: "nat \<Rightarrow> char" where
  "digit_char d = char_of (48 + d)"

definition is_digit :: "char \<Rightarrow> bool" where
  "is_digit c = (48 \<le> char_nat c \<and> char_nat c \<le> 57)"

definition digit_val :: "char \<Rightarrow> nat" where
  "digit_val c = char_nat c - 48"

fun dec_of_nat :: "nat \<Rightarrow> string" where
  "dec_of_nat n =
     (if n < 10 then [digit_char n] else dec_of_nat (n div 10) @ [digit_char (n mod 10)])"

declare dec_of_nat.simps [simp del]

definition dec_of_int :: "int \<Rightarrow> string" where
  "dec_of_int i = (if i < 0 then CHR ''-'' # dec_of_nat (nat (- i)) else dec_of_nat (nat i))"

definition nat_of_dec :: "string \<Rightarrow> nat" where
  "nat_of_dec s = foldl (\<lambda>a c. 10 * a + digit_val c) 0 s"

text \<open>
  \<open>strconv.Atoi\<close> (and \<open>strconv.ParseInt(s, 10, 0)\<close>): an optional sign, at least one decimal
  digit, nothing else, and a value within the 64-bit \<open>int\<close>; \<open>None\<close> is a non-nil error.
\<close>

definition Atoi :: "string \<Rightarrow> int option" where
  "Atoi s =
     (let neg = (case s of c # _ \<Rightarrow> c = CHR ''-'' | [] \<Rightarrow> False);
          ds = (case s of c # cs \<Rightarrow> if c = CHR ''-'' \<or> c = CHR ''+'' then cs else s | [] \<Rightarrow> [])
      in if ds = [] \<or> \<not> list_all is_digit ds then None
         else (let v = (if neg then - int (nat_of_dec ds) else int (nat_of_dec ds))
               in if - (2 ^ 63) \<le> v \<and> v < 2 ^ 63 then Some v else None))"

text \<open>The \<open>%v\<close> of a list of strings: the elements between brackets, separated by blanks.\<close>

definition fmt_strings :: "string list \<Rightarrow> string" where
  "fmt_strings xs = ''['' @ join_on '' '' xs @ '']''"

subsection \<open>Package path\<close>

fun clean_segs :: "bool \<Rightarrow> string list \<Rightarrow> string list \<Rightarrow> string list" where
  "clean_segs rooted acc [] = rev acc"
| "clean_segs rooted acc (x # xs) =
     (if x = [] \<or> x = ''.'' then clean_segs rooted acc xs
      else if x = ''..'' then
        (case acc of
           [] \<Rightarrow> if rooted then clean_segs rooted [] xs else clean_segs rooted [''..''] xs
         | y # ys \<Rightarrow> if y = ''..'' then clean_segs rooted (''..'' # acc) xs
                     else clean_segs rooted ys xs)
      else clean_segs rooted (x # acc) xs)"

definition path_Clean :: "string \<Rightarrow> string" where
  "path_Clean s =
     (let rooted = has_prefix s ''/'';
          r = (if rooted then ''/'' else []) @ join_on ''/'' (clean_segs rooted [] (split_on CHR ''/'' s))
      in if r = [] then ''.'' else r)"

definition path_Join :: "string list \<Rightarrow> string" where
  "path_Join elems =
     (if concat elems = [] then []
      else path_Clean (join_on ''/'' (dropWhile (\<lambda>e. e = []) elems)))"

subsection \<open>Lemmas: control flow\<close>

lemma go_bind_simps [simp, go_simps]:
  "go_bind (Ret x) f = f x"
  "go_bind (Panic p) f = Panic p"
  "go_bind (Exit e) f = Exit e"
  by (simp_all add: go_bind_def)

lemma go_map_simps [simp, go_simps]:
  "go_map f (Ret x) = Ret (f x)"
  "go_map f (Panic p) = Panic p"
  "go_map f (Exit e) = Exit e"
  by (simp_all add: go_map_def)

lemma is_ret_simps [simp, go_simps]:
  "is_ret (Ret x)"
  "\<not> is_ret (Panic p)"
  "\<not> is_ret (Exit e)"
  by (simp_all add: is_ret_def)

lemma go_bind_eq_Ret [simp]: "go_bind m f = Ret y \<longleftrightarrow> (\<exists>x. m = Ret x \<and> f x = Ret y)"
  by (cases m) auto

lemma is_ret_iff: "is_ret m \<longleftrightarrow> (\<exists>x. m = Ret x)"
  by (cases m) auto

lemma go_fold_append: "go_fold f (xs @ ys) s = go_bind (go_fold f xs s) (go_fold f ys)"
proof (induction xs arbitrary: s)
  case (Cons x xs)
  then show ?case by (cases "f x s") auto
qed simp

lemma go_fold_concat: "go_fold (\<lambda>x. go_fold f (g x)) xs s = go_fold f (concat (map g xs)) s"
proof (induction xs arbitrary: s)
  case (Cons x xs)
  then show ?case by (cases "go_fold f (g x) s") (auto simp: go_fold_append)
qed simp

lemma go_fold_map: "go_fold f (map g xs) s = go_fold (\<lambda>x. f (g x)) xs s"
proof (induction xs arbitrary: s)
  case (Cons x xs)
  then show ?case by (cases "f (g x) s") auto
qed simp

lemma go_map_eq_Ret: "go_map f m = Ret y \<longleftrightarrow> (\<exists>x. m = Ret x \<and> y = f x)"
  by (cases m) auto

text \<open>An invariant of one step is an invariant of the whole fold.\<close>

lemma go_fold_inv:
  assumes "go_fold f xs s = Ret s'" and "P s"
    and "\<And>x t t'. x \<in> set xs \<Longrightarrow> P t \<Longrightarrow> f x t = Ret t' \<Longrightarrow> P t'"
  shows "P s'"
  using assms
proof (induction xs arbitrary: s)
  case Nil
  then show ?case by simp
next
  case (Cons x xs)
  from Cons.prems(1) obtain t where t: "f x s = Ret t" "go_fold f xs t = Ret s'" by auto
  with Cons.prems(2,3) have "P t" by (meson list.set_intros(1))
  with t(2) Cons.prems(3) show ?case by (intro Cons.IH) auto
qed

subsection \<open>Lemmas: strings\<close>

lemma split_on_nonempty [simp]: "split_on c s \<noteq> []"
  by (induction s) (auto split: list.splits)

lemma split_on_notin [simp]: "c \<notin> set s \<Longrightarrow> split_on c s = [s]"
  by (induction s) auto

lemma split_on_append_sep [simp]:
  "c \<notin> set a \<Longrightarrow> split_on c (a @ c # b) = a # split_on c b"
  by (induction a) auto

lemma split_on_parts: "p \<in> set (split_on c s) \<Longrightarrow> c \<notin> set p"
proof (induction s arbitrary: p)
  case (Cons x xs)
  then show ?case by (cases "split_on c xs") (auto split: if_splits)
qed simp

lemma split_on_subset: "p \<in> set (split_on c s) \<Longrightarrow> d \<in> set p \<Longrightarrow> d \<in> set s"
proof (induction s arbitrary: p)
  case (Cons x xs)
  obtain y ys where "split_on c xs = y # ys" by (cases "split_on c xs") auto
  with Cons.prems Cons.IH[of p] Cons.IH[of y] show ?case by (auto split: if_splits)
qed simp

lemma join_on_Cons [simp]: "xs \<noteq> [] \<Longrightarrow> join_on sep (x # xs) = x @ sep @ join_on sep xs"
  by (cases xs) simp_all

lemma join_split [simp]: "join_on [c] (split_on c s) = s"
proof (induction s)
  case (Cons x xs)
  obtain y ys where "split_on c xs = y # ys" by (cases "split_on c xs") auto
  with Cons.IH show ?case by (cases ys) auto
qed simp

lemma split_join [simp]:
  "xs \<noteq> [] \<Longrightarrow> \<forall>x\<in>set xs. c \<notin> set x \<Longrightarrow> split_on c (join_on [c] xs) = xs"
proof (induction xs)
  case (Cons x xs)
  then show ?case by (cases "xs = []") auto
qed simp

lemma set_join_on:
  "set (join_on sep xs) \<subseteq> set sep \<union> \<Union> (set ` set xs)"
proof (induction xs)
  case (Cons x xs)
  then show ?case by (cases "xs = []") auto
qed simp

lemma split_on_length_pos: "0 < length (split_on c s)"
  by simp

lemma split_on_hd_notin: "c \<in> set s \<Longrightarrow> 2 \<le> length (split_on c s)"
proof (induction s)
  case (Cons x xs)
  obtain y ys where "split_on c xs = y # ys" by (cases "split_on c xs") auto
  with Cons show ?case by auto
qed simp

lemma split_on_singleton_iff: "length (split_on c s) < 2 \<longleftrightarrow> c \<notin> set s"
  using split_on_hd_notin[of c s] by (cases "c \<in> set s") auto

lemma cut_at_None [simp]: "cut_at c s = None \<longleftrightarrow> c \<notin> set s"
  by (induction s) (auto split: option.splits)

lemma cut_at_append_sep [simp]: "c \<notin> set a \<Longrightarrow> cut_at c (a @ c # b) = Some (a, b)"
  by (induction a) auto

lemma cut_at_Some: "cut_at c s = Some (a, b) \<Longrightarrow> s = a @ c # b \<and> c \<notin> set a"
  by (induction s arbitrary: a) (auto split: if_splits option.splits)

lemma has_prefix_append [simp]: "has_prefix (p @ s) p"
  by (simp add: has_prefix_def)

lemma contains_str_char: "contains_str s [c] \<longleftrightarrow> c \<in> set s"
  by (induction s) (auto simp: has_prefix_def)

lemma contains_str_append: "contains_str (a @ p @ b) p"
proof (induction a)
  case Nil
  have "has_prefix (p @ b) p" by simp
  then show ?case by (cases "p @ b") auto
qed simp

lemma to_lower_Nil [simp]: "to_lower [] = []"
  by (simp add: to_lower_def)

lemma lower_char_idem [simp]: "lower_char (lower_char c) = lower_char c"
  by (auto simp: lower_char_def char_nat_def)

lemma to_lower_idem [simp]: "to_lower (to_lower s) = to_lower s"
  by (simp add: to_lower_def)

subsection \<open>Lemmas: decimal numbers\<close>

lemma digit_char_nat [simp]: "d < 10 \<Longrightarrow> char_nat (digit_char d) = 48 + d"
  by (simp add: char_nat_def digit_char_def)

lemma digit_char_digit [simp]: "d < 10 \<Longrightarrow> is_digit (digit_char d)"
  by (simp add: is_digit_def)

lemma digit_val_char [simp]: "d < 10 \<Longrightarrow> digit_val (digit_char d) = d"
  by (simp add: digit_val_def)

lemma dec_of_nat_ne [simp]: "dec_of_nat n \<noteq> []"
  by (subst dec_of_nat.simps) simp

lemma dec_of_nat_digits: "list_all is_digit (dec_of_nat n)"
proof (induction n rule: dec_of_nat.induct)
  case (1 n)
  then show ?case by (subst dec_of_nat.simps) simp
qed

lemma nat_of_dec_append: "nat_of_dec (s @ [c]) = 10 * nat_of_dec s + digit_val c"
  by (simp add: nat_of_dec_def)

lemma nat_of_dec_of_nat [simp]: "nat_of_dec (dec_of_nat n) = n"
proof (induction n rule: dec_of_nat.induct)
  case (1 n)
  show ?case
  proof (cases "n < 10")
    case True
    then show ?thesis by (subst dec_of_nat.simps) (simp add: nat_of_dec_def)
  next
    case False
    with 1 show ?thesis by (subst dec_of_nat.simps) (simp add: nat_of_dec_append)
  qed
qed

lemma dec_of_nat_inject [simp]: "dec_of_nat m = dec_of_nat n \<longleftrightarrow> m = n"
  by (metis nat_of_dec_of_nat)

lemma dec_of_nat_notin: "\<not> is_digit c \<Longrightarrow> c \<notin> set (dec_of_nat n)"
  using dec_of_nat_digits[of n] by (auto simp: list_all_iff)

lemma hd_dec_digit: "is_digit (hd (dec_of_nat n))"
  using dec_of_nat_digits[of n] by (cases "dec_of_nat n") auto

lemma Atoi_dec_of_nat: "n < 2 ^ 63 \<Longrightarrow> Atoi (dec_of_nat n) = Some (int n)"
proof -
  assume n: "n < 2 ^ 63"
  obtain c cs where s: "dec_of_nat n = c # cs" by (cases "dec_of_nat n") auto
  with hd_dec_digit[of n] have "is_digit c" by simp
  then have "c \<noteq> CHR ''-''" "c \<noteq> CHR ''+''" by (auto simp: is_digit_def char_nat_def)
  moreover have "int n < 2 ^ 63" using n by (metis of_nat_less_iff of_nat_numeral of_nat_power)
  ultimately show ?thesis
    using s dec_of_nat_digits[of n] nat_of_dec_of_nat[of n] by (simp add: Atoi_def)
qed

subsection \<open>Lemmas: maps\<close>

lemma map_str_update [simp]:
  "map_str (AList.update k v m) k' = (if k = k' then v else map_str m k')"
  by (simp add: map_str_def update_conv')

lemma has_key_iff: "has_key m k \<longleftrightarrow> k \<in> fst ` set m"
  by (auto simp: has_key_def map_of_eq_None_iff)

lemma set_AList_update: "x \<in> set (AList.update k v al) \<Longrightarrow> x = (k, v) \<or> x \<in> set al"
  by (induction al) (auto split: if_splits)

lemma set_AList_delete: "x \<in> set (AList.delete k al) \<Longrightarrow> x \<in> set al"
  by (auto simp: AList.delete_eq)

lemma has_key_update [simp]: "has_key (AList.update k v m) k' \<longleftrightarrow> k = k' \<or> has_key m k'"
  by (auto simp: has_key_def update_conv')

lemma has_key_delete [simp]: "has_key (AList.delete k m) k' \<longleftrightarrow> k \<noteq> k' \<and> has_key m k'"
  by (auto simp: has_key_def delete_conv')

subsection \<open>Lemmas: path.Join\<close>

definition plain_seg :: "string \<Rightarrow> bool" where
  "plain_seg s \<longleftrightarrow> s \<noteq> [] \<and> CHR ''/'' \<notin> set s \<and> s \<noteq> ''.'' \<and> s \<noteq> ''..''"

lemma path_Join_plain:
  assumes "plain_seg a" and "plain_seg b"
  shows "path_Join [a, b] = a @ ''/'' @ b"
proof -
  have "\<not> has_prefix (a @ CHR ''/'' # b) ''/''"
    using assms by (cases a) (auto simp: plain_seg_def has_prefix_def)
  then show ?thesis
    using assms by (simp add: plain_seg_def path_Join_def path_Clean_def)
qed

lemma path_Join_plain_inject:
  assumes "plain_seg a" "plain_seg b" "plain_seg a'" "plain_seg b'"
  shows "path_Join [a, b] = path_Join [a', b'] \<longleftrightarrow> a = a' \<and> b = b'"
proof
  assume "path_Join [a, b] = path_Join [a', b']"
  then have "a @ CHR ''/'' # b = a' @ CHR ''/'' # b'"
    using assms by (simp add: path_Join_plain)
  then have "cut_at CHR ''/'' (a @ CHR ''/'' # b) = cut_at CHR ''/'' (a' @ CHR ''/'' # b')"
    by simp
  then show "a = a' \<and> b = b'" using assms by (simp add: plain_seg_def)
qed simp

lemma clean_segs_plain: "\<forall>x\<in>set xs. plain_seg x \<Longrightarrow> clean_segs r acc xs = rev acc @ xs"
  by (induction xs arbitrary: acc) (auto simp: plain_seg_def)

lemma plain_not_rooted:
  assumes "\<forall>x\<in>set xs. plain_seg x" and "xs \<noteq> []"
  shows "\<not> has_prefix (join_on ''/'' xs) ''/''"
proof -
  obtain x ys where xs: "xs = x # ys" using assms(2) by (cases xs) auto
  then have "plain_seg x" using assms(1) by simp
  then obtain c r where "x = c # r" "c \<noteq> CHR ''/''" by (cases x) (auto simp: plain_seg_def)
  then show ?thesis using xs by (cases ys) (auto simp: has_prefix_def)
qed

lemma path_Clean_plain:
  assumes "\<forall>x\<in>set xs. plain_seg x" and "xs \<noteq> []"
  shows "path_Clean (join_on ''/'' xs) = join_on ''/'' xs"
proof -
  have "split_on CHR ''/'' (join_on ''/'' xs) = xs"
    using assms by (intro split_join) (auto simp: plain_seg_def)
  moreover have "join_on ''/'' xs \<noteq> []"
    using assms by (cases xs rule: remdups_adj.cases) (auto simp: plain_seg_def)
  ultimately show ?thesis
    using plain_not_rooted[OF assms] assms by (simp add: path_Clean_def Let_def clean_segs_plain)
qed

lemma join_on_append:
  "xs \<noteq> [] \<Longrightarrow> ys \<noteq> [] \<Longrightarrow> join_on sep (xs @ ys) = join_on sep xs @ sep @ join_on sep ys"
proof (induction xs)
  case (Cons x xs)
  then show ?case by (cases "xs = []") auto
qed simp

lemma plain_join_ne: "\<forall>x\<in>set xs. plain_seg x \<Longrightarrow> xs \<noteq> [] \<Longrightarrow> join_on ''/'' xs \<noteq> []"
  by (cases xs rule: remdups_adj.cases) (auto simp: plain_seg_def)

lemma path_Join_plain_list:
  assumes "\<forall>x\<in>set xs. plain_seg x" and "xs \<noteq> []"
  shows "path_Join xs = join_on ''/'' xs"
proof -
  have "concat xs \<noteq> []" "dropWhile (\<lambda>e. e = []) xs = xs"
    using assms by (cases xs; auto simp: plain_seg_def)+
  then show ?thesis using path_Clean_plain[OF assms] by (auto simp: path_Join_def)
qed

lemma path_Join_plain_lists:
  assumes "\<forall>x\<in>set xs. plain_seg x" "xs \<noteq> []" "\<forall>x\<in>set ys. plain_seg x" "ys \<noteq> []"
  shows "path_Join [join_on ''/'' xs, join_on ''/'' ys] = join_on ''/'' (xs @ ys)"
proof -
  have "path_Clean (join_on ''/'' (xs @ ys)) = join_on ''/'' (xs @ ys)"
    using assms by (intro path_Clean_plain) auto
  then show ?thesis
    using assms plain_join_ne[of xs] by (simp add: path_Join_def join_on_append)
qed

lemma plain_dec: "plain_seg (dec_of_nat n)"
proof -
  have "CHR ''/'' \<notin> set (dec_of_nat n)" "CHR ''.'' \<notin> set (dec_of_nat n)"
    by (rule dec_of_nat_notin, simp add: is_digit_def char_nat_def)+
  then show ?thesis by (auto simp: plain_seg_def)
qed

subsection \<open>Lemmas: searching and folding\<close>

lemma find_NoneD: "find P xs = None \<Longrightarrow> x \<in> set xs \<Longrightarrow> \<not> P x"
  by (induction xs) (auto split: if_splits)

lemma find_SomeD: "find P xs = Some x \<Longrightarrow> P x \<and> x \<in> set xs"
  by (induction xs) (auto split: if_splits)

lemma fold_inv: "P s \<Longrightarrow> (\<And>x t. x \<in> set xs \<Longrightarrow> P t \<Longrightarrow> P (f x t)) \<Longrightarrow> P (fold f xs s)"
  by (induction xs arbitrary: s) auto

end
