(* ===== verification/Go_Net.thy ===== *)
theory Go_Net
  imports Go_Prelude
begin

text \<open>
  The functions of Go's package \<open>net\<close> that the sources call: \<open>ParseIP\<close>, \<open>ParseCIDR\<close>,
  \<open>IP.String\<close>, \<open>IP.To4\<close>, \<open>IP.Equal\<close>, \<open>IP.IsUnspecified\<close>, \<open>IP.Mask\<close>, \<open>CIDRMask\<close>,
  \<open>IPMask.Size\<close> and \<open>IPNet.Contains\<close>. A \<open>net.IP\<close> is a byte slice of 4 or 16 bytes;
  \<open>nil\<close> is the empty one. \<open>ParseIP\<close> returns the 16-byte form, an IPv4 address being
  carried behind the prefix \<open>::ffff:0:0/96\<close>, exactly as in Go.
\<close>

unbundle bit_operations_syntax

type_synonym byte = "8 word"
type_synonym IP = "8 word list"

record IPNet =
  net_IP :: IP
  net_Mask :: "8 word list"

definition v4InV6Prefix :: IP where
  "v4InV6Prefix = replicate 10 0 @ [255, 255]"

subsection \<open>Parsing\<close>

definition is_hex :: "char \<Rightarrow> bool" where
  "is_hex c = (is_digit c \<or> (97 \<le> char_nat c \<and> char_nat c \<le> 102) \<or> (65 \<le> char_nat c \<and> char_nat c \<le> 70))"

definition hex_val :: "char \<Rightarrow> nat" where
  "hex_val c = (if is_digit c then char_nat c - 48
                else if 97 \<le> char_nat c then char_nat c - 87 else char_nat c - 55)"

definition nat_of_hex :: "string \<Rightarrow> nat" where
  "nat_of_hex s = foldl (\<lambda>a c. 16 * a + hex_val c) 0 s"

definition parse_octet :: "string \<Rightarrow> byte option" where
  "parse_octet s =
     (if s = [] \<or> \<not> list_all is_digit s \<or> (1 < length s \<and> hd s = CHR ''0'') \<or> 255 < nat_of_dec s
      then None else Some (of_nat (nat_of_dec s)))"

definition parseIPv4 :: "string \<Rightarrow> IP option" where
  "parseIPv4 s =
     (let fs = split_on CHR ''.'' s
      in if length fs = 4 then those (map parse_octet fs) else None)"

definition hex_group :: "string \<Rightarrow> IP" where
  "hex_group h = (let v = nat_of_hex h in [of_nat (v div 256), of_nat (v mod 256)])"

function v6_fields :: "IP \<Rightarrow> nat option \<Rightarrow> string \<Rightarrow> (IP \<times> nat option) option" where
  "v6_fields acc ell s =
     (if 16 \<le> length acc then (if s = [] then Some (acc, ell) else None)
      else
        let h = takeWhile is_hex s; rest = dropWhile is_hex s in
        if h = [] \<or> 4 < length h then None
        else
          (case rest of
             [] \<Rightarrow> Some (acc @ hex_group h, ell)
           | c # r \<Rightarrow>
               if c = CHR ''.'' then
                 (if (ell = None \<and> length acc \<noteq> 12) \<or> 16 < length acc + 4 then None
                  else (case parseIPv4 s of None \<Rightarrow> None | Some q \<Rightarrow> Some (acc @ q, ell)))
               else if c \<noteq> CHR '':'' \<or> r = [] then None
               else if hd r = CHR '':'' then
                 (if ell \<noteq> None then None
                  else if tl r = [] then Some (acc @ hex_group h, Some (length acc + 2))
                  else v6_fields (acc @ hex_group h) (Some (length acc + 2)) (tl r))
               else v6_fields (acc @ hex_group h) ell r))"
  by pat_completeness auto
termination
  by (relation "measure (\<lambda>(acc, ell, s). 16 - length acc)") (auto simp: hex_group_def Let_def)

declare v6_fields.simps [simp del]

definition v6_expand :: "IP \<times> nat option \<Rightarrow> IP option" where
  "v6_expand p =
     (case p of (acc, ell) \<Rightarrow>
        if length acc < 16 then
          (case ell of None \<Rightarrow> None
           | Some e \<Rightarrow> Some (take e acc @ replicate (16 - length acc) 0 @ drop e acc))
        else if ell \<noteq> None then None else Some acc)"

definition parseIPv6 :: "string \<Rightarrow> IP option" where
  "parseIPv6 s =
     (if CHR ''%'' \<in> set s then None
      else if has_prefix s ''::'' then
        (if drop 2 s = [] then Some (replicate 16 0)
         else Option.bind (v6_fields [] (Some 0) (drop 2 s)) v6_expand)
      else Option.bind (v6_fields [] None s) v6_expand)"

datatype Addr = Addr4 IP | Addr6 IP

definition ParseAddr :: "string \<Rightarrow> Addr option" where
  "ParseAddr s =
     (case find (\<lambda>c. c = CHR ''.'' \<or> c = CHR '':'' \<or> c = CHR ''%'') s of
        None \<Rightarrow> None
      | Some c \<Rightarrow> if c = CHR ''.'' then map_option Addr4 (parseIPv4 s)
                  else if c = CHR '':'' then map_option Addr6 (parseIPv6 s)
                  else None)"

definition as16 :: "Addr \<Rightarrow> IP" where
  "as16 a = (case a of Addr4 b \<Rightarrow> v4InV6Prefix @ b | Addr6 b \<Rightarrow> b)"

definition bit_len :: "Addr \<Rightarrow> nat" where
  "bit_len a = (case a of Addr4 _ \<Rightarrow> 32 | Addr6 _ \<Rightarrow> 128)"

definition ParseIP :: "string \<Rightarrow> IP" where
  "ParseIP s = (case ParseAddr s of None \<Rightarrow> [] | Some a \<Rightarrow> as16 a)"

subsection \<open>Addresses and networks\<close>

definition To4 :: "IP \<Rightarrow> IP" where
  "To4 ip = (if length ip = 4 then ip
             else if length ip = 16 \<and> take 12 ip = v4InV6Prefix then drop 12 ip else [])"

definition IP_Equal :: "IP \<Rightarrow> IP \<Rightarrow> bool" where
  "IP_Equal a b =
     (if length a = length b then a = b
      else if length a = 4 \<and> length b = 16 then take 12 b = v4InV6Prefix \<and> a = drop 12 b
      else if length a = 16 \<and> length b = 4 then take 12 a = v4InV6Prefix \<and> drop 12 a = b
      else False)"

definition IsUnspecified :: "IP \<Rightarrow> bool" where
  "IsUnspecified ip = (IP_Equal ip (v4InV6Prefix @ replicate 4 0) \<or> IP_Equal ip (replicate 16 0))"

definition mask_byte :: "nat \<Rightarrow> byte" where
  "mask_byte n = (if 8 \<le> n then 255 else NOT (drop_bit n 255))"

definition CIDRMask :: "nat \<Rightarrow> nat \<Rightarrow> byte list" where
  "CIDRMask ones bits = map (\<lambda>i. mask_byte (ones - 8 * i)) [0..<bits div 8]"

definition byte_bits :: "byte \<Rightarrow> bool list" where
  "byte_bits b = map (\<lambda>k. bit b (7 - k)) [0..<8]"

definition mask_Size :: "byte list \<Rightarrow> nat" where
  "mask_Size m =
     (let bs = concat (map byte_bits m); n = length (takeWhile (\<lambda>b. b) bs)
      in if list_all Not (drop n bs) then n else 0)"

definition IP_Mask :: "IP \<Rightarrow> byte list \<Rightarrow> IP" where
  "IP_Mask ip m =
     (let m' = (if length m = 16 \<and> length ip = 4 \<and> take 12 m = replicate 12 255 then drop 12 m else m);
          ip' = (if length m' = 4 \<and> length ip = 16 \<and> take 12 ip = v4InV6Prefix then drop 12 ip else ip)
      in if length ip' \<noteq> length m' then [] else map2 (AND) ip' m')"

definition ParseCIDR :: "string \<Rightarrow> (IP \<times> IPNet) option" where
  "ParseCIDR s =
     (case cut_at CHR ''/'' s of
        None \<Rightarrow> None
      | Some (addr, mk) \<Rightarrow>
          (case ParseAddr addr of
             None \<Rightarrow> None
           | Some a \<Rightarrow>
               if mk = [] \<or> \<not> list_all is_digit mk \<or> bit_len a < nat_of_dec mk then None
               else (let m = CIDRMask (nat_of_dec mk) (bit_len a)
                     in Some (as16 a, \<lparr>net_IP = IP_Mask (as16 a) m, net_Mask = m\<rparr>))))"

definition network_number :: "IPNet \<Rightarrow> IP \<times> byte list" where
  "network_number n =
     (let ip = (if To4 (net_IP n) \<noteq> [] then To4 (net_IP n) else net_IP n);
          m = net_Mask n
      in if length ip \<noteq> 4 \<and> length ip \<noteq> 16 then ([], [])
         else if length m = 4 then (if length ip = 4 then (ip, m) else ([], []))
         else if length m = 16 then (if length ip = 4 then (ip, drop 12 m) else (ip, m))
         else ([], []))"

definition IPNet_Contains :: "IPNet \<Rightarrow> IP \<Rightarrow> bool" where
  "IPNet_Contains n ip0 =
     (let (nn, m) = network_number n;
          ip = (if To4 ip0 \<noteq> [] then To4 ip0 else ip0)
      in length ip = length nn \<and>
         list_all (\<lambda>i. (nn ! i) AND (m ! i) = (ip ! i) AND (m ! i)) [0..<length ip])"

subsection \<open>Printing\<close>

definition hex_digit :: "nat \<Rightarrow> char" where
  "hex_digit d = (if d < 10 then char_of (48 + d) else char_of (87 + d))"

fun hex_of_nat :: "nat \<Rightarrow> string" where
  "hex_of_nat n =
     (if n < 16 then [hex_digit n] else hex_of_nat (n div 16) @ [hex_digit (n mod 16)])"

declare hex_of_nat.simps [simp del]

definition v6_groups :: "IP \<Rightarrow> nat list" where
  "v6_groups ip = map (\<lambda>i. 256 * unat (ip ! (2 * i)) + unat (ip ! (2 * i + 1))) [0..<8]"

definition zero_run :: "nat list \<Rightarrow> nat" where
  "zero_run gs = length (takeWhile (\<lambda>g. g = 0) gs)"

text \<open>The first longest run of at least two zero groups, as \<open>(start, length)\<close>.\<close>

definition best_run :: "nat list \<Rightarrow> (nat \<times> nat) option" where
  "best_run gs =
     foldl (\<lambda>best i. let l = zero_run (drop i gs) in
              if 2 \<le> l \<and> (case best of None \<Rightarrow> True | Some (_, m) \<Rightarrow> m < l) then Some (i, l) else best)
       None [0..<length gs]"

definition v6_string :: "IP \<Rightarrow> string" where
  "v6_string ip =
     (let gs = v6_groups ip in
      case best_run gs of
        None \<Rightarrow> join_on '':'' (map hex_of_nat gs)
      | Some (i, l) \<Rightarrow> join_on '':'' (map hex_of_nat (take i gs)) @ ''::'' @
                       join_on '':'' (map hex_of_nat (drop (i + l) gs)))"

definition v4_string :: "IP \<Rightarrow> string" where
  "v4_string ip = join_on ''.'' (map (\<lambda>b. dec_of_nat (unat b)) ip)"

text \<open>
  \<open>IP.String\<close> for the lengths that occur (0, 4 and 16); other lengths print as \<open>?\<close> and
  the bytes in hexadecimal, two digits each.
\<close>

definition IP_String :: "IP \<Rightarrow> string" where
  "IP_String ip =
     (if ip = [] then ''<nil>''
      else if length ip \<noteq> 4 \<and> length ip \<noteq> 16 then
        ''?'' @ concat (map (\<lambda>b. [hex_digit (unat b div 16), hex_digit (unat b mod 16)]) ip)
      else if To4 ip \<noteq> [] then v4_string (To4 ip)
      else v6_string ip)"

text \<open>\<open>net.SplitHostPort\<close>; the left injection carries the text of the address error.\<close>

definition addr_error :: "string \<Rightarrow> string \<Rightarrow> string" where
  "addr_error a why = (if a \<noteq> [] then ''address '' @ a @ '': '' @ why else why)"

definition SplitHostPort :: "string \<Rightarrow> string + string \<times> string" where
  "SplitHostPort hp =
     (case cut_at CHR '':'' (rev hp) of
        None \<Rightarrow> Inl (addr_error hp ''missing port in address'')
      | Some (rport, rfront) \<Rightarrow>
          (let front = rev rfront; port = rev rport in
           if has_prefix hp ''['' then
             (case cut_at CHR '']'' hp of
                None \<Rightarrow> Inl (addr_error hp (''missing '' @ [CHR 0x27, CHR '']'', CHR 0x27] @ '' in address''))
              | Some (inner, rest) \<Rightarrow>
                  if rest = [] then Inl (addr_error hp ''missing port in address'')
                  else if length inner + 1 = length front then
                    (if CHR ''['' \<in> set (tl hp) then Inl (addr_error hp (''unexpected '' @ [CHR 0x27, CHR ''['', CHR 0x27] @ '' in address''))
                     else if CHR '']'' \<in> set rest then Inl (addr_error hp (''unexpected '' @ [CHR 0x27, CHR '']'', CHR 0x27] @ '' in address''))
                     else Inr (tl inner, port))
                  else if hd rest = CHR '':'' then Inl (addr_error hp ''too many colons in address'')
                  else Inl (addr_error hp ''missing port in address''))
           else if CHR '':'' \<in> set front then Inl (addr_error hp ''too many colons in address'')
           else if CHR ''['' \<in> set hp then Inl (addr_error hp (''unexpected '' @ [CHR 0x27, CHR ''['', CHR 0x27] @ '' in address''))
           else if CHR '']'' \<in> set hp then Inl (addr_error hp (''unexpected '' @ [CHR 0x27, CHR '']'', CHR 0x27] @ '' in address''))
           else Inr (front, port)))"

subsection \<open>Lemmas: printed and parsed IPv4 addresses\<close>

lemma unat_byte_le: "unat (b :: byte) \<le> 255"
  using unsigned_less[of b, where ?'a = nat] by simp

lemma hd_dec_zero: "hd (dec_of_nat n) = CHR ''0'' \<Longrightarrow> n = 0"
proof (induction n rule: dec_of_nat.induct)
  case (1 n)
  show ?case
  proof (cases "n < 10")
    case True
    with 1 have "digit_char n = CHR ''0''" by (simp add: dec_of_nat.simps)
    with True show ?thesis using digit_char_nat[of n] by (simp add: char_nat_def)
  next
    case False
    with 1 have "n div 10 = 0" by (simp add: dec_of_nat.simps[of n])
    with False show ?thesis by simp
  qed
qed

lemma dec_zero [simp]: "dec_of_nat 0 = ''0''"
  by code_simp

lemma parse_octet_dec [simp]: "parse_octet (dec_of_nat (unat b)) = Some b"
proof -
  have "hd (dec_of_nat (unat b)) = CHR ''0'' \<Longrightarrow> length (dec_of_nat (unat b)) = 1"
    using hd_dec_zero[of "unat b"] by (metis One_nat_def dec_zero length_Cons list.size(3))
  then show ?thesis
    using dec_of_nat_digits[of "unat b"] unat_byte_le[of b]
    by (auto simp: parse_octet_def)
qed

lemma dot_notin_dec: "CHR ''.'' \<notin> set (dec_of_nat n)"
  by (rule dec_of_nat_notin) (simp add: is_digit_def char_nat_def)

lemma colon_notin_dec: "CHR '':'' \<notin> set (dec_of_nat n)"
  by (rule dec_of_nat_notin) (simp add: is_digit_def char_nat_def)

lemma dash_notin_dec: "CHR ''-'' \<notin> set (dec_of_nat n)"
  by (rule dec_of_nat_notin) (simp add: is_digit_def char_nat_def)

lemma parseIPv4_v4_string: "parseIPv4 (v4_string [a, b, c, d]) = Some [a, b, c, d]"
proof -
  have "split_on CHR ''.'' (v4_string [a, b, c, d]) =
        map (\<lambda>x. dec_of_nat (unat x)) [a, b, c, d]"
    unfolding v4_string_def by (rule split_join) (auto simp: dot_notin_dec)
  then show ?thesis by (simp add: parseIPv4_def)
qed

lemma find_append_first:
  "\<forall>x\<in>set a. \<not> P x \<Longrightarrow> P c \<Longrightarrow> find P (a @ c # b) = Some c"
  by (induction a) auto

lemma ParseAddr_v4_string: "ParseAddr (v4_string [a, b, c, d]) = Some (Addr4 [a, b, c, d])"
proof -
  have "find (\<lambda>c. c = CHR ''.'' \<or> c = CHR '':'' \<or> c = CHR ''%'') (v4_string [a, b, c, d]) = Some CHR ''.''"
    unfolding v4_string_def
    using dec_of_nat_digits[of "unat a"]
    by (auto simp: list_all_iff is_digit_def char_nat_def intro!: find_append_first)
  then show ?thesis by (simp add: ParseAddr_def parseIPv4_v4_string)
qed

lemma length_v4InV6Prefix [simp]: "length v4InV6Prefix = 12"
  by (simp add: v4InV6Prefix_def)

text \<open>Printing an IPv4 address and parsing it again gives the address.\<close>

lemma ParseIP_v4_string: "ParseIP (v4_string [a, b, c, d]) = v4InV6Prefix @ [a, b, c, d]"
  by (simp add: ParseIP_def ParseAddr_v4_string as16_def)

lemma To4_prefix [simp]: "length v = 4 \<Longrightarrow> To4 (v4InV6Prefix @ v) = v"
  by (simp add: To4_def)

lemma IP_String_v4 [simp]: "length v = 4 \<Longrightarrow> IP_String (v4InV6Prefix @ v) = v4_string v"
  by (auto simp: IP_String_def)

lemma IP_String_v4_short [simp]: "length v = 4 \<Longrightarrow> IP_String v = v4_string v"
  by (auto simp: IP_String_def To4_def)

subsection \<open>Lemmas: shape of parsed addresses\<close>

lemma those_length: "those xs = Some ys \<Longrightarrow> length ys = length xs"
  by (induction xs arbitrary: ys) (auto split: option.splits)

lemma parseIPv4_length: "parseIPv4 s = Some v \<Longrightarrow> length v = 4"
  by (auto simp: parseIPv4_def Let_def split: if_splits dest!: those_length)

lemma length_hex_group [simp]: "length (hex_group h) = 2"
  by (simp add: hex_group_def Let_def)

lemma v6_fields_step:
  assumes "v6_fields acc ell s = Some p" and "length acc < 16"
  obtains (stop) "takeWhile is_hex s = s" "s \<noteq> []" "fst p = acc @ hex_group s"
  | (dotted) q where "parseIPv4 s = Some q" "fst p = acc @ q" "length acc + 4 \<le> 16"
  | (ellipsis_end) h where "s = h @ ''::''" "list_all is_hex h" "fst p = acc @ hex_group h"
  | (more) h r ell' where "s = h @ CHR '':'' # r \<or> s = h @ ''::'' @ r" "list_all is_hex h"
      "v6_fields (acc @ hex_group h) ell' r = Some p"
proof -
  define h where "h = takeWhile is_hex s"
  have hex: "list_all is_hex h" unfolding h_def list_all_iff by (blast dest: set_takeWhileD)
  have s: "s = h @ dropWhile is_hex s" unfolding h_def by simp
  note eq = assms(1)[unfolded v6_fields.simps[of acc ell s], folded h_def]
  show thesis
  proof (cases "dropWhile is_hex s")
    case Nil
    with eq assms(2) s show thesis by (intro stop) (auto simp: Let_def h_def split: if_splits)
  next
    case (Cons c r)
    consider "c = CHR ''.''" | "c = CHR '':''" "r \<noteq> []" "hd r = CHR '':''" "tl r = []"
      | "c = CHR '':''" "r \<noteq> []" "hd r = CHR '':''" "tl r \<noteq> []"
      | "c = CHR '':''" "r \<noteq> []" "hd r \<noteq> CHR '':''"
      using eq assms(2) Cons by (auto simp: Let_def split: if_splits)
    then show thesis
    proof cases
      case 1
      with eq assms(2) Cons obtain q where "parseIPv4 s = Some q"
        by (auto simp: Let_def split: if_splits option.splits)
      with 1 eq assms(2) Cons show thesis
        by (intro dotted[of q]) (auto simp: Let_def split: if_splits)
    next
      case 2
      then have "r = '':''" by (cases r) auto
      with 2 eq assms(2) Cons s hex show thesis
        by (intro ellipsis_end[of h]) (auto simp: Let_def split: if_splits)
    next
      case 3
      then have "r = CHR '':'' # tl r" by (cases r) auto
      with 3 eq assms(2) Cons s hex show thesis
        by (intro more[of h "tl r"]) (auto simp: Let_def split: if_splits)
    next
      case 4
      with eq assms(2) Cons s hex show thesis
        by (intro more[of h r]) (auto simp: Let_def split: if_splits)
    qed
  qed
qed


lemma v6_fields_length:
  "v6_fields acc ell s = Some p \<Longrightarrow> even (length acc) \<Longrightarrow> length acc \<le> 16 \<Longrightarrow>
   length (fst p) \<le> 16"
proof (induction "16 - length acc" arbitrary: acc ell s rule: less_induct)
  case less
  show ?case
  proof (cases "length acc < 16")
    case False
    with less.prems show ?thesis by (subst (asm) v6_fields.simps) (auto split: if_splits)
  next
    case True
    with less.prems(2) have room: "length acc + 2 \<le> 16" by (elim evenE) simp
    from less.prems(1) True show ?thesis
    proof (cases rule: v6_fields_step)
      case (more h r ell')
      with less.hyps[OF _ more(3)] less.prems(2) room True show ?thesis by simp
    qed (use room parseIPv4_length in auto)
  qed
qed

lemma v6_expand_length: "v6_expand p = Some v \<Longrightarrow> length (fst p) \<le> 16 \<Longrightarrow> length v = 16"
  by (cases p) (auto simp: v6_expand_def split: if_splits option.splits)

lemma parseIPv6_length: "parseIPv6 s = Some v \<Longrightarrow> length v = 16"
  by (auto simp: parseIPv6_def bind_eq_Some_conv split: if_splits
      dest!: v6_fields_length v6_expand_length)

lemma find_Some_mem: "find P s = Some c \<Longrightarrow> c \<in> set s"
  by (induction s) (auto split: if_splits)

lemma ParseAddr_cases:
  assumes "ParseAddr s = Some a"
  obtains v where "a = Addr4 v" "parseIPv4 s = Some v" "length v = 4"
  | v where "a = Addr6 v" "parseIPv6 s = Some v" "length v = 16" "CHR '':'' \<in> set s"
proof -
  from assms obtain c where c: "find (\<lambda>c. c = CHR ''.'' \<or> c = CHR '':'' \<or> c = CHR ''%'') s = Some c"
    by (auto simp: ParseAddr_def split: option.splits)
  then have "c \<in> set s" by (rule find_Some_mem)
  with assms c that show thesis
    by (auto simp: ParseAddr_def split: if_splits dest: parseIPv4_length parseIPv6_length)
qed

lemma length_as16: "ParseAddr s = Some a \<Longrightarrow> length (as16 a) = 16"
  by (erule ParseAddr_cases) (auto simp: as16_def)

text \<open>\<open>ParseIP\<close> returns \<open>nil\<close> or 16 bytes.\<close>

lemma ParseIP_length: "ParseIP s \<noteq> [] \<Longrightarrow> length (ParseIP s) = 16"
  by (auto simp: ParseIP_def length_as16 split: option.splits)

lemma ParseIP_nil_iff: "ParseIP s = [] \<longleftrightarrow> ParseAddr s = None"
proof (cases "ParseAddr s")
  case (Some a)
  with length_as16[OF Some] have "as16 a \<noteq> []" by force
  with Some show ?thesis by (simp add: ParseIP_def)
qed (simp add: ParseIP_def)

text \<open>A string with neither a dot nor a colon is no address.\<close>

lemma find_excluded: "find P s = Some c \<Longrightarrow> d \<notin> set s \<Longrightarrow> c \<noteq> d"
  by (auto dest: find_Some_mem)

lemma ParseAddr_plain:
  assumes "CHR ''.'' \<notin> set s" and "CHR '':'' \<notin> set s"
  shows "ParseAddr s = None"
proof (cases "find (\<lambda>c. c = CHR ''.'' \<or> c = CHR '':'' \<or> c = CHR ''%'') s")
  case None
  then show ?thesis by (simp add: ParseAddr_def)
next
  case (Some c)
  have "c \<noteq> CHR ''.''" by (rule find_excluded[OF Some assms(1)])
  moreover have "c \<noteq> CHR '':''" by (rule find_excluded[OF Some assms(2)])
  ultimately show ?thesis using Some by (simp add: ParseAddr_def)
qed

lemma ParseIP_plain: "CHR ''.'' \<notin> set s \<Longrightarrow> CHR '':'' \<notin> set s \<Longrightarrow> ParseIP s = []"
  by (simp add: ParseIP_def ParseAddr_plain)

subsection \<open>Lemmas: the characters of an address\<close>

definition addr_char :: "char \<Rightarrow> bool" where
  "addr_char c = (is_hex c \<or> c = CHR ''.'' \<or> c = CHR '':'')"

lemma those_Some_all: "those xs = Some ys \<Longrightarrow> x \<in> set xs \<Longrightarrow> x \<noteq> None"
  by (induction xs arbitrary: ys) (auto split: option.splits)

lemma parse_octet_digits: "parse_octet s \<noteq> None \<Longrightarrow> list_all is_digit s"
  by (auto simp: parse_octet_def split: if_splits)

lemma set_split_on: "set s \<subseteq> insert c (\<Union> (set ` set (split_on c s)))"
  using set_join_on[of "[c]" "split_on c s"] by simp

lemma parseIPv4_chars:
  assumes "parseIPv4 s = Some v"
  shows "list_all (\<lambda>c. is_digit c \<or> c = CHR ''.'') s"
proof -
  from assms have "those (map parse_octet (split_on CHR ''.'' s)) = Some v"
    by (auto simp: parseIPv4_def Let_def split: if_splits)
  then have "\<forall>p\<in>set (split_on CHR ''.'' s). list_all is_digit p"
    by (auto dest!: those_Some_all intro!: parse_octet_digits)
  then show ?thesis using set_split_on[of s "CHR ''.''"] by (fastforce simp: list_all_iff)
qed

lemma parseIPv4_no_colon: "parseIPv4 s = Some v \<Longrightarrow> CHR '':'' \<notin> set s"
proof
  assume "parseIPv4 s = Some v" "CHR '':'' \<in> set s"
  then have "is_digit CHR '':''" using parseIPv4_chars[of s v] by (auto simp: list_all_iff)
  then show False by (simp add: is_digit_def char_nat_def)
qed

lemma digit_is_hex: "is_digit c \<Longrightarrow> is_hex c"
  by (simp add: is_hex_def)

lemma parseIPv4_addr_chars: "parseIPv4 s = Some v \<Longrightarrow> list_all addr_char s"
  by (drule parseIPv4_chars) (auto simp: list_all_iff addr_char_def digit_is_hex)

lemma v6_fields_chars: "v6_fields acc ell s = Some p \<Longrightarrow> list_all addr_char s"
proof (induction "16 - length acc" arbitrary: acc ell s rule: less_induct)
  case less
  show ?case
  proof (cases "length acc < 16")
    case False
    with less.prems show ?thesis by (subst (asm) v6_fields.simps) (auto split: if_splits)
  next
    case True
    from less.prems this show ?thesis
    proof (cases rule: v6_fields_step)
      case stop
      then show ?thesis
        by (metis (mono_tags, lifting) addr_char_def list_all_iff set_takeWhileD)
    next
      case (dotted q)
      then show ?thesis by (simp add: parseIPv4_addr_chars)
    next
      case (ellipsis_end h)
      then show ?thesis by (auto simp: list_all_iff addr_char_def)
    next
      case (more h r ell')
      with less.hyps[OF _ more(3)] True have "list_all addr_char r" by simp
      with more show ?thesis by (auto simp: list_all_iff addr_char_def)
    qed
  qed
qed

lemma parseIPv6_addr_chars: "parseIPv6 s = Some v \<Longrightarrow> list_all addr_char s"
proof -
  assume v: "parseIPv6 s = Some v"
  show ?thesis
  proof (cases "has_prefix s ''::''")
    case True
    then have "s = ''::'' @ drop 2 s"
      by (metis append_take_drop_id has_prefix_def length_Cons list.size(3) numeral_2_eq_2)
    moreover have "list_all addr_char (drop 2 s)"
      using v True by (auto simp: parseIPv6_def bind_eq_Some_conv split: if_splits
          dest: v6_fields_chars)
    moreover have "list_all addr_char ''::''" by (simp add: addr_char_def)
    ultimately show ?thesis by (metis list_all_append)
  next
    case False
    with v show ?thesis
      by (auto simp: parseIPv6_def bind_eq_Some_conv split: if_splits dest: v6_fields_chars)
  qed
qed

lemma ParseIP_chars: "ParseIP s \<noteq> [] \<Longrightarrow> list_all addr_char s"
  by (auto simp: ParseIP_nil_iff elim!: ParseAddr_cases
      dest: parseIPv4_addr_chars parseIPv6_addr_chars)

lemma ParseIP_notin: "ParseIP s \<noteq> [] \<Longrightarrow> \<not> addr_char c \<Longrightarrow> c \<notin> set s"
  using ParseIP_chars[of s] by (auto simp: list_all_iff)

lemma not_addr_char [simp]:
  "\<not> addr_char CHR ''-''" "\<not> addr_char CHR ''/''" "\<not> addr_char CHR '',''" "\<not> addr_char CHR ''=''"
  by (simp_all add: addr_char_def is_hex_def is_digit_def char_nat_def)

subsection \<open>Lemmas: CIDR notation\<close>

lemma ParseCIDR_suffix:
  assumes "ParseAddr s = Some a" and "n \<le> bit_len a"
  shows "ParseCIDR (s @ CHR ''/'' # dec_of_nat n) =
    Some (as16 a, \<lparr>net_IP = IP_Mask (as16 a) (CIDRMask n (bit_len a)),
                   net_Mask = CIDRMask n (bit_len a)\<rparr>)"
proof -
  have "ParseIP s \<noteq> []" using assms(1) by (simp add: ParseIP_nil_iff)
  then have "CHR ''/'' \<notin> set s" by (rule ParseIP_notin) simp
  with assms show ?thesis
    using dec_of_nat_digits[of n] by (simp add: ParseCIDR_def Let_def)
qed

end
