(* ===== verification/IP_Pool.thy ===== *)
theory IP_Pool
  imports Go_Net
begin

text \<open>
  Package \<open>ippool\<close>: the address pools of the load balancer (\<open>ippool.go\<close>), the round-robin
  address generator (\<open>generater.go\<close>) and the address set (\<open>set.go\<close>).

  The allocator behind a pool is a type of the third-party module \<open>loxilib\<close>, imported as
  \<open>tk\<close>. What the sources call of it is the parameter record \<open>loxilib\<close>; the type variable
  \<open>'a\<close> is the state of one \<open>tk.IPAllocator\<close>. Every pool owns its allocator: each call of
  \<open>NewIPPool\<close> gets a fresh \<open>tk.IpAllocatorNew()\<close>. The pool mutex makes each operation
  atomic, so that an operation is a function from the pool to its new value.
\<close>

record 'a loxilib =
  IsNetIPv4 :: "string \<Rightarrow> bool"
  IsNetIPv6 :: "string \<Rightarrow> bool"
  IPClusterDefault :: string
  IPAMNoIdent :: string
  MakeIPAMIdent :: "string \<Rightarrow> 32 word \<Rightarrow> string \<Rightarrow> string"
  IpAllocatorNew :: 'a
  AddIPRange :: "'a \<Rightarrow> string \<Rightarrow> string \<Rightarrow> 'a"
  AllocateNewIP :: "'a \<Rightarrow> string \<Rightarrow> string \<Rightarrow> string \<Rightarrow> 'a \<times> IP \<times> error option"
  ReserveIP :: "'a \<Rightarrow> string \<Rightarrow> string \<Rightarrow> string \<Rightarrow> string \<Rightarrow> 'a \<times> error option"
  DeAllocateIP :: "'a \<Rightarrow> string \<Rightarrow> string \<Rightarrow> string \<Rightarrow> string \<Rightarrow> 'a"

record 'a IPPool =
  CIDR :: string
  isRange :: bool
  startIP :: IP
  lastIP :: IP
  NetCIDR :: "IPNet option"
  IPAlloc :: 'a
  Shared :: bool

subsection \<open>Pools: \<open>ippool.go\<close>\<close>

definition NewIPPool :: "'a loxilib \<Rightarrow> 'a \<Rightarrow> string \<Rightarrow> bool \<Rightarrow> error + 'a IPPool" where
  "NewIPPool tk ipa cidr shared =
     (let ipa = AddIPRange tk ipa (IPClusterDefault tk) cidr in
      case ParseCIDR cidr of
        Some (_, ipn) \<Rightarrow>
          Inr \<lparr>CIDR = cidr, isRange = False, startIP = [], lastIP = [], NetCIDR = Some ipn,
               IPAlloc = ipa, Shared = shared\<rparr>
      | None \<Rightarrow>
          if contains_str cidr ''-'' then
            (let ipBlock = split_on CHR ''-'' cidr in
             if length ipBlock \<noteq> 2 then Inl ''invalid ip-range''
             else
               (let start = ParseIP (ipBlock ! 0); last = ParseIP (ipBlock ! 1) in
                if start = [] \<or> last = [] then Inl ''invalid ip-range ips''
                else if IsNetIPv4 tk (IP_String start) \<and> IsNetIPv6 tk (IP_String last) \<or>
                        IsNetIPv6 tk (IP_String start) \<and> IsNetIPv4 tk (IP_String last)
                then Inl ''invalid ip-types ips''
                else Inr \<lparr>CIDR = cidr, isRange = True, startIP = start, lastIP = last,
                          NetCIDR = None, IPAlloc = ipa, Shared = shared\<rparr>))
          else Inl ''CIDR parse failed'')"

definition pool_ident :: "'a loxilib \<Rightarrow> 'a IPPool \<Rightarrow> 32 word \<Rightarrow> string \<Rightarrow> string" where
  "pool_ident tk p sIdent proto =
     (if Shared p then MakeIPAMIdent tk [] sIdent proto else IPAMNoIdent tk)"

definition GetNewIPAddr ::
  "'a loxilib \<Rightarrow> 'a IPPool \<Rightarrow> string \<Rightarrow> 32 word \<Rightarrow> string \<Rightarrow> 'a IPPool \<times> IP \<times> string" where
  "GetNewIPAddr tk p name sIdent proto =
     (let ipamIdent = pool_ident tk p sIdent proto in
      case AllocateNewIP tk (IPAlloc p) (IPClusterDefault tk) (CIDR p) ipamIdent of
        (al, newIP, err) \<Rightarrow>
          (let p = p\<lparr>IPAlloc := al\<rparr> in
           if err \<noteq> None then
             if ipamIdent \<noteq> IPAMNoIdent tk then
               (case AllocateNewIP tk (IPAlloc p) (IPClusterDefault tk) (CIDR p) (IPAMNoIdent tk) of
                  (al, newIP, err) \<Rightarrow>
                    if err \<noteq> None then (p\<lparr>IPAlloc := al\<rparr>, [], IPAMNoIdent tk)
                    else (p\<lparr>IPAlloc := al\<rparr>, newIP, IPAMNoIdent tk))
             else (p, [], ipamIdent)
           else (p, newIP, ipamIdent)))"

function diff_loop ::
  "nat \<Rightarrow> IP \<Rightarrow> IP \<Rightarrow> nat \<Rightarrow> int \<Rightarrow> int \<Rightarrow> 64 word \<Rightarrow> 64 word go" where
  "diff_loop iplen baseIP ip i arrIndex arrIndex1 index =
     (if i < 4 \<and> arrIndex < int (length baseIP) \<and> arrIndex1 < int (length ip) then
        if arrIndex < 0 \<or> arrIndex1 < 0 then Panic ''index out of range''
        else
          (let basev = baseIP ! nat arrIndex; ipv = ip ! nat arrIndex1 in
           if ipv < basev then Ret (NOT 0)
           else
             (let index = ucast (ipv - basev);
                  index = index OR push_bit (8 * (iplen - i - 1)) index
              in diff_loop iplen baseIP ip (i + 1) (arrIndex + 1) (arrIndex1 + 1) index))
      else Ret index)"
  by pat_completeness auto
termination
  by (relation "measure (\<lambda>(_, _, _, i, _). 4 - i)") auto

declare diff_loop.simps [simp del]

definition diffIPIndex :: "'a loxilib \<Rightarrow> IP \<Rightarrow> IP \<Rightarrow> 64 word go" where
  "diffIPIndex tk baseIP ip =
     (let iplen = (if IsNetIPv4 tk (IP_String baseIP) then 4 else 16)
      in diff_loop iplen baseIP ip 0 (int (length baseIP) - int iplen) (int (length ip) - int iplen) 0)"

definition pool_Contains :: "'a loxilib \<Rightarrow> 'a IPPool \<Rightarrow> IP \<Rightarrow> bool go" where
  "pool_Contains tk p ip =
     (if isRange p then
        go_bind (diffIPIndex tk (startIP p) (lastIP p)) (\<lambda>d1.
        go_bind (diffIPIndex tk (startIP p) ip) (\<lambda>d2.
        Ret (\<not> d1 < d2)))
      else
        (case NetCIDR p of
           None \<Rightarrow> Panic ''nil pointer dereference''
         | Some n \<Rightarrow> Ret (IPNet_Contains n ip)))"

definition ReturnIPAddr :: "'a loxilib \<Rightarrow> 'a IPPool \<Rightarrow> string \<Rightarrow> string \<Rightarrow> 'a IPPool go" where
  "ReturnIPAddr tk p ip identStr =
     (let IP = ParseIP ip in
      if IP = [] then Ret p
      else
        go_bind (pool_Contains tk p IP) (\<lambda>c.
          if \<not> c then Ret p
          else Ret (p\<lparr>IPAlloc := DeAllocateIP tk (IPAlloc p) (IPClusterDefault tk) (CIDR p) identStr ip\<rparr>)))"

definition ReserveIPAddr ::
  "'a loxilib \<Rightarrow> 'a IPPool \<Rightarrow> string \<Rightarrow> string \<Rightarrow> 32 word \<Rightarrow> string \<Rightarrow>
   'a IPPool \<times> error option \<times> string" where
  "ReserveIPAddr tk p ip name sIdent proto =
     (let ipamIdent = pool_ident tk p sIdent proto in
      case ReserveIP tk (IPAlloc p) (IPClusterDefault tk) (CIDR p) ipamIdent ip of
        (al, err) \<Rightarrow>
          (let p = p\<lparr>IPAlloc := al\<rparr> in
           if err \<noteq> None \<and> ipamIdent \<noteq> IPAMNoIdent tk then
             (case ReserveIP tk (IPAlloc p) (IPClusterDefault tk) (CIDR p) (IPAMNoIdent tk) ip of
                (al, err) \<Rightarrow> (p\<lparr>IPAlloc := al\<rparr>, err, IPAMNoIdent tk))
           else (p, None, ipamIdent)))"

definition CheckAndReserveIP ::
  "'a loxilib \<Rightarrow> 'a IPPool \<Rightarrow> string \<Rightarrow> string \<Rightarrow> 32 word \<Rightarrow> string \<Rightarrow>
   ('a IPPool \<times> bool \<times> bool \<times> string) go" where
  "CheckAndReserveIP tk p ip name sIdent proto =
     (let IP = ParseIP ip in
      if IP = [] then Ret (p, False, False, [])
      else
        go_bind (pool_Contains tk p IP) (\<lambda>c.
          if c then
            (case ReserveIPAddr tk p ip name sIdent proto of
               (p, err, idStr) \<Rightarrow>
                 if err \<noteq> None then Ret (p, True, False, idStr) else Ret (p, True, True, idStr))
          else Ret (p, False, False, [])))"

subsection \<open>The address generator: \<open>generater.go\<close>\<close>

record IPGenerater =
  netCIDR :: IPNet
  uintMaskBits :: "32 word"
  counter :: "32 word"

definition mask24 :: "32 word" where "mask24 = push_bit 24 0xFF"
definition mask16 :: "32 word" where "mask16 = push_bit 16 0xFF"
definition mask8 :: "32 word" where "mask8 = push_bit 8 0xFF"
definition mask0 :: "32 word" where "mask0 = 0xFF"

definition InitIPGenerater :: "string \<Rightarrow> error + IPGenerater" where
  "InitIPGenerater cidr =
     (case ParseCIDR cidr of
        None \<Rightarrow> Inl ''invalid CIDR format''
      | Some (_, ipn) \<Rightarrow>
          (let maskbit = mask_Size (net_Mask ipn)
           in Inr \<lparr>netCIDR = ipn, uintMaskBits = drop_bit maskbit 0xFFFFFFFF, counter = 0\<rparr>))"

text \<open>
  The compare-and-swap loop makes reading and incrementing the counter one atomic step: the
  value that was read is the one that is replaced. The conversion \<open>byte\<close> keeps the low
  eight bits.
\<close>

definition NextIP :: "IPGenerater \<Rightarrow> IPGenerater \<times> IP" where
  "NextIP g =
     (let c = counter g;
          g' = g\<lparr>counter := c + 1\<rparr>;
          counterBit = c AND uintMaskBits g;
          ip = net_IP (netCIDR g)
      in (g',
          [ucast ((ucast (ip ! 0) :: 32 word) OR drop_bit 24 (counterBit AND mask24)),
           ucast ((ucast (ip ! 1) :: 32 word) OR drop_bit 16 (counterBit AND mask16)),
           ucast ((ucast (ip ! 2) :: 32 word) OR drop_bit 8 (counterBit AND mask8)),
           ucast ((ucast (ip ! 3) :: 32 word) OR drop_bit 0 (counterBit AND mask0))]))"

definition GetBroadcastIP :: "IPGenerater \<Rightarrow> IP" where
  "GetBroadcastIP g =
     (let ip = net_IP (netCIDR g); m = uintMaskBits g
      in [ucast ((ucast (ip ! 0) :: 32 word) OR drop_bit 24 m),
          ucast ((ucast (ip ! 1) :: 32 word) OR drop_bit 16 m),
          ucast ((ucast (ip ! 2) :: 32 word) OR drop_bit 8 m),
          ucast ((ucast (ip ! 3) :: 32 word) OR drop_bit 0 m)])"

definition GetNetwork :: "IPGenerater \<Rightarrow> IP" where
  "GetNetwork g = net_IP (netCIDR g)"

definition CheckIPAddressInSubnet :: "IPGenerater \<Rightarrow> string \<Rightarrow> bool" where
  "CheckIPAddressInSubnet g ipStr = IPNet_Contains (netCIDR g) (ParseIP ipStr)"

subsection \<open>The address set: \<open>set.go\<close>\<close>

text \<open>\<open>None\<close> is the nil map: it can be read and deleted from, but storing into it panics.\<close>

record IPSet =
  ipaddress :: "string list option"

definition set_keys :: "IPSet \<Rightarrow> string list" where
  "set_keys s = (case ipaddress s of None \<Rightarrow> [] | Some ks \<Rightarrow> ks)"

definition NewSet :: IPSet where
  "NewSet = \<lparr>ipaddress = Some []\<rparr>"

definition set_Add :: "string \<Rightarrow> IPSet \<Rightarrow> IPSet go" where
  "set_Add v s =
     (case ipaddress s of
        None \<Rightarrow> Panic ''assignment to entry in nil map''
      | Some ks \<Rightarrow> Ret \<lparr>ipaddress = Some (List.insert v ks)\<rparr>)"

definition set_Remove :: "string \<Rightarrow> IPSet \<Rightarrow> IPSet" where
  "set_Remove v s = \<lparr>ipaddress = map_option (removeAll v) (ipaddress s)\<rparr>"

definition set_Contains :: "IPSet \<Rightarrow> string \<Rightarrow> bool" where
  "set_Contains s v = (v \<in> set (set_keys s))"

definition GetAll :: "IPSet \<Rightarrow> string list" where
  "GetAll s = set_keys s"

definition missing_step :: "IPSet \<Rightarrow> string \<Rightarrow> bool \<times> IPSet \<Rightarrow> (bool \<times> IPSet) go" where
  "missing_step other v st =
     (if set_Contains other v then Ret st
      else go_map (\<lambda>s'. (False, s')) (set_Add v (snd st)))"

definition IsEqual :: "IPSet \<Rightarrow> IPSet \<Rightarrow> (bool \<times> IPSet \<times> IPSet) go" where
  "IsEqual s other =
     go_bind (go_fold (missing_step other) (set_keys s) (True, \<lparr>ipaddress = None\<rparr>)) (\<lambda>(eq, deleted).
     go_bind (go_fold (missing_step s) (set_keys other) (eq, \<lparr>ipaddress = None\<rparr>)) (\<lambda>(eq, added).
     Ret (eq, added, deleted)))"

subsection \<open>Frame and well-formedness of pools\<close>

definition wf_pool :: "'a IPPool \<Rightarrow> bool" where
  "wf_pool p =
     (if isRange p then length (startIP p) = 16 \<and> length (lastIP p) = 16 else NetCIDR p \<noteq> None)"

text \<open>\<open>same_pool p q\<close>: \<open>q\<close> is the pool \<open>p\<close> with another allocator state.\<close>

definition same_pool :: "'a IPPool \<Rightarrow> 'a IPPool \<Rightarrow> bool" where
  "same_pool p q = (q = p\<lparr>IPAlloc := IPAlloc q\<rparr>)"

lemma same_pool_refl [simp]: "same_pool p p"
  by (simp add: same_pool_def)

lemma same_pool_upd [simp]: "same_pool p (p\<lparr>IPAlloc := a\<rparr>)"
  by (simp add: same_pool_def)

lemma same_pool_fields:
  assumes "same_pool p q"
  shows "CIDR q = CIDR p" "isRange q = isRange p" "startIP q = startIP p" "lastIP q = lastIP p"
    "NetCIDR q = NetCIDR p" "Shared q = Shared p"
  by (subst assms[unfolded same_pool_def], simp)+

lemma same_pool_trans: "same_pool p q \<Longrightarrow> same_pool q r \<Longrightarrow> same_pool p r"
  unfolding same_pool_def by (cases p; cases q; cases r) simp

lemma wf_pool_same: "same_pool p q \<Longrightarrow> wf_pool q \<longleftrightarrow> wf_pool p"
  by (simp add: wf_pool_def same_pool_fields)

lemma pool_Contains_same: "same_pool p q \<Longrightarrow> pool_Contains tk q ip = pool_Contains tk p ip"
  by (simp add: pool_Contains_def same_pool_fields)

lemma GetNewIPAddr_same: "same_pool p (fst (GetNewIPAddr tk p n s pr))"
  by (auto simp: GetNewIPAddr_def Let_def split: prod.splits)

lemma ReserveIPAddr_same: "same_pool p (fst (ReserveIPAddr tk p ip n s pr))"
  by (auto simp: ReserveIPAddr_def Let_def split: prod.splits)

lemma ReturnIPAddr_same: "ReturnIPAddr tk p ip ident = Ret q \<Longrightarrow> same_pool p q"
  by (auto simp: ReturnIPAddr_def Let_def split: if_splits)

lemma CheckAndReserveIP_same: "CheckAndReserveIP tk p ip n s pr = Ret (q, r) \<Longrightarrow> same_pool p q"
  using ReserveIPAddr_same[of p tk ip n s pr]
  by (auto simp: CheckAndReserveIP_def Let_def split: if_splits prod.splits)

lemma NewIPPool_wf: "NewIPPool tk a c sh = Inr p \<Longrightarrow> wf_pool p \<and> CIDR p = c \<and> Shared p = sh"
  by (auto simp: NewIPPool_def Let_def wf_pool_def ParseIP_length
      split: option.splits if_splits prod.splits)

subsection \<open>Membership in a pool\<close>

lemma diff_loop_step:
  assumes "i < 4" and "k + i < length b" and "k + i < length ip"
  shows "diff_loop iplen b ip i (int (k + i)) (int (k + i)) x =
    (if ip ! (k + i) < b ! (k + i) then Ret (NOT 0)
     else diff_loop iplen b ip (Suc i) (int (k + Suc i)) (int (k + Suc i))
            (let u = ucast (ip ! (k + i) - b ! (k + i)) in u OR push_bit (8 * (iplen - i - 1)) u))"
  using assms by (subst diff_loop.simps) (simp add: Let_def nat_int_add algebra_simps)

lemma diff_loop_closed:
  assumes "i \<le> 4" and "k + 4 \<le> length b" and "k + 4 \<le> length ip"
  shows "diff_loop iplen b ip i (int (k + i)) (int (k + i)) x =
    Ret (if \<forall>j. i \<le> j \<and> j < 4 \<longrightarrow> b ! (k + j) \<le> ip ! (k + j)
         then (if i = 4 then x
               else let u = ucast (ip ! (k + 3) - b ! (k + 3)) in u OR push_bit (8 * (iplen - 4)) u)
         else NOT 0)"
  using assms(1)
proof (induction i arbitrary: x rule: inc_induct)
  case base
  show ?case by (subst diff_loop.simps) auto
next
  case (step i)
  have split: "(\<forall>j. i \<le> j \<and> j < 4 \<longrightarrow> P j) \<longleftrightarrow> P i \<and> (\<forall>j. Suc i \<le> j \<and> j < 4 \<longrightarrow> P j)" for P
    using step.hyps by (metis Suc_leD Suc_leI le_eq_less_or_eq)
  have "diff_loop iplen b ip i (int (k + i)) (int (k + i)) x =
    (if ip ! (k + i) < b ! (k + i) then Ret (NOT 0)
     else diff_loop iplen b ip (Suc i) (int (k + Suc i)) (int (k + Suc i))
            (let u = ucast (ip ! (k + i) - b ! (k + i)) in u OR push_bit (8 * (iplen - i - 1)) u))"
    using step.hyps assms by (intro diff_loop_step) auto
  moreover have "Suc i = 4 \<Longrightarrow> i = 3" by simp
  ultimately show ?case
    unfolding step.IH split using step.hyps by (auto simp: not_less Let_def)
qed

lemma byte_shift_out: "push_bit 96 (w :: 64 word) = 0"
  by (rule bit_word_eqI) (simp add: bit_simps)

text \<open>
  What \<open>diffIPIndex\<close> computes on 16-byte addresses: the maximum when an octet of the address
  is below the base's, and otherwise the difference of the last octet looked at. For IPv4
  this is the last octet of the address, for IPv6 the fourth byte of sixteen.
\<close>

definition diff_octet :: "nat \<Rightarrow> IP \<Rightarrow> IP \<Rightarrow> 64 word" where
  "diff_octet k b ip =
     (if \<forall>j<4. b ! (k + j) \<le> ip ! (k + j) then ucast (ip ! (k + 3) - b ! (k + 3)) else NOT 0)"

lemma diffIPIndex_16:
  assumes "length b = 16" and "length ip = 16"
  shows "diffIPIndex tk b ip = Ret (diff_octet (if IsNetIPv4 tk (IP_String b) then 12 else 0) b ip)"
  using diff_loop_closed[of 0 0 b ip 16 0] diff_loop_closed[of 0 12 b ip 4 0] assms
  by (auto simp: diffIPIndex_def diff_octet_def Let_def byte_shift_out)

lemma pool_Contains_range:
  assumes "isRange p" and "wf_pool p" and "length ip = 16"
  shows "pool_Contains tk p ip =
    (let k = (if IsNetIPv4 tk (IP_String (startIP p)) then 12 else 0)
     in Ret (diff_octet k (startIP p) ip \<le> diff_octet k (startIP p) (lastIP p)))"
  using assms by (simp add: pool_Contains_def wf_pool_def diffIPIndex_16 Let_def not_less)

lemma pool_Contains_ret: "wf_pool p \<Longrightarrow> length ip = 16 \<Longrightarrow> is_ret (pool_Contains tk p ip)"
  by (cases "isRange p")
    (auto simp: diffIPIndex_16 pool_Contains_def wf_pool_def)

text \<open>
  The decision of \<open>Contains\<close> as a total predicate; on a well-formed pool and a parsed
  address it is what the code returns.
\<close>

definition in_pool :: "'a loxilib \<Rightarrow> 'a IPPool \<Rightarrow> IP \<Rightarrow> bool" where
  "in_pool tk p ip = (pool_Contains tk p ip = Ret True)"

lemma pool_Contains_in_pool:
  "wf_pool p \<Longrightarrow> length ip = 16 \<Longrightarrow> pool_Contains tk p ip = Ret (in_pool tk p ip)"
  using pool_Contains_ret[of p ip tk] by (cases "pool_Contains tk p ip") (auto simp: in_pool_def)

lemma ReturnIPAddr_ret:
  assumes "wf_pool p"
  shows "ReturnIPAddr tk p s ident =
    Ret (if ParseIP s \<noteq> [] \<and> in_pool tk p (ParseIP s)
         then p\<lparr>IPAlloc := DeAllocateIP tk (IPAlloc p) (IPClusterDefault tk) (CIDR p) ident s\<rparr> else p)"
  using assms by (auto simp: ReturnIPAddr_def Let_def pool_Contains_in_pool ParseIP_length)

lemma CheckAndReserveIP_ret:
  assumes "wf_pool p"
  shows "CheckAndReserveIP tk p s n i pr =
    (if ParseIP s \<noteq> [] \<and> in_pool tk p (ParseIP s)
     then (case ReserveIPAddr tk p s n i pr of (q, err, idStr) \<Rightarrow> Ret (q, True, err = None, idStr))
     else Ret (p, False, False, []))"
  using assms
  by (auto simp: CheckAndReserveIP_def Let_def pool_Contains_in_pool ParseIP_length split: prod.splits)

lemma unat_ucast_byte: "unat (ucast (b :: byte) :: 64 word) = unat b"
  using unat_byte_le[of b] by (simp add: unsigned_ucast_eq take_bit_nat_eq_self)

lemma byte_le_max: "(ucast (b :: byte) :: 64 word) < NOT 0"
proof -
  have "unat (ucast b :: 64 word) \<le> 255"
    using unat_byte_le[of b] by (simp add: unat_ucast_byte)
  then show ?thesis by (simp add: word_less_nat_alt unsigned_minus_1_eq_mask mask_eq_exp_minus_1)
qed

lemma byte_diff_le:
  "(s :: byte) \<le> z \<Longrightarrow> s \<le> l \<Longrightarrow> (ucast (z - s) :: 64 word) \<le> ucast (l - s) \<longleftrightarrow> z \<le> l"
proof -
  assume "s \<le> z" "s \<le> l"
  then have "unat (z - s) = unat z - unat s" "unat (l - s) = unat l - unat s"
    by (simp_all add: unat_sub)
  then show ?thesis
    using \<open>s \<le> z\<close> \<open>s \<le> l\<close> by (auto simp: word_le_nat_alt unat_ucast_byte)
qed

lemma all_less_4: "(\<forall>j<4. P j) \<longleftrightarrow> P 0 \<and> P 1 \<and> P 2 \<and> P (3 :: nat)"
  by (auto simp: numeral_eq_Suc less_Suc_eq)

lemma diff_octet_le:
  "diff_octet k st ip \<le> diff_octet k st e \<longleftrightarrow>
   ((\<forall>j<4. st ! (k + j) \<le> e ! (k + j)) \<longrightarrow>
    (\<forall>j<4. st ! (k + j) \<le> ip ! (k + j)) \<and> ip ! (k + 3) \<le> e ! (k + 3))"
proof -
  have "st ! (k + 3) \<le> x ! (k + 3)" if "\<forall>j<4. st ! (k + j) \<le> x ! (k + j)" for x
    using that by (auto simp: all_less_4)
  moreover have "\<not> NOT 0 \<le> (ucast b :: 64 word)" for b :: byte
    using byte_le_max[of b] by (simp only: not_le)
  ultimately show ?thesis
    by (auto simp: diff_octet_def byte_diff_le)
qed

lemma ParseCIDR_no_slash: "CHR ''/'' \<notin> set s \<Longrightarrow> ParseCIDR s = None"
  by (simp add: ParseCIDR_def cut_at_None[THEN iffD2])

lemma slash_notin_v4: "CHR ''/'' \<notin> set (v4_string v)"
  using set_join_on[of "''.''" "map (\<lambda>b. dec_of_nat (unat b)) v"] dec_of_nat_notin[of "CHR ''/''"]
  by (auto simp: v4_string_def is_digit_def char_nat_def)

lemma dash_notin_v4: "CHR ''-'' \<notin> set (v4_string v)"
  using set_join_on[of "''.''" "map (\<lambda>b. dec_of_nat (unat b)) v"] dash_notin_dec
  by (auto simp: v4_string_def)

lemma NewIPPool_v4_range:
  assumes "NewIPPool tk al (v4_string [a, b, c, s] @ ''-'' @ v4_string [a', b', c', l]) sh = Inr p"
  shows "isRange p" "startIP p = v4InV6Prefix @ [a, b, c, s]"
    "lastIP p = v4InV6Prefix @ [a', b', c', l]"
  using assms
  by (auto simp: NewIPPool_def Let_def ParseCIDR_no_slash slash_notin_v4 dash_notin_v4
      ParseIP_v4_string contains_str_char split: if_splits)

lemma v4_octets: "(v4InV6Prefix @ [a, b, c, d]) ! 12 = a" "(v4InV6Prefix @ [a, b, c, d]) ! 13 = b"
  "(v4InV6Prefix @ [a, b, c, d]) ! 14 = c" "(v4InV6Prefix @ [a, b, c, d]) ! 15 = d"
  by (simp_all add: nth_append)

text \<open>\<open>tk.IsNetIPv4\<close> recognises dotted decimal addresses.\<close>

definition v4_recognised :: "'a loxilib \<Rightarrow> bool" where
  "v4_recognised tk = (\<forall>v. length v = 4 \<longrightarrow> IsNetIPv4 tk (v4_string v))"

text \<open>
  C16. Membership in an IPv4 range pool \<open>start-last\<close>. When the start is, octet by octet, at most
  the last address, an address is taken to be in the range exactly when each of its octets
  is at least the start's and its last octet is between the two last octets; when it is not,
  every address is. Within one /24 this is the interval the range denotes; across octets
  (\<open>10.0.7.5\<close> for the range \<open>10.0.0.1-10.0.0.9\<close>) it is wider.
\<close>

theorem range_contains_v4:
  assumes "v4_recognised tk"
    and "NewIPPool tk al (v4_string [a, b, c, s] @ ''-'' @ v4_string [a', b', c', l]) sh = Inr p"
  shows "pool_Contains tk p (ParseIP (v4_string [w, x, y, z])) =
    Ret (a \<le> a' \<and> b \<le> b' \<and> c \<le> c' \<and> s \<le> l \<longrightarrow>
         a \<le> w \<and> b \<le> x \<and> c \<le> y \<and> s \<le> z \<and> z \<le> l)"
proof -
  note p = NewIPPool_v4_range[OF assms(2)]
  have wf: "wf_pool p" using NewIPPool_wf[OF assms(2)] by simp
  have "IsNetIPv4 tk (IP_String (startIP p))"
    using assms(1) p by (simp add: v4_recognised_def)
  then show ?thesis
    using p by (simp add: pool_Contains_range[OF p(1) wf] ParseIP_v4_string diff_octet_le
        all_less_4 v4_octets conj_ac)
qed

subsection \<open>The ledger of a pool\<close>

text \<open>
  What the pools rely on of the allocator: \<open>held\<close> is the set of pairs of an identifier and an
  address that are in use. A successful allocation or reservation records a pair that was
  free, a failed one records nothing, and a release removes the pair.
\<close>

definition ipam_contract :: "'a loxilib \<Rightarrow> ('a \<Rightarrow> (string \<times> string) set) \<Rightarrow> bool" where
  "ipam_contract tk held \<longleftrightarrow>
     (\<forall>al cidr ident al' ip err. AllocateNewIP tk al (IPClusterDefault tk) cidr ident = (al', ip, err) \<longrightarrow>
        (if err = None then (ident, IP_String ip) \<notin> held al \<and> held al' = insert (ident, IP_String ip) (held al)
         else held al' = held al)) \<and>
     (\<forall>al cidr ident ip al' err. ReserveIP tk al (IPClusterDefault tk) cidr ident ip = (al', err) \<longrightarrow>
        (if err = None then (ident, ip) \<notin> held al \<and> held al' = insert (ident, ip) (held al)
         else held al' = held al)) \<and>
     (\<forall>al cidr ident ip. held (DeAllocateIP tk al (IPClusterDefault tk) cidr ident ip) = held al - {(ident, ip)})"

lemma ipam_alloc:
  assumes "ipam_contract tk held"
    and "AllocateNewIP tk al (IPClusterDefault tk) cidr ident = (al', ip, err)"
  shows "err = None \<Longrightarrow> (ident, IP_String ip) \<notin> held al \<and> held al' = insert (ident, IP_String ip) (held al)"
    and "err \<noteq> None \<Longrightarrow> held al' = held al"
  using assms unfolding ipam_contract_def by (simp_all split: if_splits)

lemma ipam_reserve:
  assumes "ipam_contract tk held"
    and "ReserveIP tk al (IPClusterDefault tk) cidr ident ip = (al', err)"
  shows "err = None \<Longrightarrow> (ident, ip) \<notin> held al \<and> held al' = insert (ident, ip) (held al)"
    and "err \<noteq> None \<Longrightarrow> held al' = held al"
  using assms unfolding ipam_contract_def by (simp_all split: if_splits)

lemma ipam_free:
  "ipam_contract tk held \<Longrightarrow>
   held (DeAllocateIP tk al (IPClusterDefault tk) cidr ident ip) = held al - {(ident, ip)}"
  unfolding ipam_contract_def by blast

lemma GetNewIPAddr_ledger:
  assumes "ipam_contract tk held" and "GetNewIPAddr tk p n s pr = (q, ip, ident)"
  shows "if ip = [] then True
     else (ident, IP_String ip) \<notin> held (IPAlloc p) \<and>
          held (IPAlloc q) = insert (ident, IP_String ip) (held (IPAlloc p))"
proof -
  obtain al ip1 err where a: "AllocateNewIP tk (IPAlloc p) (IPClusterDefault tk) (CIDR p) (pool_ident tk p s pr) = (al, ip1, err)"
    by (cases "AllocateNewIP tk (IPAlloc p) (IPClusterDefault tk) (CIDR p) (pool_ident tk p s pr)")
  obtain al2 ip2 err2 where b: "AllocateNewIP tk al (IPClusterDefault tk) (CIDR p) (IPAMNoIdent tk) = (al2, ip2, err2)"
    by (cases "AllocateNewIP tk al (IPClusterDefault tk) (CIDR p) (IPAMNoIdent tk)")
  show ?thesis
    using assms(2) a b ipam_alloc[OF assms(1) a] ipam_alloc[OF assms(1) b]
    by (auto simp: GetNewIPAddr_def Let_def split: if_splits)
qed

text \<open>Returning what was just handed out leaves nothing behind.\<close>

lemma return_after_alloc:
  assumes "ipam_contract tk held" and "wf_pool p"
    and "GetNewIPAddr tk p name sIdent proto = (q, ip, ident)" and "ip \<noteq> []"
    and "ParseIP (IP_String ip) \<noteq> []" and "in_pool tk p (ParseIP (IP_String ip))"
  shows "\<exists>r. ReturnIPAddr tk q (IP_String ip) ident = Ret r \<and> same_pool p r \<and> held (IPAlloc r) = held (IPAlloc p)"
proof -
  have pq: "same_pool p q" using GetNewIPAddr_same[of p tk name sIdent proto] assms(3) by simp
  then have "ReturnIPAddr tk q (IP_String ip) ident =
    Ret (q\<lparr>IPAlloc := DeAllocateIP tk (IPAlloc q) (IPClusterDefault tk) (CIDR q) ident (IP_String ip)\<rparr>)"
    using assms(2,5,6) pq
    by (simp add: ReturnIPAddr_ret wf_pool_same in_pool_def pool_Contains_same)
  moreover have "same_pool p (q\<lparr>IPAlloc := x\<rparr>)" for x
    using same_pool_trans[OF pq same_pool_upd] .
  ultimately show ?thesis
    using GetNewIPAddr_ledger[OF assms(1,3)] assms(4) by (auto simp: ipam_free[OF assms(1)])
qed

text \<open>
  C30. Allocation and return are inverse. An address that \<open>GetNewIPAddr\<close> hands out is new for
  the identifier it is handed out under, is recorded under that identifier, also when the
  shared allocation failed and the exclusive one was taken, and \<open>ReturnIPAddr\<close> with the address
  and that identifier brings the pool back to what was allocated before.
\<close>

theorem alloc_return_roundtrip:
  assumes "ipam_contract tk held" and "wf_pool p"
    and "GetNewIPAddr tk p name sIdent proto = (q, ip, ident)" and "ip \<noteq> []"
    and "ParseIP (IP_String ip) \<noteq> []" and "in_pool tk p (ParseIP (IP_String ip))"
  shows "(ident, IP_String ip) \<notin> held (IPAlloc p) \<and>
    held (IPAlloc q) = insert (ident, IP_String ip) (held (IPAlloc p)) \<and>
    (\<exists>r. ReturnIPAddr tk q (IP_String ip) ident = Ret r \<and> same_pool p r \<and>
         held (IPAlloc r) = held (IPAlloc p))"
  using GetNewIPAddr_ledger[OF assms(1,3)] return_after_alloc[OF assms] assms(4) by auto

text \<open>
  On a pool created without sharing, \<open>CheckAndReserveIP\<close> reports every address of the pool as
  reserved, whatever the allocator answers: the error of \<open>ReserveIP\<close> is dropped.
\<close>

theorem reserve_exclusive_hides_failure:
  assumes "NewIPPool tk al cidr False = Inr p0" and "same_pool p0 p"
  shows "\<exists>q. CheckAndReserveIP tk p ip name sIdent proto =
    Ret (if ParseIP ip \<noteq> [] \<and> in_pool tk p (ParseIP ip) then (q, True, True, IPAMNoIdent tk)
         else (p, False, False, []))"
proof -
  have "wf_pool p" "\<not> Shared p"
    using NewIPPool_wf[OF assms(1)] assms(2) by (simp_all add: wf_pool_same same_pool_fields)
  then show ?thesis
    by (auto simp: CheckAndReserveIP_ret ReserveIPAddr_def pool_ident_def Let_def split: prod.splits)
qed

subsection \<open>A concrete allocator\<close>

text \<open>
  An allocator that meets the contract: its state is the list of the pairs in use and it
  hands out \<open>10.0.0.1\<close> to \<open>10.0.0.3\<close> for each identifier.
\<close>

definition list_ipam :: "(string \<times> string) list loxilib" where
  "list_ipam = \<lparr>
     IsNetIPv4 = (\<lambda>s. To4 (ParseIP s) \<noteq> []),
     IsNetIPv6 = (\<lambda>s. ParseIP s \<noteq> [] \<and> To4 (ParseIP s) = []),
     IPClusterDefault = ''default'',
     IPAMNoIdent = ''none'',
     MakeIPAMIdent = (\<lambda>c i p. c @ dec_of_nat (unat i) @ ''/'' @ p),
     IpAllocatorNew = [],
     AddIPRange = (\<lambda>al c cidr. al),
     AllocateNewIP = (\<lambda>al c cidr ident.
        case find (\<lambda>d. (ident, v4_string [10, 0, 0, d]) \<notin> set al) [1, 2, 3] of
          None \<Rightarrow> (al, [], Some ''exhausted'')
        | Some d \<Rightarrow> ((ident, v4_string [10, 0, 0, d]) # al, v4InV6Prefix @ [10, 0, 0, d], None)),
     ReserveIP = (\<lambda>al c cidr ident ip.
        if (ident, ip) \<in> set al then (al, Some ''in use'') else ((ident, ip) # al, None)),
     DeAllocateIP = (\<lambda>al c cidr ident ip. removeAll (ident, ip) al)\<rparr>"

lemma length_4_conv: "length v = 4 \<longleftrightarrow> (\<exists>a b c d. v = [a, b, c, d])"
  by (auto simp: numeral_eq_Suc length_Suc_conv)

lemma list_ipam_v4: "v4_recognised list_ipam"
  by (auto simp: v4_recognised_def list_ipam_def length_4_conv ParseIP_v4_string)

lemma list_ipam_contract: "ipam_contract list_ipam set"
  by (auto simp: ipam_contract_def list_ipam_def find_Some_iff split: if_splits option.splits)

theorem range_contains_v4_witness:
  "\<exists>p. NewIPPool list_ipam [] ''10.0.0.1-10.0.0.9'' True = Inr p \<and>
       pool_Contains list_ipam p (ParseIP ''10.0.0.5'') = Ret True \<and>
       pool_Contains list_ipam p (ParseIP ''10.0.0.10'') = Ret False \<and>
       pool_Contains list_ipam p (ParseIP ''10.0.7.5'') = Ret True"
proof -
  have str: "v4_string [10, 0, 0, 1] = ''10.0.0.1''" "v4_string [10, 0, 0, 9] = ''10.0.0.9''"
    "v4_string [10, 0, 0, 5] = ''10.0.0.5''" "v4_string [10, 0, 0, 10] = ''10.0.0.10''"
    "v4_string [10, 0, 7, 5] = ''10.0.7.5''"
    by code_simp+
  obtain p where p: "NewIPPool list_ipam [] ''10.0.0.1-10.0.0.9'' True = Inr p"
    by (cases "NewIPPool list_ipam [] ''10.0.0.1-10.0.0.9'' True") (code_simp, blast)
  have c: "NewIPPool list_ipam [] (v4_string [10, 0, 0, 1] @ ''-'' @ v4_string [10, 0, 0, 9]) True = Inr p"
    using p by (simp add: str)
  show ?thesis
    using p range_contains_v4[OF list_ipam_v4 c, of 10 0 0 5]
      range_contains_v4[OF list_ipam_v4 c, of 10 0 0 10]
      range_contains_v4[OF list_ipam_v4 c, of 10 0 7 5]
    by (simp add: str)
qed

definition demo_pool :: "(string \<times> string) list IPPool" where
  "demo_pool = \<lparr>CIDR = ''10.0.0.0/24'', isRange = False, startIP = [], lastIP = [],
     NetCIDR = Some \<lparr>net_IP = [10, 0, 0, 0], net_Mask = [255, 255, 255, 0]\<rparr>,
     IPAlloc = [], Shared = True\<rparr>"

lemma demo_pool_new: "NewIPPool list_ipam [] ''10.0.0.0/24'' True = Inr demo_pool"
  by code_simp

lemma demo_pool_wf: "wf_pool demo_pool"
  by (simp add: wf_pool_def demo_pool_def)

theorem alloc_return_roundtrip_witness:
  "\<exists>q. GetNewIPAddr list_ipam demo_pool ''web'' 80 ''tcp'' = (q, v4InV6Prefix @ [10, 0, 0, 1], ''80/tcp'') \<and>
       (\<exists>r. ReturnIPAddr list_ipam q ''10.0.0.1'' ''80/tcp'' = Ret r \<and> set (IPAlloc r) = {})"
proof -
  have str: "IP_String (v4InV6Prefix @ [10, 0, 0, 1]) = ''10.0.0.1''" by code_simp
  define q where "q = demo_pool\<lparr>IPAlloc := [(''80/tcp'', ''10.0.0.1'')]\<rparr>"
  have g: "GetNewIPAddr list_ipam demo_pool ''web'' 80 ''tcp'' = (q, v4InV6Prefix @ [10, 0, 0, 1], ''80/tcp'')"
    unfolding q_def by code_simp
  have "v4InV6Prefix @ [10, 0, 0, 1] \<noteq> []" "ParseIP ''10.0.0.1'' \<noteq> []"
    "in_pool list_ipam demo_pool (ParseIP ''10.0.0.1'')"
    by (code_simp | simp add: in_pool_def, code_simp)+
  then show ?thesis
    using alloc_return_roundtrip[OF list_ipam_contract demo_pool_wf g] g
    by (simp add: str) (auto simp: demo_pool_def)
qed

definition excl_pool :: "(string \<times> string) list IPPool" where
  "excl_pool = demo_pool\<lparr>Shared := False\<rparr>"

theorem reserve_exclusive_hides_failure_witness:
  "\<exists>q. CheckAndReserveIP list_ipam (excl_pool\<lparr>IPAlloc := [(''none'', ''10.0.0.1'')]\<rparr>) ''10.0.0.1'' ''web'' 80 ''tcp'' =
     Ret (q, True, True, ''none'')"
proof -
  have n: "NewIPPool list_ipam [] ''10.0.0.0/24'' False = Inr excl_pool" by code_simp
  have "ParseIP ''10.0.0.1'' \<noteq> []" by code_simp
  moreover have "in_pool list_ipam (excl_pool\<lparr>IPAlloc := [(''none'', ''10.0.0.1'')]\<rparr>) (ParseIP ''10.0.0.1'')"
    unfolding in_pool_def by code_simp
  ultimately show ?thesis
    using reserve_exclusive_hides_failure[OF n same_pool_upd, of "[(''none'', ''10.0.0.1'')]" "''10.0.0.1''" "''web''" 80 "''tcp''"]
    by (simp add: list_ipam_def)
qed

subsection \<open>The generator\<close>

lemma ones_byte: "(0xFF :: 32 word) = mask 8"
  by (simp add: mask_eq_exp_minus_1)

lemma mask_byte_bit: "j < 8 \<Longrightarrow> bit (mask_byte n) j \<longleftrightarrow> 8 \<le> n + j"
proof -
  have b: "(255 :: byte) = mask 8" by (simp add: mask_eq_exp_minus_1)
  show "j < 8 \<Longrightarrow> ?thesis"
    by (auto simp: mask_byte_def b bit_simps)
qed

lemma CIDRMask_nth: "i < 4 \<Longrightarrow> CIDRMask n 32 ! i = mask_byte (n - 8 * i)"
  by (simp add: CIDRMask_def)

lemma length_CIDRMask_32 [simp]: "length (CIDRMask n 32) = 4"
  by (simp add: CIDRMask_def)

lemma mask_Size_CIDRMask_32: "n \<le> 32 \<Longrightarrow> mask_Size (CIDRMask n 32) = n"
proof -
  assume "n \<le> 32"
  moreover have "list_all (\<lambda>n. mask_Size (CIDRMask n 32) = n) [0..<33]" by code_simp
  ultimately show ?thesis by (auto simp: list_all_iff)
qed

lemma less_4_cases: "t < (4 :: nat) \<Longrightarrow> t = 0 \<or> t = 1 \<or> t = 2 \<or> t = 3"
  by auto

lemma NextIP_bit:
  assumes "t < 4" and "j < 8"
  shows "bit (snd (NextIP g) ! t) j \<longleftrightarrow>
    bit (net_IP (netCIDR g) ! t) j \<or> bit (counter g AND uintMaskBits g) (24 - 8 * t + j)"
  using less_4_cases[OF assms(1)] assms(2)
  by (elim disjE) (auto simp: NextIP_def Let_def mask24_def mask16_def mask8_def mask0_def ones_byte bit_simps)

lemma length_NextIP [simp]: "length (snd (NextIP g)) = 4"
  by (simp add: NextIP_def Let_def)

lemma counter_NextIP: "counter (fst (NextIP g)) = counter g + 1" "netCIDR (fst (NextIP g)) = netCIDR g"
  "uintMaskBits (fst (NextIP g)) = uintMaskBits g"
  by (simp_all add: NextIP_def Let_def)

definition nth_state :: "IPGenerater \<Rightarrow> nat \<Rightarrow> IPGenerater" where
  "nth_state g i = ((\<lambda>h. fst (NextIP h)) ^^ i) g"

lemma nth_state_fields:
  "counter (nth_state g i) = counter g + of_nat i" "netCIDR (nth_state g i) = netCIDR g"
  "uintMaskBits (nth_state g i) = uintMaskBits g"
  by (induction i) (simp_all add: nth_state_def counter_NextIP)

lemma InitIPGenerater_v4:
  assumes "n \<le> 32" and "InitIPGenerater (v4_string [a, b, c, d] @ ''/'' @ dec_of_nat n) = Inr g"
  shows "netCIDR g = \<lparr>net_IP = IP_Mask [a, b, c, d] (CIDRMask n 32), net_Mask = CIDRMask n 32\<rparr>"
    "uintMaskBits g = mask (32 - n)" "counter g = 0"
proof -
  have m: "drop_bit n (0xFFFFFFFF :: 32 word) = mask (32 - n)"
  proof -
    have e: "(0xFFFFFFFF :: 32 word) = mask 32" by (simp add: mask_eq_exp_minus_1)
    show ?thesis using assms(1) unfolding e by (intro bit_word_eqI) (auto simp: bit_simps)
  qed
  have "IP_Mask (v4InV6Prefix @ [a, b, c, d]) (CIDRMask n 32) = IP_Mask [a, b, c, d] (CIDRMask n 32)"
    by (simp add: IP_Mask_def Let_def)
  then show "netCIDR g = \<lparr>net_IP = IP_Mask [a, b, c, d] (CIDRMask n 32), net_Mask = CIDRMask n 32\<rparr>"
    "uintMaskBits g = mask (32 - n)" "counter g = 0"
    using assms ParseCIDR_suffix[OF ParseAddr_v4_string, of n a b c d]
    by (auto simp: InitIPGenerater_def Let_def bit_len_def as16_def mask_Size_CIDRMask_32 m)
qed

lemma network_bit:
  assumes "t < 4" and "j < 8"
  shows "bit (IP_Mask [a, b, c, d] (CIDRMask n 32) ! t) j \<longleftrightarrow>
    bit ([a, b, c, d] ! t) j \<and> 8 \<le> n - 8 * t + j"
  using assms by (simp add: IP_Mask_def Let_def bit_and_iff CIDRMask_nth mask_byte_bit)

lemma length_network [simp]: "length (IP_Mask [a, b, c, d] (CIDRMask n 32)) = 4"
  by (simp add: IP_Mask_def Let_def)

lemma list4_eqI: "length v = 4 \<Longrightarrow> length w = 4 \<Longrightarrow> (\<And>t. t < 4 \<Longrightarrow> v ! t = w ! t) \<Longrightarrow> v = w"
  by (rule nth_equalityI) auto

lemma byte_eqI: "(\<And>j. j < 8 \<Longrightarrow> bit v j = bit w j) \<Longrightarrow> v = (w :: byte)"
  by (rule bit_word_eqI) simp

lemma v4_bits_eq:
  fixes v w :: IP
  assumes "length v = 4" "length w = 4"
  shows "v = w \<longleftrightarrow> (\<forall>t<4. \<forall>j<8. bit (v ! t) j = bit (w ! t) j)"
  using assms by (auto intro!: list4_eqI byte_eqI)

lemma bit_position: "k < 32 \<Longrightarrow> \<exists>t<4. \<exists>j<8. k = 24 - 8 * t + (j :: nat)"
  by (rule exI[of _ "3 - k div 8"], rule conjI, simp, rule exI[of _ "k mod 8"]) (auto; presburger)

lemma word32_octets_eq:
  fixes x y :: "32 word"
  shows "(\<forall>t<4. \<forall>e<8. bit x (24 - 8 * t + e) = bit y (24 - 8 * t + e)) \<longleftrightarrow> x = y"
proof
  assume octets: "\<forall>t<4. \<forall>e<8. bit x (24 - 8 * t + e) = bit y (24 - 8 * t + e)"
  show "x = y"
  proof (rule bit_word_eqI)
    fix k assume "k < LENGTH(32)"
    then obtain t e where "t < 4" "e < 8" "k = 24 - 8 * t + e" using bit_position[of k] by auto
    with octets show "bit x k = bit y k" by simp
  qed
qed simp

lemma take_bit_of_nat_eq:
  "take_bit m (of_nat i :: 32 word) = take_bit m (of_nat j) \<longleftrightarrow> i mod 2 ^ m = j mod 2 ^ m"
  if "m \<le> 32"
proof -
  have "unat (take_bit m (of_nat i :: 32 word)) = i mod 2 ^ m" for i
    using that by (simp add: unsigned_take_bit_eq unsigned_of_nat take_bit_take_bit min_def) (simp add: take_bit_eq_mod)
  then show ?thesis by (metis word_unat_eq_iff)
qed

lemma IPNet_Contains_v4:
  assumes "length nn = 4" and "length m = 4" and "length v = 4"
  shows "IPNet_Contains \<lparr>net_IP = nn, net_Mask = m\<rparr> v \<longleftrightarrow> (\<forall>i<4. (nn ! i) AND (m ! i) = (v ! i) AND (m ! i))"
proof -
  have "To4 nn = nn" "To4 v = v" "nn \<noteq> []" "v \<noteq> []" using assms by (auto simp: To4_def)
  then show ?thesis
    using assms by (auto simp: IPNet_Contains_def network_number_def Let_def list_all_iff)
qed

text \<open>
  C40. The generator of an IPv4 network \<open>a.b.c.d/n\<close> stays within the network, and it cycles
  through all of its addresses: the \<open>i\<close>-th and the \<open>j\<close>-th call return the same address
  exactly when \<open>i\<close> and \<open>j\<close> agree modulo the size of the network.
\<close>

theorem NextIP_cycles:
  assumes "n \<le> 32" and "InitIPGenerater (v4_string [a, b, c, d] @ ''/'' @ dec_of_nat n) = Inr g"
  shows "IPNet_Contains (netCIDR g) (snd (NextIP (nth_state g i))) \<and>
    (snd (NextIP (nth_state g i)) = snd (NextIP (nth_state g j)) \<longleftrightarrow>
     i mod 2 ^ (32 - n) = j mod 2 ^ (32 - n))"
proof
  note g = InitIPGenerater_v4[OF assms]
  let ?net = "IP_Mask [a, b, c, d] (CIDRMask n 32)"
  have bit: "bit (snd (NextIP (nth_state g k)) ! t) e \<longleftrightarrow>
      bit (?net ! t) e \<or> bit (take_bit (32 - n) (of_nat k :: 32 word)) (24 - 8 * t + e)"
    if "t < 4" "e < 8" for k t e
    using that g by (simp add: NextIP_bit nth_state_fields take_bit_eq_mask)
  have off: "8 \<le> n - 8 * t + e \<Longrightarrow> \<not> 24 - 8 * t + e < 32 - n" if "t < 4" "e < 8" for t e
    using that by auto
  have "?net ! t AND mask_byte (n - 8 * t) = snd (NextIP (nth_state g i)) ! t AND mask_byte (n - 8 * t)"
    if "t < 4" for t
    using that off[OF that]
    by (intro byte_eqI) (auto simp: bit_and_iff bit mask_byte_bit bit_take_bit_iff)
  then show "IPNet_Contains (netCIDR g) (snd (NextIP (nth_state g i)))"
    using g by (simp add: IPNet_Contains_v4 CIDRMask_nth)
  have "snd (NextIP (nth_state g i)) = snd (NextIP (nth_state g j)) \<longleftrightarrow>
    (\<forall>t<4. \<forall>e<8. bit (take_bit (32 - n) (of_nat i :: 32 word)) (24 - 8 * t + e) =
                 bit (take_bit (32 - n) (of_nat j :: 32 word)) (24 - 8 * t + e))"
    using off by (auto simp: v4_bits_eq bit network_bit bit_take_bit_iff)
  also have "\<dots> \<longleftrightarrow> take_bit (32 - n) (of_nat i :: 32 word) = take_bit (32 - n) (of_nat j)"
    by (rule word32_octets_eq)
  finally show "snd (NextIP (nth_state g i)) = snd (NextIP (nth_state g j)) \<longleftrightarrow>
     i mod 2 ^ (32 - n) = j mod 2 ^ (32 - n)"
    by (simp add: take_bit_of_nat_eq)
qed

theorem NextIP_cycles_witness:
  "\<exists>g. InitIPGenerater ''10.1.2.77/30'' = Inr g \<and>
       snd (NextIP (nth_state g 1)) = snd (NextIP (nth_state g 5)) \<and>
       snd (NextIP (nth_state g 1)) \<noteq> snd (NextIP (nth_state g 2))"
proof -
  have str: "v4_string [10, 1, 2, 77] @ ''/'' @ dec_of_nat 30 = ''10.1.2.77/30''" by code_simp
  obtain g where g: "InitIPGenerater ''10.1.2.77/30'' = Inr g"
    by (cases "InitIPGenerater ''10.1.2.77/30''") (code_simp, blast)
  then have c: "InitIPGenerater (v4_string [10, 1, 2, 77] @ ''/'' @ dec_of_nat 30) = Inr g"
    by (simp only: str)
  show ?thesis
    using g NextIP_cycles[OF _ c, of 1 5] NextIP_cycles[OF _ c, of 1 2] by auto
qed

subsection \<open>The address set\<close>

text \<open>
  What a client of a key set relies on: a representation with an invariant, on which adding
  cannot fail and whose elements are what was added and not removed since.
\<close>

locale key_set =
  fixes new :: 's
    and add :: "'k \<Rightarrow> 's \<Rightarrow> 's go"
    and remove :: "'k \<Rightarrow> 's \<Rightarrow> 's"
    and contains :: "'s \<Rightarrow> 'k \<Rightarrow> bool"
    and elems :: "'s \<Rightarrow> 'k list"
    and inv :: "'s \<Rightarrow> bool"
  assumes new_law: "inv new" "elems new = []"
    and add_law: "inv s \<Longrightarrow> \<exists>t. add v s = Ret t \<and> inv t \<and> set (elems t) = insert v (set (elems s))"
    and remove_law: "inv s \<Longrightarrow> inv (remove v s) \<and> set (elems (remove v s)) = set (elems s) - {v}"
    and contains_law: "inv s \<Longrightarrow> contains s v \<longleftrightarrow> v \<in> set (elems s)"
    and distinct_law: "inv s \<Longrightarrow> distinct (elems s)"
begin

lemma add_all:
  "inv s \<Longrightarrow> \<exists>t. go_fold add vs s = Ret t \<and> inv t \<and> set (elems t) = set vs \<union> set (elems s)"
proof (induction vs arbitrary: s)
  case (Cons v vs)
  obtain t where t: "add v s = Ret t" "inv t" "set (elems t) = insert v (set (elems s))"
    using add_law[OF Cons.prems] by blast
  obtain u where "go_fold add vs t = Ret u" "inv u" "set (elems u) = set vs \<union> set (elems t)"
    using Cons.IH[OF t(2)] by blast
  with t show ?case by auto
qed simp

lemma build:
  "\<exists>t. go_fold add vs new = Ret t \<and> distinct (elems t) \<and> set (elems t) = set vs \<and>
       (\<forall>v. contains t v \<longleftrightarrow> v \<in> set vs)"
  using add_all[OF new_law(1)] new_law(2) distinct_law contains_law by fastforce

lemma add_remove:
  assumes "inv s" and "add v s = Ret t" and "\<not> contains s v"
  shows "set (elems (remove v t)) = set (elems s)"
  using add_law[OF assms(1), of v] assms(2,3) remove_law contains_law[OF assms(1)] by auto

end

definition wf_set :: "IPSet \<Rightarrow> bool" where
  "wf_set s = (ipaddress s \<noteq> None \<and> distinct (set_keys s))"

interpretation ipset: key_set NewSet set_Add set_Remove set_Contains GetAll wf_set
proof
  show "wf_set NewSet" "GetAll NewSet = []"
    by (simp_all add: wf_set_def NewSet_def set_keys_def GetAll_def)
  fix s :: IPSet and v
  assume s: "wf_set s"
  then obtain ks where ks: "s = \<lparr>ipaddress = Some ks\<rparr>" "distinct ks"
    by (cases s) (auto simp: wf_set_def set_keys_def)
  then show "\<exists>t. set_Add v s = Ret t \<and> wf_set t \<and> set (GetAll t) = insert v (set (GetAll s))"
    by (auto simp: set_Add_def wf_set_def set_keys_def GetAll_def)
  show "wf_set (set_Remove v s) \<and> set (GetAll (set_Remove v s)) = set (GetAll s) - {v}"
    using ks by (auto simp: set_Remove_def wf_set_def set_keys_def GetAll_def distinct_removeAll)
  show "set_Contains s v \<longleftrightarrow> v \<in> set (GetAll s)" by (simp add: set_Contains_def GetAll_def)
  show "distinct (GetAll s)" using s by (simp add: wf_set_def GetAll_def)
qed

lemma missing_fold:
  "go_fold (missing_step t) ks (b, \<lparr>ipaddress = None\<rparr>) =
     (if set ks \<subseteq> set (GetAll t) then Ret (b, \<lparr>ipaddress = None\<rparr>)
      else Panic ''assignment to entry in nil map'')"
  by (induction ks) (auto simp: missing_step_def set_Contains_def GetAll_def set_Add_def)

text \<open>
  \<open>IPSet\<close> behaves as a finite set of strings: adding the strings \<open>vs\<close> to a new set succeeds
  and gives a set that lists exactly \<open>vs\<close>, without repetition, and contains what it lists.
\<close>

theorem IPSet_build:
  "\<exists>s. go_fold set_Add vs NewSet = Ret s \<and> distinct (GetAll s) \<and> set (GetAll s) = set vs \<and>
       (\<forall>v. set_Contains s v \<longleftrightarrow> v \<in> set vs)"
  by (rule ipset.build)

text \<open>
  \<open>IsEqual\<close> answers true, with two empty difference sets, when both sets have the same
  elements. Otherwise it panics: the result variables \<open>added\<close> and \<open>deleted\<close> hold nil maps,
  and the first difference is stored into one of them.
\<close>

theorem IsEqual_outcome:
  "IsEqual s t =
     (if set (GetAll s) = set (GetAll t)
      then Ret (True, \<lparr>ipaddress = None\<rparr>, \<lparr>ipaddress = None\<rparr>)
      else Panic ''assignment to entry in nil map'')"
  using missing_fold[of t "GetAll s" True] missing_fold[of s "GetAll t" True]
  by (auto simp: IsEqual_def GetAll_def)

end
