(* ===== verification/Ext_IP.thy ===== *)
theory Ext_IP
  imports IP_Pool
begin

text \<open>
  Names and keys: the ingress host names of external addresses
  (\<open>manager/common/util_extip.go\<close>), the keys of the load balancer's cache (\<open>GenKey\<close> and
  \<open>GenSPKey\<close> of \<open>loadbalancer.go\<close>) and the instance names of a zone (\<open>GenZoneInstName\<close> of
  \<open>api/client.go\<close>).
\<close>

definition GenExtIPName :: "'a loxilib \<Rightarrow> string \<Rightarrow> (string \<times> IP) list \<Rightarrow> string \<Rightarrow> string list" where
  "GenExtIPName tk zone loxiInstAddrMap ipStr =
     (let prefix = (if zone \<noteq> [] then zone @ ''-'' else []);
          IP = ParseIP ipStr
      in if IP \<noteq> [] \<and> IsUnspecified IP then
           (if length loxiInstAddrMap \<le> 0 then [''llbanyextip'']
            else map (\<lambda>(_, host). IP_String host) loxiInstAddrMap)
         else
           (let ipStr = (if IsNetIPv6 tk ipStr then join_on ''-'' (split_on CHR '':'' ipStr) else ipStr)
            in [prefix @ ipStr]))"

definition ParseIngressHostname :: "string \<Rightarrow> string \<Rightarrow> string" where
  "ParseIngressHostname hostname zone =
     (if hostname = ''llbanyextip'' then ''0.0.0.0''
      else
        (let llbHost = split_on CHR ''-'' hostname in
         if length llbHost < 2 then
           (if ParseIP (llbHost ! 0) \<noteq> [] then llbHost ! 0 else [])
         else
           (let llbHost = (if zone \<noteq> [] \<and> llbHost ! 0 = zone then tl llbHost else llbHost) in
            if ParseIP (llbHost ! 0) \<noteq> [] then llbHost ! 0
            else if 1 < length llbHost then
              (let ipStr = join_on '':'' llbHost in if ParseIP ipStr \<noteq> [] then ipStr else [])
            else [])))"

definition GenKey :: "string \<Rightarrow> string \<Rightarrow> string" where
  "GenKey ns name = path_Join [ns, name]"

definition GenSPKey :: "string \<Rightarrow> 16 word \<Rightarrow> string \<Rightarrow> string" where
  "GenSPKey IPString Port Protocol = IPString @ '':'' @ dec_of_nat (unat Port) @ '':'' @ Protocol"

definition GenZoneInstName :: "string \<Rightarrow> int \<Rightarrow> string" where
  "GenZoneInstName zone ident = zone @ ''-'' @ ''inst'' @ dec_of_int ident"

subsection \<open>Host names of addresses\<close>

text \<open>\<open>tk.IsNetIPv6\<close> tells the two textual address families apart.\<close>

definition family_recognised :: "'a loxilib \<Rightarrow> bool" where
  "family_recognised tk =
     ((\<forall>s v. ParseAddr s = Some (Addr4 v) \<longrightarrow> \<not> IsNetIPv6 tk s) \<and>
      (\<forall>s v. ParseAddr s = Some (Addr6 v) \<longrightarrow> IsNetIPv6 tk s))"

lemma split_head_no_dot:
  assumes "ParseAddr s = Some (Addr6 v)"
  shows "CHR ''.'' \<notin> set (hd (split_on CHR '':'' s))"
proof -
  let ?P = "\<lambda>c. c = CHR ''.'' \<or> c = CHR '':'' \<or> c = CHR ''%''"
  have first: "find ?P s = Some CHR '':'' \<Longrightarrow> CHR ''.'' \<notin> set (hd (split_on CHR '':'' s))" for s
    by (induction s) (auto split: if_splits list.splits)
  have "find ?P s = Some CHR '':''"
    using assms by (auto simp: ParseAddr_def split: option.splits if_splits)
  then show ?thesis by (rule first)
qed

lemma v6_first_group_no_address:
  assumes "ParseAddr s = Some (Addr6 v)"
  shows "ParseIP (hd (split_on CHR '':'' s)) = []"
proof (rule ParseIP_plain)
  show "CHR ''.'' \<notin> set (hd (split_on CHR '':'' s))" by (rule split_head_no_dot[OF assms])
  show "CHR '':'' \<notin> set (hd (split_on CHR '':'' s))"
    by (rule split_on_parts[of _ _ s]) (simp add: hd_in_set)
qed

lemma split_dash_of_v6:
  assumes "CHR ''-'' \<notin> set s"
  shows "split_on CHR ''-'' (join_on ''-'' (split_on CHR '':'' s)) = split_on CHR '':'' s"
proof (rule split_join)
  show "\<forall>x\<in>set (split_on CHR '':'' s). CHR ''-'' \<notin> set x"
    using assms split_on_subset by fastforce
qed simp

lemma dashed_not_any: "CHR ''-'' \<in> set h \<Longrightarrow> h \<noteq> ''llbanyextip''"
  by auto

lemma colon_two_parts: "CHR '':'' \<in> set s \<Longrightarrow> 2 \<le> length (split_on CHR '':'' s)"
  by (rule split_on_hd_notin)

lemma ext_ip_name_back:
  assumes "family_recognised tk" and "CHR ''-'' \<notin> set zone"
    and "ParseIP s \<noteq> []" and "\<not> IsUnspecified (ParseIP s)"
  shows "\<exists>h. GenExtIPName tk zone insts s = [h] \<and> ParseIngressHostname h zone = s"
proof -
  have dash: "CHR ''-'' \<notin> set s" using assms(3) by (rule ParseIP_notin) simp
  have any: "s \<noteq> ''llbanyextip''"
    using assms(3) by (auto simp: ParseIP_plain)
  from assms(3) obtain a where "ParseAddr s = Some a" by (auto simp: ParseIP_nil_iff)
  then show ?thesis
  proof (cases rule: ParseAddr_cases)
    case (1 v)
    with \<open>ParseAddr s = Some a\<close> assms(1) have "\<not> IsNetIPv6 tk s"
      by (auto simp: family_recognised_def)
    with assms dash any dashed_not_any[of "zone @ ''-'' @ s"] show ?thesis
      by (auto simp: GenExtIPName_def ParseIngressHostname_def Let_def)
  next
    case (2 v)
    let ?gs = "split_on CHR '':'' s"
    have six: "ParseAddr s = Some (Addr6 v)" using 2 \<open>ParseAddr s = Some a\<close> by simp
    with assms(1) have v6: "IsNetIPv6 tk s" by (auto simp: family_recognised_def)
    have two: "2 \<le> length ?gs" using 2 by (intro colon_two_parts)
    have g0: "ParseIP (?gs ! 0) = []"
      using v6_first_group_no_address[OF six] by (simp add: hd_conv_nth)
    have "CHR ''-'' \<in> set (join_on ''-'' ?gs)"
      using two split_on_singleton_iff[of "CHR ''-''" "join_on ''-'' ?gs"]
      by (simp add: split_dash_of_v6[OF dash])
    then have notany: "z @ join_on ''-'' ?gs \<noteq> ''llbanyextip''" for z
      by (intro dashed_not_any) simp
    show ?thesis
    proof (cases "zone = []")
      case True
      with assms dash v6 two g0 notany[of "[]"] show ?thesis
        by (auto simp: GenExtIPName_def ParseIngressHostname_def Let_def split_dash_of_v6)
    next
      case False
      with assms dash v6 two g0 notany[of "zone @ ''-''"] show ?thesis
        by (auto simp: GenExtIPName_def ParseIngressHostname_def Let_def split_dash_of_v6)
    qed
  qed
qed

text \<open>A name that is itself an address is the address it was made of.\<close>

lemma ext_ip_name_address:
  assumes "ParseIP s \<noteq> []" and "\<not> IsUnspecified (ParseIP s)" and "GenExtIPName tk zone insts s = [h]"
    and "ParseIP h \<noteq> []" and "family_recognised tk"
  shows "h = s"
proof -
  have dash: "CHR ''-'' \<notin> set h" "CHR ''-'' \<notin> set s" using assms(1,4) by (simp_all add: ParseIP_notin)
  have "\<not> IsNetIPv6 tk s"
  proof
    assume v6: "IsNetIPv6 tk s"
    from assms(1) obtain a where a: "ParseAddr s = Some a" by (auto simp: ParseIP_nil_iff)
    from this have "CHR '':'' \<in> set s"
      using v6 a assms(5) by (cases rule: ParseAddr_cases) (auto simp: family_recognised_def)
    then have "2 \<le> length (split_on CHR '':'' s)" by (rule colon_two_parts)
    then have "CHR ''-'' \<in> set (join_on ''-'' (split_on CHR '':'' s))"
      using split_on_singleton_iff[of "CHR ''-''" "join_on ''-'' (split_on CHR '':'' s)"]
      by (simp add: split_dash_of_v6[OF dash(2)])
    then show False using assms(1-3) v6 dash(1) by (auto simp: GenExtIPName_def Let_def split: if_splits)
  qed
  then show ?thesis using assms(1-3) dash(1) by (auto simp: GenExtIPName_def Let_def split: if_splits)
qed

text \<open>
  C38. The host name that \<open>GenExtIPName\<close> writes into a service's ingress status leads back to the
  address: for a zone name without dashes and an IPv4 or IPv6 address other than the
  unspecified one, \<open>ParseIngressHostname\<close> returns the address the name was made of.
\<close>

theorem ext_ip_name_roundtrip:
  assumes "family_recognised tk" and "CHR ''-'' \<notin> set zone"
    and "ParseIP s \<noteq> []" and "\<not> IsUnspecified (ParseIP s)"
  shows "\<exists>h. GenExtIPName tk zone insts s = [h] \<and> ParseIngressHostname h zone = s"
  using assms by (rule ext_ip_name_back)


definition demo_net_lib :: "(string \<times> string) list loxilib" where
  "demo_net_lib = list_ipam\<lparr>IsNetIPv6 := \<lambda>s. CHR '':'' \<in> set s\<rparr>"

lemma demo_net_lib_family: "family_recognised demo_net_lib"
proof -
  have "CHR '':'' \<notin> set s" if "ParseAddr s = Some (Addr4 v)" for s v
    using that
    by (cases rule: ParseAddr_cases)
      (auto dest: parseIPv4_no_colon)
  moreover have "CHR '':'' \<in> set s" if "ParseAddr s = Some (Addr6 v)" for s v
    using that by (cases rule: ParseAddr_cases) auto
  ultimately show ?thesis by (auto simp: family_recognised_def demo_net_lib_def)
qed

theorem ext_ip_name_roundtrip_witness:
  "\<exists>h. GenExtIPName demo_net_lib ''llb'' [] ''2001:db8::1'' = [h] \<and>
       ParseIngressHostname h ''llb'' = ''2001:db8::1''"
proof -
  have "CHR ''-'' \<notin> set ''llb''" by simp
  moreover have "ParseIP ''2001:db8::1'' \<noteq> []" by code_simp
  moreover have "\<not> IsUnspecified (ParseIP ''2001:db8::1'')" by code_simp
  ultimately show ?thesis by (rule ext_ip_name_roundtrip[OF demo_net_lib_family])
qed

text \<open>
  The unspecified address, used by the zero-CIDR pool, is named \<open>llbanyextip\<close> while no
  instance address is known, and that name is read back as \<open>0.0.0.0\<close>; once instances are
  known it is named by their addresses instead.
\<close>

theorem ext_ip_name_unspecified:
  "GenExtIPName tk zone [] ''0.0.0.0'' = [''llbanyextip''] \<and>
   ParseIngressHostname ''llbanyextip'' zone = ''0.0.0.0'' \<and>
   GenExtIPName tk zone ((i, ip) # insts) ''0.0.0.0'' = map (\<lambda>(_, host). IP_String host) ((i, ip) # insts)"
proof -
  have "ParseIP ''0.0.0.0'' \<noteq> []" "IsUnspecified (ParseIP ''0.0.0.0'')" by code_simp+
  then show ?thesis by (simp add: GenExtIPName_def ParseIngressHostname_def Let_def)
qed

subsection \<open>Keys\<close>

lemma cut_colon_eq:
  assumes "CHR '':'' \<notin> set a" and "CHR '':'' \<notin> set a'"
    and "a @ CHR '':'' # b = a' @ CHR '':'' # b'"
  shows "a = a' \<and> b = b'"
proof -
  have "cut_at CHR '':'' (a @ CHR '':'' # b) = cut_at CHR '':'' (a' @ CHR '':'' # b')"
    using assms(3) by simp
  with assms(1,2) show ?thesis by simp
qed

text \<open>The last two colons of a key delimit the port and the protocol, also when the address has colons.\<close>

lemma GenSPKey_rev_eq:
  assumes "CHR '':'' \<notin> set p" and "CHR '':'' \<notin> set p'"
    and "GenSPKey ip port p = GenSPKey ip' port' p'"
  shows "ip = ip' \<and> port = port' \<and> p = p'"
proof -
  have "rev p @ CHR '':'' # rev (dec_of_nat (unat port)) @ CHR '':'' # rev ip =
        rev p' @ CHR '':'' # rev (dec_of_nat (unat port')) @ CHR '':'' # rev ip'"
    using arg_cong[OF assms(3), of rev] by (simp add: GenSPKey_def)
  with assms(1,2) have p: "rev p = rev p'"
    and r: "rev (dec_of_nat (unat port)) @ CHR '':'' # rev ip =
            rev (dec_of_nat (unat port')) @ CHR '':'' # rev ip'"
    using cut_colon_eq[of "rev p" "rev p'"] by auto
  from r have "rev (dec_of_nat (unat port)) = rev (dec_of_nat (unat port'))" and ip: "rev ip = rev ip'"
    using cut_colon_eq[OF _ _ r] colon_notin_dec by auto
  then have "unat port = unat port'" by simp
  with p ip show ?thesis by (simp add: word_unat_eq_iff)
qed

text \<open>
  C39. The keys under which the load balancer caches its entries are unambiguous. For protocol
  names without a colon, two (address, port, protocol) triples have the same service-pair key
  only when they are equal, also for IPv6 addresses; two services have the same cache key
  only when their namespaces and names agree; and two instances of a zone have different
  names.
\<close>

theorem cache_keys_injective:
  "(CHR '':'' \<notin> set p \<and> CHR '':'' \<notin> set p' \<longrightarrow>
      (GenSPKey ip port p = GenSPKey ip' port' p' \<longleftrightarrow> ip = ip' \<and> port = port' \<and> p = p')) \<and>
   (plain_seg ns \<and> plain_seg n \<and> plain_seg ns' \<and> plain_seg n' \<longrightarrow>
      (GenKey ns n = GenKey ns' n' \<longleftrightarrow> ns = ns' \<and> n = n')) \<and>
   (0 \<le> i \<and> 0 \<le> j \<longrightarrow> (GenZoneInstName zone i = GenZoneInstName zone j \<longleftrightarrow> i = j))"
  using GenSPKey_rev_eq[of p p' ip port ip' port'] path_Join_plain_inject[of ns n ns' n']
  by (auto simp: GenKey_def GenZoneInstName_def dec_of_int_def)

theorem cache_keys_injective_witness:
  "GenSPKey ''2001::1'' 80 ''tcp'' \<noteq> GenSPKey ''2001:'' 80 ''tcp'' \<and>
   GenKey ''default'' ''web'' \<noteq> GenKey ''kube'' ''web'' \<and>
   GenZoneInstName ''llb'' 1 \<noteq> GenZoneInstName ''llb'' 11"
  using cache_keys_injective[of "''tcp''" "''tcp''" "''2001::1''" 80 "''2001:''" 80
      "''default''" "''web''" "''kube''" "''web''" 1 11 "''llb''"]
  by (simp add: plain_seg_def)

end
