(* ===== verification/Api_Client.thy ===== *)
theory Api_Client
  imports Ext_IP
begin

text \<open>
  Package \<open>api\<close>: the client side of loxilb's REST interface. The models that are sent
  (\<open>lb.go\<close>, \<open>cluster.go\<close>, \<open>bgp.go\<close>, \<open>firewall.go\<close>, \<open>bgppolicy*.go\<close>), how a request is
  addressed (\<open>request.go\<close>, \<open>interface.go\<close>), how its answer is judged (\<open>request.go\<close>,
  \<open>response.go\<close> and the API functions), the access tokens (\<open>tokens.go\<close>) and the client
  object with its health check (\<open>client.go\<close>).

  The HTTP exchange itself is a parameter: a function from the message that is sent to what
  comes back. Decoding JSON is a parameter as well; the theorems hold for every decoder.
\<close>

subsection \<open>Models\<close>

record MtlsFrontend =
  ClientCertMode :: "string option"
  ClientCaPath :: string
  ClientCaCertData :: string
  RequireClientCn :: "bool option"
  ClientCnPattern :: string

record MtlsBackend =
  VerifyServerCert :: "bool option"
  BackendCaPath :: string
  ClientCertPath :: string
  ClientKeyPath :: string
  ClientCertData :: string
  ClientKeyData :: string

record LoadBalancerService =
  svc_ExternalIP :: string
  svc_PrivateIP :: string
  svc_Port :: "16 word"
  svc_Protocol :: string
  svc_Sel :: nat
  svc_Mode :: int
  svc_BGP :: bool
  svc_Monitor :: bool
  svc_Timeout :: "32 word"
  svc_Block :: "32 word"
  svc_Managed :: bool
  svc_ProbeType :: string
  svc_ProbePort :: "16 word"
  svc_ProbeReq :: string
  svc_ProbeResp :: string
  svc_ProbeRetries :: int
  svc_ProbeTimeout :: "32 word"
  svc_Security :: int
  svc_Name :: string
  svc_Oper :: int
  svc_Host :: string
  svc_PpV2 :: bool
  svc_Egress :: bool
  svc_Snat :: bool
  svc_PathPrefix :: string
  svc_BackendProtocol :: string
  svc_PathMatchMode :: string
  svc_MtlsFrontend :: "MtlsFrontend option"
  svc_MtlsBackend :: "MtlsBackend option"

record LoadBalancerEndpoint =
  EndpointIP :: string
  TargetPort :: "16 word"
  Weight :: "8 word"
  State :: string
  Counter :: string

record LoadBalancerModel =
  lb_Service :: LoadBalancerService
  lb_SecondaryIPs :: "string list"
  lb_SrcIPs :: "string list"
  lb_Endpoints :: "LoadBalancerEndpoint list"

record CIStatusModel =
  ci_Instance :: string
  ci_State :: string
  ci_Vip :: string

record BGPNeigh =
  neigh_IPAddress :: string
  neigh_RemoteAs :: int
  neigh_RemotePort :: int
  neigh_SetMultiHop :: bool

record BGPGlobalConfig =
  LocalAs :: int
  RouterID :: string
  SetNHSelf :: bool
  ListenPort :: "16 word"

record FwOptArg =
  fw_Drop :: bool
  fw_Trap :: bool
  fw_Rdr :: bool
  fw_RdrPort :: string
  fw_Allow :: bool
  fw_Mark :: "32 word"
  fw_Record :: bool
  fw_DoSnat :: bool
  fw_ToIP :: string
  fw_ToPort :: "16 word"
  fw_OnDefault :: bool
  fw_Counter :: string

record FwRuleArg =
  fw_SrcIP :: string
  fw_DstIP :: string
  fw_SrcPortMin :: "16 word"
  fw_SrcPortMax :: "16 word"
  fw_DstPortMin :: "16 word"
  fw_DstPortMax :: "16 word"
  fw_Proto :: "8 word"
  fw_InPort :: string
  fw_Pref :: "16 word"

record FwRuleMod =
  fw_Rule :: FwRuleArg
  fw_Opts :: FwOptArg

record BGPPolicyApply =
  NeighIPAddress :: string
  PolicyType :: string
  Policies :: "string list"
  RouteAction :: string

record BGPPolicyDefinedSets =
  ds_Name :: string
  ds_DefinedType :: string
  ds_List :: "string list"
  ds_PrefixList :: "(string \<times> string) list"

record SetCommunity =
  Options :: string
  SetCommunityMethod :: "string list"

record BGPActions =
  SetMed :: string
  act_SetCommunity :: SetCommunity
  SetExtCommunity :: SetCommunity
  SetLargeCommunity :: SetCommunity
  SetNextHop :: string
  SetLocalPerf :: int
  SetAsPathPrepend :: "string \<times> int"

record BGPConditions =
  AfiSafiIn :: "string list"
  cond_AsPathSet :: "string \<times> string"
  AsPathLength :: "string \<times> int"
  cond_CommunitySet :: "string \<times> string"
  ExtCommunitySet :: "string \<times> string"
  LargeCommunitySet :: "string \<times> string"
  RouteType :: string
  NextHopInList :: "string list"
  Rpki :: string

record Statement =
  st_Name :: string
  st_PrefixSet :: "string \<times> string"
  st_NeighborSet :: "string \<times> string"
  st_BGPConditions :: BGPConditions
  st_RouteDisposition :: string
  st_BGPActions :: BGPActions

record BGPPolicyDefinition =
  pd_Name :: string
  pd_Statement :: "Statement list"

record PodMetadata =
  pm_Name :: string
  pm_Namespace :: string
  pm_IP :: string
  pm_NodeName :: string
  pm_Labels :: "(string \<times> string) list"

record MetaServicePort =
  mp_Port :: int
  mp_Protocol :: string
  mp_NodePort :: int
  mp_TargetPort :: int

record ServiceMetadata =
  sm_Name :: string
  sm_Namespace :: string
  sm_ClusterIP :: string
  sm_ExternalIP :: string
  sm_Ports :: "MetaServicePort list"

record NodeMetadata =
  nm_Name :: string
  nm_InternalIP :: string
  nm_Labels :: "(string \<times> string) list"
  nm_Status :: string

record K8sMetaModel =
  meta_Pods :: "PodMetadata list"
  meta_Services :: "ServiceMetadata list"
  meta_Nodes :: "NodeMetadata list"

record SniCertModel =
  sni_Hostname :: string

definition BackendProtocol_IsValid :: "string \<Rightarrow> bool" where
  "BackendProtocol_IsValid b = (b = [] \<or> b = ''http1'' \<or> b = ''http2'')"

definition PathMatchMode_IsValid :: "string \<Rightarrow> bool" where
  "PathMatchMode_IsValid p = (p = [] \<or> p = ''prefix'' \<or> p = ''exact'')"

subsection \<open>Requests: \<open>request.go\<close>\<close>

record RESTClient =
  rest_Scheme :: string
  rest_Host :: string
  provider :: string
  version :: string

text \<open>The body is kept as the model that would be marshalled; \<open>None\<close> is no body.\<close>

datatype body_model =
    BLb LoadBalancerModel
  | BCi CIStatusModel
  | BNeigh BGPNeigh
  | BGlobal BGPGlobalConfig
  | BFw FwRuleMod
  | BApply BGPPolicyApply
  | BDefinedSets BGPPolicyDefinedSets
  | BDefinition BGPPolicyDefinition
  | BMeta K8sMetaModel
  | BSni SniCertModel

record LoxiRequest =
  rq_method :: string
  rq_resource :: string
  rq_subResource :: "string list"
  rq_queryArgs :: "(string \<times> string) list"
  rq_body :: "body_model option"
  rq_contentType :: string
  rq_err :: "error option"

definition NewLoxiRequest :: "string \<Rightarrow> string \<Rightarrow> LoxiRequest" where
  "NewLoxiRequest meth resource =
     \<lparr>rq_method = meth, rq_resource = resource, rq_subResource = [], rq_queryArgs = [],
      rq_body = None, rq_contentType = [], rq_err = None\<rparr>"

definition req_Body :: "body_model \<Rightarrow> LoxiRequest \<Rightarrow> LoxiRequest" where
  "req_Body obj l = (if rq_err l \<noteq> None then l else l\<lparr>rq_body := Some obj\<rparr>)"

definition req_Query :: "(string \<times> string) list \<Rightarrow> LoxiRequest \<Rightarrow> LoxiRequest" where
  "req_Query param l =
     (if rq_err l \<noteq> None then l
      else l\<lparr>rq_queryArgs := fold (\<lambda>(k, v). AList.update k v) param (rq_queryArgs l)\<rparr>)"

definition req_SubResource :: "string list \<Rightarrow> LoxiRequest \<Rightarrow> LoxiRequest" where
  "req_SubResource subs l = l\<lparr>rq_subResource := rq_subResource l @ subs\<rparr>"

definition getPath :: "RESTClient \<Rightarrow> LoxiRequest \<Rightarrow> string" where
  "getPath c l =
     (let p = path_Join [provider c, version c];
          p = (if rq_resource l \<noteq> [] then path_Join [p, to_lower (rq_resource l)] else p)
      in if rq_subResource l \<noteq> [] then path_Join [p, path_Join (rq_subResource l)] else p)"

text \<open>What goes out, and what may come back.\<close>

record http_msg =
  msg_method :: string
  msg_host :: string
  msg_path :: string
  msg_query :: "(string \<times> string) list"
  msg_body :: "body_model option"
  msg_contentType :: string
  msg_Authorization :: "string option"

datatype http_outcome =
    NoRequest error
  | NoReply "int option" error
  | NoBody int error
  | Reply int string string

record LoxiResponse =
  resp_err :: "error option"
  resp_statusCode :: int
  resp_body :: string
  resp_contentType :: string

definition req_message :: "RESTClient \<Rightarrow> LoxiRequest \<Rightarrow> string \<Rightarrow> http_msg" where
  "req_message c l token =
     \<lparr>msg_method = rq_method l, msg_host = rest_Host c, msg_path = getPath c l,
      msg_query = rq_queryArgs l, msg_body = rq_body l,
      msg_contentType = (if rq_contentType l \<noteq> [] then rq_contentType l else ''application/json''),
      msg_Authorization = (if token \<noteq> [] then Some token else None)\<rparr>"

text \<open>
  \<open>Do\<close> after the token lookup. \<open>send\<close> is the HTTP exchange, \<open>result\<close> the decoding of the
  \<open>result\<close> field of a JSON answer (\<open>None\<close>: not JSON; an absent field is the empty string)
  and \<open>status_text\<close> is \<open>http.StatusText\<close>.
\<close>

definition Do ::
  "(http_msg \<Rightarrow> http_outcome) \<Rightarrow> (string \<Rightarrow> error + string) \<Rightarrow> (int \<Rightarrow> string) \<Rightarrow> RESTClient \<Rightarrow>
   string \<Rightarrow> LoxiRequest \<Rightarrow> LoxiResponse" where
  "Do send result status_text c token l =
     (let fail = (\<lambda>code body e. \<lparr>resp_err = Some e, resp_statusCode = code, resp_body = body, resp_contentType = []\<rparr>) in
      case rq_err l of
        Some e \<Rightarrow> fail 0 [] e
      | None \<Rightarrow>
          (case send (req_message c l token) of
             NoRequest e \<Rightarrow> fail 0 [] e
           | NoReply code e \<Rightarrow> fail (case code of None \<Rightarrow> 0 | Some n \<Rightarrow> n) [] e
           | NoBody code e \<Rightarrow> fail code [] e
           | Reply code body ctype \<Rightarrow>
               if rq_method l \<noteq> ''GET'' \<and> code \<noteq> 200 then
                 (case result body of
                    Inr r \<Rightarrow> if r \<noteq> [] then fail code body r else fail code body (status_text code)
                  | Inl _ \<Rightarrow> fail code body (status_text code))
               else if rq_method l \<noteq> ''GET'' \<and> result body \<noteq> Inr ''Success'' then
                 (case result body of Inl e \<Rightarrow> fail code [] e | Inr r \<Rightarrow> fail code [] r)
               else \<lparr>resp_err = None, resp_statusCode = code, resp_body = body, resp_contentType = ctype\<rparr>))"

definition UnMarshal :: "(string \<Rightarrow> error + 'm) \<Rightarrow> LoxiResponse \<Rightarrow> 'm \<Rightarrow> 'm \<times> LoxiResponse" where
  "UnMarshal decode l obj =
     (if resp_err l \<noteq> None then (obj, l)
      else if resp_contentType l = ''application/json'' then
        (case decode (resp_body l) of
           Inl e \<Rightarrow> (obj, l\<lparr>resp_err := Some e\<rparr>)
         | Inr m \<Rightarrow> (m, l))
      else (obj, l\<lparr>resp_err := Some (''not supported content-Type '' @ resp_contentType l)\<rparr>))"

subsection \<open>Addressing by struct tags: \<open>interface.go\<close>\<close>

text \<open>
  What reflection sees of a key struct: its type name and, per field in order, the value of the
  tag \<open>key\<close>, the value of the tag \<open>options\<close> and the field printed with \<open>%v\<close>.
\<close>

record key_struct =
  ks_name :: string
  ks_fields :: "(string option \<times> string option \<times> string) list"

definition fmt_bool :: "bool \<Rightarrow> string" where
  "fmt_bool b = (if b then ''true'' else ''false'')"

definition LoadBalancerService_fields :: "LoadBalancerService \<Rightarrow> key_struct" where
  "LoadBalancerService_fields s =
     \<lparr>ks_name = ''LoadBalancerService'',
      ks_fields =
        [(Some ''externalipaddress'', None, svc_ExternalIP s),
         (Some ''privateipaddress'', None, svc_PrivateIP s),
         (Some ''port'', None, dec_of_nat (unat (svc_Port s))),
         (Some ''protocol'', None, svc_Protocol s),
         (None, Some ''bgp'', fmt_bool (svc_BGP s)),
         (None, Some ''block'', dec_of_nat (unat (svc_Block s)))]\<rparr>"

definition FwRuleArg_fields :: "FwRuleArg \<Rightarrow> key_struct" where
  "FwRuleArg_fields r =
     \<lparr>ks_name = ''FwRuleArg'', ks_fields = [(None, Some ''sourceIP'', fw_SrcIP r)]\<rparr>"

definition GetKeyStruct :: "body_model \<Rightarrow> key_struct" where
  "GetKeyStruct m =
     (case m of
        BLb lb \<Rightarrow> LoadBalancerService_fields (lb_Service lb)
      | BFw fw \<Rightarrow> FwRuleArg_fields (fw_Rule fw)
      | BCi _ \<Rightarrow> \<lparr>ks_name = ''CIStatusModel'', ks_fields = []\<rparr>
      | BNeigh _ \<Rightarrow> \<lparr>ks_name = ''BGPNeigh'', ks_fields = []\<rparr>
      | BGlobal _ \<Rightarrow> \<lparr>ks_name = ''BGPGlobalConfig'', ks_fields = []\<rparr>
      | BApply _ \<Rightarrow> \<lparr>ks_name = ''BGPPolicyApplyModel'', ks_fields = []\<rparr>
      | BDefinedSets _ \<Rightarrow> \<lparr>ks_name = ''BGPPolicyDefinedSetsModel'', ks_fields = []\<rparr>
      | BDefinition _ \<Rightarrow> \<lparr>ks_name = ''BGPPolicyDefinition'', ks_fields = []\<rparr>
      | BMeta _ \<Rightarrow> \<lparr>ks_name = ''K8sMetaModel'', ks_fields = []\<rparr>
      | BSni _ \<Rightarrow> \<lparr>ks_name = ''SniCertModel'', ks_fields = []\<rparr>)"

definition MakeDeletedSubResource :: "string list \<Rightarrow> body_model \<Rightarrow> error + string" where
  "MakeDeletedSubResource deleteKey m =
     (let e = GetKeyStruct m;
          subResource =
            concat (map (\<lambda>key. case find (\<lambda>(k, _, _). k = Some key) (ks_fields e) of
                                 None \<Rightarrow> [] | Some (_, _, v) \<Rightarrow> [key, v]) deleteKey)
      in if length subResource < length deleteKey * 2
         then Inl (''struct '' @ ks_name e @ '' have not enough keys'')
         else Inr (path_Join subResource))"

definition MakeQueryParam :: "body_model \<Rightarrow> (string \<times> string) list" where
  "MakeQueryParam m =
     foldl (\<lambda>r (_, opt, v). case opt of None \<Rightarrow> r | Some k \<Rightarrow> AList.update k v r) [] (ks_fields (GetKeyStruct m))"

subsection \<open>The API functions\<close>

text \<open>
  One constructor per API function of the package that changes the state of a loxilb
  instance, with the request it makes (\<open>api_request\<close>) and how it turns the response into its
  error (\<open>api_result\<close>). The delete functions for load balancers, firewall rules and certificates return an
  error only when the status code is not 200; all others return the response's error.
\<close>

datatype api_call =
    LbCreate LoadBalancerModel
  | LbDelete LoadBalancerModel
  | LbDeleteByName string
  | CIStatusCreate CIStatusModel
  | CreateGlobalConfig BGPGlobalConfig
  | CreateNeigh BGPNeigh
  | DeleteNeigh string int
  | FwCreate FwRuleMod
  | FwDelete FwRuleMod
  | CreateBGPPolicyApply BGPPolicyApply
  | DeleteBGPPolicyApply BGPPolicyApply
  | CreateBGPPolicyDefinedSets string BGPPolicyDefinedSets
  | DeleteBGPPolicyDefinedSets string string
  | CreateBGPPolicyDefinition BGPPolicyDefinition
  | DeleteBGPPolicyDefinition string
  | K8sMetaCreate K8sMetaModel
  | SniCertCreate SniCertModel
  | SniCertDelete SniCertModel

definition POST :: "string \<Rightarrow> LoxiRequest" where "POST = NewLoxiRequest ''POST''"
definition DELETE :: "string \<Rightarrow> LoxiRequest" where "DELETE = NewLoxiRequest ''DELETE''"
definition GET :: "string \<Rightarrow> LoxiRequest" where "GET = NewLoxiRequest ''GET''"

text \<open>
  The API objects: \<open>provider\<close>, \<open>version\<close> and the client are those of the REST client, so that an
  object is its resource and the keys of its deletions. Each method of an object is the request it
  makes.
\<close>

record api_object =
  api_resource :: string
  api_deleteKey :: "string list"

definition newLoadBalancerAPI :: api_object where [simp]:
  "newLoadBalancerAPI = \<lparr>api_resource = ''config/loadbalancer'', api_deleteKey = [''externalipaddress'', ''port'', ''protocol'']\<rparr>"

definition LoadBalancerAPI_Create :: "LoadBalancerModel \<Rightarrow> LoxiRequest" where [simp]:
  "LoadBalancerAPI_Create m = req_Body (BLb m) (POST (api_resource newLoadBalancerAPI))"

definition LoadBalancerAPI_Delete :: "LoadBalancerModel \<Rightarrow> error + LoxiRequest" where [simp]:
  "LoadBalancerAPI_Delete m =
     (case MakeDeletedSubResource (api_deleteKey newLoadBalancerAPI) (BLb m) of
        Inl e \<Rightarrow> Inl e
      | Inr sub \<Rightarrow>
          Inr (req_Body (BLb m) (req_Query (MakeQueryParam (BLb m))
                 (req_SubResource [sub] (DELETE (api_resource newLoadBalancerAPI))))))"

definition LoadBalancerAPI_DeleteByName :: "string \<Rightarrow> LoxiRequest" where [simp]:
  "LoadBalancerAPI_DeleteByName name =
     req_SubResource [name] (req_SubResource [''name''] (DELETE (api_resource newLoadBalancerAPI)))"

definition newCiStatusAPI :: api_object where [simp]:
  "newCiStatusAPI = \<lparr>api_resource = ''config/cistate'', api_deleteKey = []\<rparr>"

definition CiStatusAPI_Create :: "CIStatusModel \<Rightarrow> LoxiRequest" where [simp]:
  "CiStatusAPI_Create m = req_Body (BCi m) (POST (api_resource newCiStatusAPI))"

definition newBGPAPI :: api_object where [simp]:
  "newBGPAPI = \<lparr>api_resource = ''config/bgp'', api_deleteKey = []\<rparr>"

definition BGPAPI_CreateGlobalConfig :: "BGPGlobalConfig \<Rightarrow> LoxiRequest" where [simp]:
  "BGPAPI_CreateGlobalConfig m = req_Body (BGlobal m) (POST (api_resource newBGPAPI @ ''/global''))"

definition BGPAPI_CreateNeigh :: "BGPNeigh \<Rightarrow> LoxiRequest" where [simp]:
  "BGPAPI_CreateNeigh m = req_Body (BNeigh m) (POST (api_resource newBGPAPI @ ''/neigh''))"

definition BGPAPI_DeleteNeigh :: "string \<Rightarrow> int \<Rightarrow> LoxiRequest" where [simp]:
  "BGPAPI_DeleteNeigh neighIP remoteAs =
     req_Query [(''remoteAs'', dec_of_int remoteAs)] (DELETE (api_resource newBGPAPI @ ''/neigh/'' @ neighIP))"

definition newFirewallAPI :: api_object where [simp]:
  "newFirewallAPI = \<lparr>api_resource = ''config/firewall'', api_deleteKey = []\<rparr>"

definition FirewallAPI_Create :: "FwRuleMod \<Rightarrow> LoxiRequest" where [simp]:
  "FirewallAPI_Create m = req_Body (BFw m) (POST (api_resource newFirewallAPI))"

definition FirewallAPI_Delete :: "FwRuleMod \<Rightarrow> LoxiRequest" where [simp]:
  "FirewallAPI_Delete m = req_Query (MakeQueryParam (BFw m)) (DELETE (api_resource newFirewallAPI))"

definition newBGPPolicyApplyAPI :: api_object where [simp]:
  "newBGPPolicyApplyAPI = \<lparr>api_resource = ''config/bgp/policy/apply'', api_deleteKey = []\<rparr>"

definition BGPPolicyApplyAPI_Create :: "BGPPolicyApply \<Rightarrow> LoxiRequest" where [simp]:
  "BGPPolicyApplyAPI_Create m = req_Body (BApply m) (POST (api_resource newBGPPolicyApplyAPI))"

definition BGPPolicyApplyAPI_Delete :: "BGPPolicyApply \<Rightarrow> LoxiRequest" where [simp]:
  "BGPPolicyApplyAPI_Delete m = req_Body (BApply m) (DELETE (api_resource newBGPPolicyApplyAPI))"

definition newBGPPolicyDefinedSetsAPI :: api_object where [simp]:
  "newBGPPolicyDefinedSetsAPI = \<lparr>api_resource = ''config/bgp/policy/definedsets'', api_deleteKey = []\<rparr>"

definition BGPPolicyDefinedSetsAPI_Create :: "string \<Rightarrow> BGPPolicyDefinedSets \<Rightarrow> LoxiRequest" where [simp]:
  "BGPPolicyDefinedSetsAPI_Create ty m =
     req_Body (BDefinedSets m) (POST (api_resource newBGPPolicyDefinedSetsAPI @ ''/'' @ ty))"

definition BGPPolicyDefinedSetsAPI_Delete :: "string \<Rightarrow> string \<Rightarrow> LoxiRequest" where [simp]:
  "BGPPolicyDefinedSetsAPI_Delete ty name = DELETE (api_resource newBGPPolicyDefinedSetsAPI @ ''/'' @ ty @ ''/'' @ name)"

definition newBGPPolicyDefinition :: api_object where [simp]:
  "newBGPPolicyDefinition = \<lparr>api_resource = ''config/bgp/policy/definitions'', api_deleteKey = []\<rparr>"

definition BGPPolicyDefinitionAPI_Create :: "BGPPolicyDefinition \<Rightarrow> LoxiRequest" where [simp]:
  "BGPPolicyDefinitionAPI_Create m = req_Body (BDefinition m) (POST (api_resource newBGPPolicyDefinition))"

definition BGPPolicyDefinitionAPI_Delete :: "string \<Rightarrow> LoxiRequest" where [simp]:
  "BGPPolicyDefinitionAPI_Delete name = DELETE (api_resource newBGPPolicyDefinition @ ''/'' @ name)"

definition newK8sMetaAPI :: api_object where [simp]:
  "newK8sMetaAPI = \<lparr>api_resource = ''config/k8smeta'', api_deleteKey = [''name'', ''namespace'']\<rparr>"

definition K8sMetaAPI_Create :: "K8sMetaModel \<Rightarrow> LoxiRequest" where [simp]:
  "K8sMetaAPI_Create m = req_Body (BMeta m) (POST (api_resource newK8sMetaAPI))"

definition newSniCertAPI :: api_object where [simp]:
  "newSniCertAPI = \<lparr>api_resource = ''sni/certificates'', api_deleteKey = []\<rparr>"

definition SniCertAPI_Create :: "SniCertModel \<Rightarrow> LoxiRequest" where [simp]:
  "SniCertAPI_Create m = req_Body (BSni m) (POST (api_resource newSniCertAPI))"

definition SniCertAPI_Delete :: "SniCertModel \<Rightarrow> LoxiRequest" where [simp]:
  "SniCertAPI_Delete m = req_Body (BSni m) (DELETE (api_resource newSniCertAPI))"

definition newHealthCheckAPI :: api_object where [simp]:
  "newHealthCheckAPI = \<lparr>api_resource = [], api_deleteKey = []\<rparr>"

fun api_request :: "api_call \<Rightarrow> error + LoxiRequest" where
  "api_request (LbCreate m) = Inr (LoadBalancerAPI_Create m)"
| "api_request (LbDelete m) = LoadBalancerAPI_Delete m"
| "api_request (LbDeleteByName name) = Inr (LoadBalancerAPI_DeleteByName name)"
| "api_request (CIStatusCreate m) = Inr (CiStatusAPI_Create m)"
| "api_request (CreateGlobalConfig m) = Inr (BGPAPI_CreateGlobalConfig m)"
| "api_request (CreateNeigh m) = Inr (BGPAPI_CreateNeigh m)"
| "api_request (DeleteNeigh neighIP remoteAs) = Inr (BGPAPI_DeleteNeigh neighIP remoteAs)"
| "api_request (FwCreate m) = Inr (FirewallAPI_Create m)"
| "api_request (FwDelete m) = Inr (FirewallAPI_Delete m)"
| "api_request (CreateBGPPolicyApply m) = Inr (BGPPolicyApplyAPI_Create m)"
| "api_request (DeleteBGPPolicyApply m) = Inr (BGPPolicyApplyAPI_Delete m)"
| "api_request (CreateBGPPolicyDefinedSets ty m) = Inr (BGPPolicyDefinedSetsAPI_Create ty m)"
| "api_request (DeleteBGPPolicyDefinedSets ty name) = Inr (BGPPolicyDefinedSetsAPI_Delete ty name)"
| "api_request (CreateBGPPolicyDefinition m) = Inr (BGPPolicyDefinitionAPI_Create m)"
| "api_request (DeleteBGPPolicyDefinition name) = Inr (BGPPolicyDefinitionAPI_Delete name)"
| "api_request (K8sMetaCreate m) = Inr (K8sMetaAPI_Create m)"
| "api_request (SniCertCreate m) = Inr (SniCertAPI_Create m)"
| "api_request (SniCertDelete m) = Inr (SniCertAPI_Delete m)"

fun api_result :: "api_call \<Rightarrow> LoxiResponse \<Rightarrow> error option" where
  "api_result (LbDelete m) r = (if resp_statusCode r \<noteq> 200 then resp_err r else None)"
| "api_result (LbDeleteByName n) r = (if resp_statusCode r \<noteq> 200 then resp_err r else None)"
| "api_result (FwDelete m) r = (if resp_statusCode r \<noteq> 200 then resp_err r else None)"
| "api_result (SniCertDelete m) r = (if resp_statusCode r \<noteq> 200 then resp_err r else None)"
| "api_result _ r = resp_err r"

definition api_do ::
  "(http_msg \<Rightarrow> http_outcome) \<Rightarrow> (string \<Rightarrow> error + string) \<Rightarrow> (int \<Rightarrow> string) \<Rightarrow> RESTClient \<Rightarrow>
   string \<Rightarrow> api_call \<Rightarrow> error option" where
  "api_do send result status_text c token call =
     (case api_request call of
        Inl e \<Rightarrow> Some e
      | Inr l \<Rightarrow> api_result call (Do send result status_text c token l))"

definition LbList ::
  "(http_msg \<Rightarrow> http_outcome) \<Rightarrow> (string \<Rightarrow> error + string) \<Rightarrow> (int \<Rightarrow> string) \<Rightarrow>
   (string \<Rightarrow> error + LoadBalancerModel list) \<Rightarrow> RESTClient \<Rightarrow> string \<Rightarrow>
   LoadBalancerModel list \<times> error option" where
  "LbList send result status_text decode c token =
     (case UnMarshal decode
             (Do send result status_text c token (req_SubResource [''all''] (GET (api_resource newLoadBalancerAPI)))) []
      of (items, r) \<Rightarrow> (items, resp_err r))"

definition SniCertList ::
  "(http_msg \<Rightarrow> http_outcome) \<Rightarrow> (string \<Rightarrow> error + string) \<Rightarrow> (int \<Rightarrow> string) \<Rightarrow>
   (string \<Rightarrow> error + SniCertModel list) \<Rightarrow> RESTClient \<Rightarrow> string \<Rightarrow> SniCertModel list \<times> error option" where
  "SniCertList send result status_text decode c token =
     (case UnMarshal decode (Do send result status_text c token (GET (api_resource newSniCertAPI))) []
      of (items, r) \<Rightarrow> (items, resp_err r))"

text \<open>A single object by its name; it is decoded into the empty model \<open>zero\<close>.\<close>

definition LoadBalancerAPI_Get ::
  "(http_msg \<Rightarrow> http_outcome) \<Rightarrow> (string \<Rightarrow> error + string) \<Rightarrow> (int \<Rightarrow> string) \<Rightarrow>
   (string \<Rightarrow> error + LoadBalancerModel) \<Rightarrow> LoadBalancerModel \<Rightarrow> RESTClient \<Rightarrow> string \<Rightarrow> string \<Rightarrow>
   LoadBalancerModel \<times> error option" where
  "LoadBalancerAPI_Get send result status_text decode zero c token name =
     (case UnMarshal decode
             (Do send result status_text c token (req_SubResource [name] (GET (api_resource newLoadBalancerAPI)))) zero
      of (item, r) \<Rightarrow> (item, resp_err r))"

definition FirewallAPI_Get ::
  "(http_msg \<Rightarrow> http_outcome) \<Rightarrow> (string \<Rightarrow> error + string) \<Rightarrow> (int \<Rightarrow> string) \<Rightarrow>
   (string \<Rightarrow> error + FwRuleMod) \<Rightarrow> FwRuleMod \<Rightarrow> RESTClient \<Rightarrow> string \<Rightarrow> string \<Rightarrow> error option" where
  "FirewallAPI_Get send result status_text decode zero c token name =
     resp_err (snd (UnMarshal decode
       (Do send result status_text c token (req_SubResource [name] (GET (api_resource newFirewallAPI)))) zero))"

text \<open>The health check: the provider's path with the name; only the error matters.\<close>

definition HealthCheck_Get ::
  "(http_msg \<Rightarrow> http_outcome) \<Rightarrow> (string \<Rightarrow> error + string) \<Rightarrow> (int \<Rightarrow> string) \<Rightarrow> RESTClient \<Rightarrow> string \<Rightarrow>
   string \<Rightarrow> error option" where
  "HealthCheck_Get send result status_text c token name =
     resp_err (Do send result status_text c token (req_SubResource [name] (GET (api_resource newHealthCheckAPI))))"

subsection \<open>Access tokens: \<open>tokens.go\<close>\<close>

text \<open>Times are in nanoseconds, as in package \<open>time\<close>.\<close>

record HostToken =
  AccessToken :: string
  ExpiresAt :: int

record TokenManager =
  Tokens :: "(string \<times> HostToken) list"
  tokenEndpoint :: string

definition sanitizeHostEnv :: "string \<Rightarrow> string" where
  "sanitizeHostEnv host = map (\<lambda>c. if c = CHR ''.'' \<or> c = CHR '':'' then CHR ''_'' else c) host"

definition LoadTokenForHost ::
  "(string \<Rightarrow> string) \<Rightarrow> int \<Rightarrow> string \<Rightarrow> TokenManager \<Rightarrow> TokenManager" where
  "LoadTokenForHost getenv now host tm =
     (let accessToken = getenv (''ACCESS_TOKEN_'' @ sanitizeHostEnv host);
          expiryStr = getenv (''EXPIRY_TIME_SECONDS_'' @ sanitizeHostEnv host);
          prov = getenv ''LOXI_OAUTH_PROVIDER'';
          prov = (if prov \<noteq> [] then ''google'' else prov);
          tm = tm\<lparr>tokenEndpoint := ''netlox/v1/oauth/'' @ prov @ ''/token''\<rparr>;
          expiryTime = (if expiryStr \<noteq> [] then
                          (case Atoi (trim_space expiryStr) of Some n \<Rightarrow> n | None \<Rightarrow> 3600) else 3600)
      in if has_key (Tokens tm) host then tm
         else tm\<lparr>Tokens := AList.update host
                    \<lparr>AccessToken = accessToken, ExpiresAt = now + expiryTime * 10 ^ 9\<rparr> (Tokens tm)\<rparr>)"

text \<open>
  What the token endpoint answers: no request could be made or sent, a status other than 200
  with its body, a body that does not decode, or a token with its lifetime in seconds.
\<close>

datatype token_reply = TokNoRequest error | TokNoReply error | TokStatus string | TokNoJson error | Tok string int

definition refreshTokenForHost ::
  "(string \<Rightarrow> string) \<Rightarrow> int \<Rightarrow> (string \<Rightarrow> token_reply) \<Rightarrow> RESTClient \<Rightarrow> TokenManager \<Rightarrow>
   TokenManager \<times> string \<times> error option" where
  "refreshTokenForHost getenv now ask rc tm =
     (let host = rest_Host rc;
          refreshToken = getenv (''REFRESH_TOKEN_'' @ sanitizeHostEnv host) in
      if refreshToken = [] then (tm, [], Some (''missing refresh token for host '' @ host))
      else
        (let currentToken = (case map_of (Tokens tm) host of None \<Rightarrow> [] | Some t \<Rightarrow> AccessToken t);
             url = rest_Scheme rc @ ''://'' @ host @ ''/'' @ tokenEndpoint tm @ ''?token='' @ currentToken
                   @ ''&refreshtoken='' @ refreshToken
         in case ask url of
              TokNoRequest e \<Rightarrow> (tm, [], Some (''failed to create token request: '' @ e))
            | TokNoReply e \<Rightarrow> (tm, [], Some (''failed to send token request: '' @ e))
            | TokStatus b \<Rightarrow> (tm, [], Some (''failed to refresh token for host '' @ host @ '': '' @ b))
            | TokNoJson e \<Rightarrow> (tm, [], Some (''failed to parse token response: '' @ e))
            | Tok t secs \<Rightarrow>
                (tm\<lparr>Tokens := AList.update host \<lparr>AccessToken = t, ExpiresAt = now + secs * 10 ^ 9\<rparr> (Tokens tm)\<rparr>,
                 t, None)))"

definition GetAccessToken ::
  "(string \<Rightarrow> string) \<Rightarrow> int \<Rightarrow> (string \<Rightarrow> token_reply) \<Rightarrow> RESTClient \<Rightarrow> TokenManager \<Rightarrow>
   TokenManager \<times> string \<times> error option" where
  "GetAccessToken getenv now ask rc tm =
     (case map_of (Tokens tm) (rest_Host rc) of
        None \<Rightarrow> (tm, [], Some (''no token found for host '' @ rest_Host rc))
      | Some t \<Rightarrow>
          if now < ExpiresAt t - 5 * 60 * 10 ^ 9 then (tm, AccessToken t, None)
          else refreshTokenForHost getenv now ask rc tm)"

subsection \<open>Clients: \<open>client.go\<close>\<close>

record LoxiClient =
  cl_RestClient :: RESTClient
  InstRoles :: "(string \<times> bool) list"
  PeeringOnly :: bool
  cl_Url :: string
  Host :: string
  cl_Port :: string
  IsAlive :: bool
  DeadSigTs :: int
  DoBGPCfg :: bool
  Purge :: bool
  NoRole :: bool
  cl_Name :: string

text \<open>The scheme after \<open>CreateHTTPClient\<close>: without system certificates, https becomes http.\<close>

definition CreateHTTPClient :: "bool \<Rightarrow> string \<Rightarrow> string" where
  "CreateHTTPClient certs scheme = (if scheme = ''https'' \<and> \<not> certs then ''http'' else scheme)"

definition bracket_host :: "'a loxilib \<Rightarrow> string \<Rightarrow> string" where
  "bracket_host tk h =
     (let hostPort = split_on CHR '':'' h in
      if 1 < length hostPort then
        (let host = join_on '':'' (butlast hostPort);
             host = (if IsNetIPv6 tk host then ''['' @ host @ '']'' else host)
         in host @ '':'' @ last hostPort)
      else h)"

text \<open>
  \<open>NewLoxiClient\<close>. \<open>url_Parse\<close> gives the scheme and the host part of a URL or an error. The
  client starts as not alive; its health check runs as the sequence of \<open>health_tick\<close>s below.
\<close>

definition NewLoxiClient ::
  "'a loxilib \<Rightarrow> (string \<Rightarrow> error + string \<times> string) \<Rightarrow> bool \<Rightarrow> int \<Rightarrow> string \<Rightarrow> bool \<Rightarrow> bool \<Rightarrow> string \<Rightarrow>
   string \<Rightarrow> int \<Rightarrow> error + LoxiClient" where
  "NewLoxiClient tk url_Parse certs now apiServer peerOnly noRole name zone numZoneInst =
     (case url_Parse apiServer of
        Inl e \<Rightarrow> Inl e
      | Inr (scheme, host0) \<Rightarrow>
          (let rest = \<lparr>rest_Scheme = CreateHTTPClient certs scheme, rest_Host = host0,
                       provider = ''netlox'', version = ''v1''\<rparr> in
           case SplitHostPort (bracket_host tk host0) of
             Inl e \<Rightarrow> Inl e
           | Inr (host, port) \<Rightarrow>
               Inr \<lparr>cl_RestClient = rest,
                    InstRoles = fold (\<lambda>i. AList.update (GenZoneInstName zone (int i)) False) [0..<nat numZoneInst] [],
                    PeeringOnly = peerOnly, cl_Url = apiServer, Host = host, cl_Port = port,
                    IsAlive = False, DeadSigTs = now, DoBGPCfg = False, Purge = False,
                    NoRole = noRole, cl_Name = (if name = [] then host else name)\<rparr>))"

definition LoxiClientHasMaterInst :: "LoxiClient \<Rightarrow> bool" where
  "LoxiClientHasMaterInst l = list_ex snd (InstRoles l)"

datatype health_signal = AliveSignal | DeadSignal

text \<open>One round of \<open>StartLoxiHealthCheckChan\<close>: what the check found and what is sent.\<close>

definition health_tick :: "int \<Rightarrow> error option \<Rightarrow> LoxiClient \<Rightarrow> LoxiClient \<times> health_signal list" where
  "health_tick now err l =
     (if err \<noteq> None then
        if IsAlive l then
          (l\<lparr>IsAlive := False, DeadSigTs := now\<rparr>,
           if 3 \<le> (now - DeadSigTs l) div 10 ^ 9 \<and> LoxiClientHasMaterInst l then [DeadSignal] else [])
        else (l, [])
      else if \<not> IsAlive l then (l\<lparr>IsAlive := True\<rparr>, [AliveSignal])
      else (l, []))"

definition AddLoxiClient :: "LoxiClient \<Rightarrow> LoxiClient list \<Rightarrow> LoxiClient list" where
  "AddLoxiClient c pool = pool @ [c]"

subsection \<open>When a call succeeds\<close>

text \<open>The calls whose error depends on the status code only.\<close>

definition status_judged :: "api_call \<Rightarrow> bool" where
  "status_judged call =
     (case call of LbDelete _ \<Rightarrow> True | LbDeleteByName _ \<Rightarrow> True | FwDelete _ \<Rightarrow> True | SniCertDelete _ \<Rightarrow> True
      | _ \<Rightarrow> False)"

lemma api_request_shape:
  "api_request call = Inr l \<Longrightarrow> rq_err l = None \<and> rq_method l \<noteq> ''GET''"
  by (cases call)
    (auto simp: NewLoxiRequest_def POST_def DELETE_def req_Body_def req_Query_def req_SubResource_def
      split: sum.splits)

lemma api_result_cases:
  "api_result call r = (if status_judged call \<and> resp_statusCode r = 200 then None else resp_err r)"
  by (cases call) (auto simp: status_judged_def)

text \<open>
  C35. When an API call reports success. A call that creates something, and a BGP deletion,
  returns no error exactly when the answer has status 200 and its result is \<open>Success\<close>. The
  deletions of load balancers, firewall rules and certificates return no error whenever the status is
  200, even if the body says that the operation failed or could not be read.
\<close>

theorem api_success_iff:
  "api_do send result status_text c token call = None \<longleftrightarrow>
   (\<exists>l. api_request call = Inr l \<and>
        (case send (req_message c l token) of
           NoRequest e \<Rightarrow> False
         | NoReply code e \<Rightarrow> status_judged call \<and> code = Some 200
         | NoBody code e \<Rightarrow> status_judged call \<and> code = 200
         | Reply code body ctype \<Rightarrow> code = 200 \<and> (status_judged call \<or> result body = Inr ''Success'')))"
  using api_request_shape[of call]
  by (auto simp: api_do_def Do_def Let_def api_result_cases split: sum.splits http_outcome.splits option.splits if_splits)

lemma lb_delete_sub:
  "MakeDeletedSubResource [''externalipaddress'', ''port'', ''protocol''] (BLb m) =
   Inr (path_Join [''externalipaddress'', svc_ExternalIP (lb_Service m), ''port'',
     dec_of_nat (unat (svc_Port (lb_Service m))), ''protocol'', svc_Protocol (lb_Service m)])"
  by (simp add: MakeDeletedSubResource_def GetKeyStruct_def LoadBalancerService_fields_def Let_def)

text \<open>
  Deleting a load-balancer rule addresses the rule by its external address, port and
  protocol, taken from the struct tags of the model, under the versioned resource path, and
  passes the BGP and block flags as query parameters.
\<close>

theorem lb_delete_addresses_rule:
  assumes "plain_seg (svc_ExternalIP (lb_Service m))" and "plain_seg (svc_Protocol (lb_Service m))"
    and "provider c = ''netlox''" and "version c = ''v1''"
  shows "\<exists>l. api_request (LbDelete m) = Inr l \<and> rq_method l = ''DELETE'' \<and>
    getPath c l = ''netlox/v1/config/loadbalancer/externalipaddress/'' @ svc_ExternalIP (lb_Service m) @
      ''/port/'' @ dec_of_nat (unat (svc_Port (lb_Service m))) @ ''/protocol/'' @ svc_Protocol (lb_Service m) \<and>
    map_of (rq_queryArgs l) ''bgp'' = Some (fmt_bool (svc_BGP (lb_Service m))) \<and>
    map_of (rq_queryArgs l) ''block'' = Some (dec_of_nat (unat (svc_Block (lb_Service m))))"
proof -
  let ?s = "lb_Service m"
  let ?sub = "[''externalipaddress'', svc_ExternalIP ?s, ''port'', dec_of_nat (unat (svc_Port ?s)), ''protocol'', svc_Protocol ?s]"
  have plain: "\<forall>x\<in>set ?sub. plain_seg x"
    using assms(1,2) plain_dec by (simp add: plain_seg_def)
  have base: "path_Join [''netlox'', ''v1''] = ''netlox/v1''"
    "path_Join [''netlox/v1'', to_lower ''config/loadbalancer''] = ''netlox/v1/config/loadbalancer''"
    by code_simp+
  have segs: "\<forall>x\<in>set [''netlox'', ''v1'', ''config'', ''loadbalancer'']. plain_seg x"
    by (simp add: plain_seg_def)
  have p: "path_Join [''netlox/v1/config/loadbalancer'', path_Join ?sub] =
      join_on ''/'' ([''netlox'', ''v1'', ''config'', ''loadbalancer''] @ ?sub)"
    using path_Join_plain_lists[OF segs _ plain] by (simp add: path_Join_plain_list[OF plain])
  have one: "path_Join [path_Join ?sub] = path_Join ?sub"
    using path_Clean_plain[OF plain] by (simp add: path_Join_plain_list[OF plain]) (simp add: path_Join_def plain_join_ne)
  show ?thesis
    using assms(3,4)
    by (simp add: lb_delete_sub req_Body_def req_Query_def req_SubResource_def DELETE_def NewLoxiRequest_def
        getPath_def Let_def base one p MakeQueryParam_def GetKeyStruct_def LoadBalancerService_fields_def)
qed


definition zero_service :: LoadBalancerService where
  "zero_service = \<lparr>svc_ExternalIP = [], svc_PrivateIP = [], svc_Port = 0, svc_Protocol = [], svc_Sel = 0,
     svc_Mode = 0, svc_BGP = False, svc_Monitor = False, svc_Timeout = 0, svc_Block = 0,
     svc_Managed = False, svc_ProbeType = [], svc_ProbePort = 0, svc_ProbeReq = [], svc_ProbeResp = [],
     svc_ProbeRetries = 0, svc_ProbeTimeout = 0, svc_Security = 0, svc_Name = [], svc_Oper = 0,
     svc_Host = [], svc_PpV2 = False, svc_Egress = False, svc_Snat = False, svc_PathPrefix = [],
     svc_BackendProtocol = [], svc_PathMatchMode = [], svc_MtlsFrontend = None, svc_MtlsBackend = None\<rparr>"

definition demo_lb :: LoadBalancerModel where
  "demo_lb = \<lparr>lb_Service = zero_service\<lparr>svc_ExternalIP := ''10.0.0.1'', svc_Port := 80, svc_Protocol := ''tcp''\<rparr>,
     lb_SecondaryIPs = [], lb_SrcIPs = [], lb_Endpoints = []\<rparr>"

definition demo_rest :: RESTClient where
  "demo_rest = \<lparr>rest_Scheme = ''http'', rest_Host = ''12.12.12.1:11111'', provider = ''netlox'', version = ''v1''\<rparr>"

theorem lb_delete_addresses_rule_witness:
  "\<exists>l. api_request (LbDelete demo_lb) = Inr l \<and>
     getPath demo_rest l = ''netlox/v1/config/loadbalancer/externalipaddress/10.0.0.1/port/80/protocol/tcp''"
proof -
  have d: "dec_of_nat 80 = ''80''" by code_simp
  show ?thesis
    using lb_delete_addresses_rule[of demo_lb demo_rest]
    by (auto simp: demo_lb_def zero_service_def demo_rest_def plain_seg_def d)
qed

subsection \<open>Tokens\<close>

text \<open>
  Reading an access token touches no other host's token. When it succeeds, the token that is
  returned is the one stored for the host, refreshed if the old one was about to expire; when it
  fails, the stored tokens are unchanged and no token is returned.
\<close>

theorem access_token_state:
  assumes "GetAccessToken getenv now ask rc tm = (tm', tok, err)"
  shows "(\<forall>h. h \<noteq> rest_Host rc \<longrightarrow> map_of (Tokens tm') h = map_of (Tokens tm) h) \<and>
    tokenEndpoint tm' = tokenEndpoint tm \<and>
    (if err = None then \<exists>t. map_of (Tokens tm') (rest_Host rc) = Some t \<and> AccessToken t = tok
     else tm' = tm \<and> tok = [])"
  using assms
  by (auto simp: GetAccessToken_def refreshTokenForHost_def Let_def update_conv'
      split: option.splits if_splits token_reply.splits)

definition demo_tokens :: TokenManager where
  "demo_tokens = \<lparr>Tokens = [(''12.12.12.1:11111'', \<lparr>AccessToken = ''old'', ExpiresAt = 0\<rparr>)], tokenEndpoint = ''netlox/v1/oauth/google/token''\<rparr>"

theorem access_token_state_witness:
  "\<exists>t. map_of (Tokens (fst (GetAccessToken (\<lambda>_. ''r'') 5 (\<lambda>_. Tok ''new'' 60) demo_rest demo_tokens))) ''12.12.12.1:11111'' =
       Some t \<and> AccessToken t = ''new''"
proof -
  obtain tm' where "GetAccessToken (\<lambda>_. ''r'') 5 (\<lambda>_. Tok ''new'' 60) demo_rest demo_tokens = (tm', ''new'', None)"
    by (simp add: GetAccessToken_def refreshTokenForHost_def demo_rest_def demo_tokens_def Let_def)
  then show ?thesis
    using access_token_state[of "\<lambda>_. ''r''" 5 "\<lambda>_. Tok ''new'' 60" demo_rest demo_tokens tm' "''new''" None]
    by (simp add: demo_rest_def)
qed

text \<open>
  The token endpoint: with no provider configured the provider part of the path is empty, and
  with any provider configured it is \<open>google\<close>.
\<close>

theorem token_provider_inverted:
  "tokenEndpoint (LoadTokenForHost getenv now host tm) =
     (if getenv ''LOXI_OAUTH_PROVIDER'' = [] then ''netlox/v1/oauth//token'' else ''netlox/v1/oauth/google/token'')"
  by (simp add: LoadTokenForHost_def Let_def)

subsection \<open>Health checks\<close>

text \<open>
  A run of health checks: the time of each check, its error and the roles the client has at
  that time, which other components change. The result is what is sent, with the times.
\<close>

fun health_run ::
  "(int \<times> error option \<times> (string \<times> bool) list) list \<Rightarrow> LoxiClient \<Rightarrow> (int \<times> health_signal) list" where
  "health_run [] l = []"
| "health_run ((now, err, roles) # evs) l =
     (case health_tick now err (l\<lparr>InstRoles := roles\<rparr>) of
        (l', sigs) \<Rightarrow> map (\<lambda>s. (now, s)) sigs @ health_run evs l')"

definition dead_times :: "(int \<times> health_signal) list \<Rightarrow> int list" where
  "dead_times sigs = map fst (filter (\<lambda>(_, s). s = DeadSignal) sigs)"

lemma dead_times_append [simp]: "dead_times (a @ b) = dead_times a @ dead_times b"
  by (simp add: dead_times_def)

lemma dead_times_tick:
  "health_tick now err l = (l', sigs) \<Longrightarrow>
   dead_times (map (\<lambda>s. (now, s)) sigs) \<noteq> [] \<Longrightarrow> DeadSigTs l + 3 * 10 ^ 9 \<le> now \<and> DeadSigTs l' = now"
  by (auto simp: health_tick_def dead_times_def split: if_splits)

lemma dead_times_tick_le:
  "health_tick now err l = (l', sigs) \<Longrightarrow> dead_times (map (\<lambda>s. (now, s)) sigs) = [] \<or> dead_times (map (\<lambda>s. (now, s)) sigs) = [now]"
  by (auto simp: health_tick_def dead_times_def split: if_splits)

lemma tick_ts: "health_tick now err l = (l', sigs) \<Longrightarrow> DeadSigTs l \<le> now \<Longrightarrow> DeadSigTs l \<le> DeadSigTs l' \<and> DeadSigTs l' \<le> now"
  by (auto simp: health_tick_def split: if_splits)

lemma dead_times_after:
  "sorted (map fst evs) \<Longrightarrow> \<forall>e\<in>set evs. DeadSigTs l \<le> fst e \<Longrightarrow> t \<in> set (dead_times (health_run evs l)) \<Longrightarrow>
   DeadSigTs l + 3 * 10 ^ 9 \<le> t"
proof (induction evs l rule: health_run.induct)
  case (2 now err roles evs l)
  obtain l' sigs where tick: "health_tick now err (l\<lparr>InstRoles := roles\<rparr>) = (l', sigs)" by fastforce
  have ts: "DeadSigTs l \<le> DeadSigTs l'" "DeadSigTs l' \<le> now" using tick_ts[OF tick] 2 by auto
  then have later: "\<forall>e\<in>set evs. DeadSigTs l' \<le> fst e" using 2 by auto
  consider "t \<in> set (dead_times (map (\<lambda>s. (now, s)) sigs))" | "t \<in> set (dead_times (health_run evs l'))"
    using 2 tick by auto
  then show ?case
  proof cases
    case 1
    then have "t = now" using dead_times_tick_le[OF tick] by auto
    then show ?thesis using dead_times_tick[OF tick] 1 by force
  next
    case c2: 2
    then have "DeadSigTs l' + 3 * 10 ^ 9 \<le> t" using 2 tick later by auto
    then show ?thesis using ts by simp
  qed
qed (simp add: dead_times_def)

text \<open>
  Reports of a dead master are rate limited: in any run of health checks with increasing
  times, whatever the roles of the instance in between, two reports are at least three
  seconds apart.
\<close>

theorem dead_signals_spaced:
  assumes "sorted (map fst evs)" and "\<forall>e\<in>set evs. DeadSigTs l \<le> fst e"
  shows "sorted_wrt (\<lambda>t t'. t + 3 * 10 ^ 9 \<le> t') (dead_times (health_run evs l))"
  using assms
proof (induction evs l rule: health_run.induct)
  case (2 now err roles evs l)
  obtain l' sigs where tick: "health_tick now err (l\<lparr>InstRoles := roles\<rparr>) = (l', sigs)" by fastforce
  have ts: "DeadSigTs l' \<le> now" using tick_ts[OF tick] 2 by auto
  then have later: "\<forall>e\<in>set evs. DeadSigTs l' \<le> fst e" using 2 by auto
  have ih: "sorted_wrt (\<lambda>t t'. t + 3 * 10 ^ 9 \<le> t') (dead_times (health_run evs l'))"
    using 2 tick later by auto
  show ?case
  proof (cases "dead_times (map (\<lambda>s. (now, s)) sigs) = []")
    case True
    with tick ih show ?thesis by simp
  next
    case False
    then have now: "dead_times (map (\<lambda>s. (now, s)) sigs) = [now]" "DeadSigTs l' = now"
      using dead_times_tick_le[OF tick] dead_times_tick[OF tick] by auto
    then have "\<forall>t\<in>set (dead_times (health_run evs l')). now + 3 * 10 ^ 9 \<le> t"
      using dead_times_after[of evs l'] later 2 by auto
    with tick ih now show ?thesis by simp
  qed
qed (simp add: dead_times_def)

definition demo_client :: LoxiClient where
  "demo_client = \<lparr>cl_RestClient = demo_rest, InstRoles = [(''llb-inst0'', True)], PeeringOnly = False,
     cl_Url = ''http://12.12.12.1:11111'', Host = ''12.12.12.1'', cl_Port = ''11111'', IsAlive = True,
     DeadSigTs = 0, DoBGPCfg = False, Purge = False, NoRole = False, cl_Name = ''12.12.12.1''\<rparr>"

definition demo_checks :: "(int \<times> error option \<times> (string \<times> bool) list) list" where
  "demo_checks = [(4000000000, Some ''e'', [(''llb-inst0'', True)]), (5000000000, None, [(''llb-inst0'', True)]),
                  (8000000000, Some ''e'', [(''llb-inst0'', True)])]"

theorem dead_signals_spaced_witness:
  "dead_times (health_run demo_checks demo_client) = [4000000000, 8000000000] \<and>
   sorted_wrt (\<lambda>t t'. t + 3 * 10 ^ 9 \<le> t') (dead_times (health_run demo_checks demo_client))"
proof
  show "dead_times (health_run demo_checks demo_client) = [4000000000, 8000000000]"
    by (simp add: demo_checks_def demo_client_def health_tick_def LoxiClientHasMaterInst_def dead_times_def)
  show "sorted_wrt (\<lambda>t t'. t + 3 * 10 ^ 9 \<le> t') (dead_times (health_run demo_checks demo_client))"
    by (rule dead_signals_spaced) (simp_all add: demo_checks_def demo_client_def)
qed

end
