(* ===== verification/K8s_Model.thy ===== *)
theory K8s_Model
  imports Api_Client
begin

text \<open>
  What the managers read of Kubernetes objects, and package \<open>k8s\<close>: how the endpoints of a
  service are gathered from pods, nodes and endpoint slices (\<open>node.go\<close>, \<open>servicePort.go\<close>,
  \<open>multus.go\<close>, \<open>env.go\<close>), together with the node address selection of \<open>loadbalancer.go\<close>.

  The API server and the listers are the parameter record \<open>kube\<close>: each field is one query
  with its error. The order in which Go ranges over a map that a function has built is the
  field \<open>map_order\<close>; it may be any permutation (\<open>order_ok\<close>).
\<close>

subsection \<open>Objects\<close>

record IntOrString =
  int_value :: int
  int_string :: string

record ServicePort =
  sp_Name :: string
  sp_Protocol :: string
  sp_Port :: int
  sp_TargetPort :: IntOrString
  sp_NodePort :: int

record Ingress =
  ing_IP :: string
  ing_Hostname :: string

record Service =
  sv_Namespace :: string
  sv_Name :: string
  sv_Annotations :: "(string \<times> string) list"
  sv_Type :: string
  sv_Selector :: "(string \<times> string) list"
  sv_Ports :: "ServicePort list"
  sv_LoadBalancerClass :: "string option"
  sv_ExternalIPs :: "string list"
  sv_ExternalTrafficPolicy :: string
  sv_SourceRanges :: "string list"
  sv_Ingress :: "Ingress list"

record Pod =
  pod_Name :: string
  pod_Namespace :: string
  pod_Annotations :: "(string \<times> string) list"
  pod_HostNetwork :: bool
  pod_HostIP :: string
  pod_HostIPs :: "string list"
  pod_PodIP :: string
  pod_PodIPs :: "string list"
  pod_Ports :: "(string \<times> int) list list"

record Node =
  node_Name :: string
  node_Conditions :: "(string \<times> string) list"
  node_Addresses :: "(string \<times> string) list"

record Endpoint =
  ep_Ready :: "bool option"
  ep_Addresses :: "string list"

record EndpointSlice =
  es_Ports :: "int option list"
  es_Endpoints :: "Endpoint list"

text \<open>An \<open>Endpoints\<close> object: its subsets, each with addresses and ports.\<close>

type_synonym Endpoints = "(string list \<times> int list) list"

record networkList =
  nl_Name :: string
  nl_Namespace :: string

record networkStatus =
  ns_Name :: string
  ns_Iface :: string
  ns_Ips :: "string list"
  ns_Mac :: string
  ns_Dflt :: bool

datatype node_req = LabelExists string | LabelIn string string | LabelAbsent string

record kube =
  list_pods :: "string \<Rightarrow> string \<Rightarrow> error + Pod list"
  get_endpoints :: "string \<Rightarrow> string \<Rightarrow> error + Endpoints"
  list_namespaces :: "error + string list"
  list_slices :: "string \<Rightarrow> string \<Rightarrow> error + EndpointSlice list"
  list_all_slices :: "string \<Rightarrow> error + EndpointSlice list"
  list_nodes :: "node_req \<Rightarrow> error + Node list"
  get_service :: "string \<Rightarrow> string \<Rightarrow> error + Service"
  list_services :: "string \<Rightarrow> error + Service list"
  get_secret :: "string \<Rightarrow> string \<Rightarrow> error + (string \<times> string) list"
  update_status :: "Service \<Rightarrow> error option"
  is_conflict :: "error option \<Rightarrow> bool"
  labels_String :: "(string \<times> string) list \<Rightarrow> string"
  json_networks :: "string \<Rightarrow> error + networkList list"
  json_status :: "string \<Rightarrow> error + networkStatus list"
  map_order :: "string list \<Rightarrow> string list"
  int_order :: "int list \<Rightarrow> int list"

subsection \<open>\<open>env.go\<close> and \<open>node.go\<close>\<close>

definition GetNodeName :: "(string \<Rightarrow> string) \<Rightarrow> (error + string) \<Rightarrow> error + string" where
  "GetNodeName getenv hostname =
     (let nodeName = getenv ''NODE_NAME'' in if nodeName \<noteq> [] then Inr nodeName else hostname)"

definition AddrInFamily :: "'a loxilib \<Rightarrow> string \<Rightarrow> string \<Rightarrow> bool" where
  "AddrInFamily tk addrType addr =
     ((addrType = ''ipv4'' \<or> addrType = ''ipv6to4'') \<and> IsNetIPv4 tk addr \<or>
      addrType = ''ipv6'' \<and> IsNetIPv6 tk addr)"

definition GetNodeAddr :: "Node \<Rightarrow> error + IP" where
  "GetNodeAddr node =
     (let addresses = fold (\<lambda>(ty, a). AList.update ty a) (node_Addresses node) [];
          parse = (\<lambda>s. if ParseIP s = [] then Inl (''<'' @ s @ ''> is not a valid ip address'') else Inr (ParseIP s))
      in case map_of addresses ''InternalIP'' of
           Some internalIP \<Rightarrow> parse internalIP
         | None \<Rightarrow>
             (case map_of addresses ''ExternalIP'' of
                Some externalIP \<Rightarrow> parse externalIP
              | None \<Rightarrow> Inl (''node '' @ node_Name node @ '' has neither external ip nor internal ip'')))"

definition MatchNodeinNodeList :: "string \<Rightarrow> string list \<Rightarrow> bool" where
  "MatchNodeinNodeList node nodeMatchList = list_ex (\<lambda>n. n = node) nodeMatchList"

text \<open>
  The address taken for a pod: the given one, or, when an IPv6 address is wanted and the
  given one is not, the first IPv6 address of the list; \<open>None\<close> skips the pod.
\<close>

definition family_pick :: "'a loxilib \<Rightarrow> string \<Rightarrow> string \<Rightarrow> string list \<Rightarrow> string option" where
  "family_pick tk addrType ip ips =
     (if addrType = ''ipv6'' \<and> \<not> IsNetIPv6 tk ip then find (IsNetIPv6 tk) ips else Some ip)"

definition local_step :: "'a loxilib \<Rightarrow> string \<Rightarrow> string list \<Rightarrow> Pod \<Rightarrow> string list \<Rightarrow> string list" where
  "local_step tk addrType nodeMatchList pod epList =
     (if pod_HostIP pod \<noteq> [] then
        (case family_pick tk addrType (pod_HostIP pod) (pod_HostIPs pod) of
           None \<Rightarrow> epList
         | Some hostIP \<Rightarrow>
             if nodeMatchList \<noteq> [] \<and> \<not> MatchNodeinNodeList hostIP nodeMatchList then epList
             else if hostIP \<notin> set epList then epList @ [hostIP] else epList)
      else epList)"

definition GetServiceLocalEndpoints ::
  "'a loxilib \<Rightarrow> kube \<Rightarrow> Service \<Rightarrow> string \<Rightarrow> string list \<Rightarrow> string list \<times> error option" where
  "GetServiceLocalEndpoints tk k svc addrType nodeMatchList =
     (case list_pods k (sv_Namespace svc) (labels_String k (sv_Selector svc)) of
        Inl e \<Rightarrow> ([], Some e)
      | Inr pods \<Rightarrow>
          (let epList = fold (local_step tk addrType nodeMatchList) pods []
           in if epList = [] then (epList, Some ''no active endpoints'') else (epList, None)))"

definition pod_step :: "'a loxilib \<Rightarrow> string \<Rightarrow> string list \<Rightarrow> Pod \<Rightarrow> string list \<Rightarrow> string list" where
  "pod_step tk addrType nodeMatchList pod epList =
     (if pod_PodIP pod \<noteq> [] then
        (case family_pick tk addrType (pod_PodIP pod) (pod_PodIPs pod) of
           None \<Rightarrow> epList
         | Some podIP \<Rightarrow>
             if nodeMatchList \<noteq> [] \<and> \<not> MatchNodeinNodeList (pod_HostIP pod) nodeMatchList then epList
             else if podIP \<notin> set epList then epList @ [podIP] else epList)
      else epList)"

definition GetServicePodEndpoints ::
  "'a loxilib \<Rightarrow> kube \<Rightarrow> Service \<Rightarrow> string \<Rightarrow> string list \<Rightarrow> string list \<times> error option" where
  "GetServicePodEndpoints tk k svc addrType nodeMatchList =
     (case list_pods k (sv_Namespace svc) (labels_String k (sv_Selector svc)) of
        Inl e \<Rightarrow> ([], Some e)
      | Inr pods \<Rightarrow>
          (let epList = fold (pod_step tk addrType nodeMatchList) pods []
           in if epList = [] then (epList, Some ''no active pod endpoints'') else (epList, None)))"

subsection \<open>\<open>servicePort.go\<close>\<close>

definition GetServicePortIntValue :: "kube \<Rightarrow> Service \<Rightarrow> ServicePort \<Rightarrow> error + int list" where
  "GetServicePortIntValue k svc port =
     (if int_value (sp_TargetPort port) \<noteq> 0 then Inr [int_value (sp_TargetPort port)]
      else
        (case list_pods k (sv_Namespace svc) (labels_String k (sv_Selector svc)) of
           Inl e \<Rightarrow> Inl e
         | Inr pods \<Rightarrow>
             (case find (\<lambda>p. fst p = int_string (sp_TargetPort port)) (concat (concat (map pod_Ports pods))) of
                Some (_, containerPort) \<Rightarrow> Inr [containerPort]
              | None \<Rightarrow> Inl (''not found port name '' @ int_string (sp_TargetPort port) @ '' in service '' @ sv_Name svc))))"

definition GetServiceEndPointsPorts :: "kube \<Rightarrow> Service \<Rightarrow> error + int list" where
  "GetServiceEndPointsPorts k svc =
     (case get_endpoints k (sv_Namespace svc) (sv_Name svc) of
        Inl e \<Rightarrow> Inl e
      | Inr eps \<Rightarrow> Inr (concat (map snd eps)))"

definition family_ok :: "'a loxilib \<Rightarrow> string \<Rightarrow> string \<Rightarrow> bool" where
  "family_ok tk addrType addr = (if addrType = ''ipv6'' then IsNetIPv6 tk addr else IsNetIPv4 tk addr)"

definition GetServiceEndPoints ::
  "'a loxilib \<Rightarrow> kube \<Rightarrow> Service \<Rightarrow> string \<Rightarrow> string list \<Rightarrow> string list \<times> error option" where
  "GetServiceEndPoints tk k svc addrType nodeMatchList =
     (case get_endpoints k (sv_Namespace svc) (sv_Name svc) of
        Inl e \<Rightarrow> ([], Some e)
      | Inr eps \<Rightarrow>
          (filter (\<lambda>a. family_ok tk addrType a \<and> (nodeMatchList = [] \<or> MatchNodeinNodeList a nodeMatchList))
             (concat (map fst eps)), None))"

definition GetLoxilbServiceEndPoints ::
  "kube \<Rightarrow> string \<Rightarrow> string \<Rightarrow> string list \<Rightarrow> string list \<times> error option" where
  "GetLoxilbServiceEndPoints k name ns nodeMatchList =
     (case list_namespaces k of
        Inl e \<Rightarrow> ([], Some e)
      | Inr nss \<Rightarrow>
          (concat (map (\<lambda>nsItem.
             if ns \<noteq> [] \<and> nsItem \<noteq> ns then []
             else (case get_endpoints k nsItem name of
                     Inl _ \<Rightarrow> []
                   | Inr eps \<Rightarrow>
                       [IP_String (ParseIP a). a \<leftarrow> concat (map fst eps), ParseIP a \<noteq> [],
                        nodeMatchList = [] \<or> MatchNodeinNodeList (IP_String (ParseIP a)) nodeMatchList])) nss), None))"

definition GetServiceEndPointsPortsWithLister :: "kube \<Rightarrow> Service \<Rightarrow> error + int list" where
  "GetServiceEndPointsPortsWithLister k svc =
     (case list_slices k (sv_Namespace svc) (sv_Name svc) of
        Inl e \<Rightarrow> Inl e
      | Inr slices \<Rightarrow>
          (let portSet = fold (\<lambda>p s. case p of None \<Rightarrow> s | Some n \<Rightarrow> List.insert n s) (concat (map es_Ports slices)) []
           in Inr (int_order k portSet)))"

definition ready :: "Endpoint \<Rightarrow> bool" where
  "ready e = (ep_Ready e \<noteq> Some False)"

definition slice_addrs :: "EndpointSlice list \<Rightarrow> string list" where
  "slice_addrs slices = concat (map ep_Addresses (filter ready (concat (map es_Endpoints slices))))"

definition GetServiceEndPointsWithLister ::
  "'a loxilib \<Rightarrow> kube \<Rightarrow> Service \<Rightarrow> string \<Rightarrow> string list \<Rightarrow> string list \<times> error option" where
  "GetServiceEndPointsWithLister tk k svc addrType nodeMatchList =
     (case list_slices k (sv_Namespace svc) (sv_Name svc) of
        Inl e \<Rightarrow> ([], Some e)
      | Inr slices \<Rightarrow>
          (let ipSet = fold (\<lambda>a s. if family_ok tk addrType a then List.insert a s else s) (slice_addrs slices) []
           in (map_order k ipSet, None)))"

definition GetLoxilbServiceEndPointsWithLister ::
  "kube \<Rightarrow> string \<Rightarrow> string \<Rightarrow> string list \<Rightarrow> string list \<times> error option" where
  "GetLoxilbServiceEndPointsWithLister k name ns nodeMatchList =
     (case (if ns \<noteq> [] then list_slices k ns name else list_all_slices k name) of
        Inl e \<Rightarrow> ([], Some e)
      | Inr slices \<Rightarrow>
          (let ipSet = fold (\<lambda>a s. let IP = ParseIP a in if IP \<noteq> [] then List.insert (IP_String IP) s else s)
                         (slice_addrs slices) []
           in (map_order k ipSet, None)))"

subsection \<open>\<open>multus.go\<close>\<close>

definition GetMultusNetworkName :: "string \<Rightarrow> string \<Rightarrow> string" where
  "GetMultusNetworkName ns name = join_on ''/'' [ns, name]"

definition UnmarshalNetworkList :: "kube \<Rightarrow> string \<Rightarrow> error + networkList list" where
  "UnmarshalNetworkList k ns =
     (case json_networks k ns of
        Inr data \<Rightarrow> Inr data
      | Inl err \<Rightarrow>
          (let trimmed = trim_space ns in
           if trimmed = [] then Inl err
           else if has_prefix trimmed ''['' \<or> has_prefix trimmed ''{'' then Inl err
           else
             (let data = [\<lparr>nl_Name = trim_space name, nl_Namespace = []\<rparr>.
                          name \<leftarrow> split_on CHR '','' trimmed, trim_space name \<noteq> []]
              in if data = [] then Inl err else Inr data)))"

definition UnmarshalNetworkStatus :: "kube \<Rightarrow> string \<Rightarrow> error + networkStatus list" where
  "UnmarshalNetworkStatus k ns = json_status k ns"

definition GetMultusNetworkStatus :: "kube \<Rightarrow> string \<Rightarrow> string \<Rightarrow> error + networkStatus" where
  "GetMultusNetworkStatus k ns name =
     (case UnmarshalNetworkStatus k ns of
        Inl e \<Rightarrow> Inl e
      | Inr data \<Rightarrow>
          (case find (\<lambda>d. ns_Name d = name) data of
             Some d \<Rightarrow> Inr d
           | None \<Rightarrow> Inl (''not found '' @ name @ '' network'')))"

definition multus_contain :: "string \<Rightarrow> string list \<Rightarrow> string \<Rightarrow> bool" where
  "multus_contain svcNs strList s =
     list_ex (\<lambda>str. str = s \<or> (\<not> contains_str str ''/'' \<and> svcNs @ ''/'' @ str = s)) strList"

definition multus_net_name :: "Pod \<Rightarrow> networkList \<Rightarrow> string" where
  "multus_net_name pod mNet =
     (let nsp = (if nl_Namespace mNet \<noteq> [] then nl_Namespace mNet else pod_Namespace pod);
          name = (if nl_Namespace mNet \<noteq> [] then
                    (case cut_at CHR ''/'' (nl_Name mNet) of Some (_, rest) \<Rightarrow> rest | None \<Rightarrow> nl_Name mNet)
                  else nl_Name mNet)
      in if \<not> contains_str name ''/'' then nsp @ ''/'' @ name else name)"

definition multus_ips :: "'a loxilib \<Rightarrow> string \<Rightarrow> networkStatus list \<Rightarrow> string \<Rightarrow> string list" where
  "multus_ips tk addrType statuses name =
     filter (AddrInFamily tk addrType) (concat (map ns_Ips (filter (\<lambda>n. ns_Name n = name) statuses)))"

fun multus_pods ::
  "'a loxilib \<Rightarrow> kube \<Rightarrow> string \<Rightarrow> string list \<Rightarrow> string \<Rightarrow> Pod list \<Rightarrow> string list \<Rightarrow> string list \<times> error option" where
  "multus_pods tk k svcNs netList addrType [] epList = (epList, None)"
| "multus_pods tk k svcNs netList addrType (pod # pods) epList =
     (if pod_HostNetwork pod then multus_pods tk k svcNs netList addrType pods epList
      else
        (case map_of (pod_Annotations pod) ''k8s.v1.cni.cncf.io/networks'' of
           None \<Rightarrow> multus_pods tk k svcNs netList addrType pods epList
         | Some nets \<Rightarrow>
             (let podNetList = (case UnmarshalNetworkList k nets of
                                  Inl _ \<Rightarrow> [\<lparr>nl_Name = nets, nl_Namespace = []\<rparr>] | Inr l \<Rightarrow> l) in
              case map_of (pod_Annotations pod) ''k8s.v1.cni.cncf.io/network-status'' of
                None \<Rightarrow> multus_pods tk k svcNs netList addrType pods epList
              | Some st \<Rightarrow>
                  (case UnmarshalNetworkStatus k st of
                     Inl e \<Rightarrow>
                       (epList, Some (''failed to parse network-status annotation for pod '' @
                          pod_Namespace pod @ ''/'' @ pod_Name pod @ '': '' @ e))
                   | Inr statuses \<Rightarrow>
                       multus_pods tk k svcNs netList addrType pods
                         (epList @ concat (map (\<lambda>mNet.
                            let name = multus_net_name pod mNet in
                            if multus_contain svcNs netList name then multus_ips tk addrType statuses name else [])
                          podNetList))))))"

definition GetMultusEndpoints ::
  "'a loxilib \<Rightarrow> kube \<Rightarrow> string \<Rightarrow> string \<Rightarrow> string list \<Rightarrow> string \<Rightarrow> string list \<times> error option" where
  "GetMultusEndpoints tk k svcNs selector netList addrType =
     (case list_pods k svcNs selector of
        Inl e \<Rightarrow> ([], Some e)
      | Inr pods \<Rightarrow> multus_pods tk k svcNs netList addrType pods [])"

subsection \<open>Endpoint selection of the load-balancer manager: \<open>loadbalancer.go\<close>\<close>

definition getNodeAddress :: "'a loxilib \<Rightarrow> Node \<Rightarrow> string \<Rightarrow> error + string" where
  "getNodeAddress tk node addrType =
     (case find (\<lambda>(ty, st). ty = ''Ready'' \<and> st \<noteq> ''True'') (node_Conditions node) of
        Some (ty, st) \<Rightarrow> Inl (''node '' @ node_Name node @ '' '' @ ty @ ''status = '' @ st)
      | None \<Rightarrow>
          (case node_Addresses node of
             [] \<Rightarrow> Inl ''no address found for host''
           | (_, first) # _ \<Rightarrow>
               (case find (\<lambda>(ty, a). ty = ''InternalIP'' \<and> AddrInFamily tk addrType a) (node_Addresses node) of
                  Some (_, a) \<Rightarrow> Inr a
                | None \<Rightarrow>
                    if AddrInFamily tk addrType first then Inr first
                    else Inl ''no address with family found for host'')))"

definition node_addrs :: "'a loxilib \<Rightarrow> string \<Rightarrow> Node list \<Rightarrow> string list" where
  "node_addrs tk addrType nodes =
     [a. node \<leftarrow> nodes, Inr a \<leftarrow> [getNodeAddress tk node addrType]]"

definition getEndpointsForLB :: "'a loxilib \<Rightarrow> Node list \<Rightarrow> string \<Rightarrow> string list \<Rightarrow> string list" where
  "getEndpointsForLB tk nodes addrType nodeMatchList =
     filter (\<lambda>a. nodeMatchList = [] \<or> MatchNodeinNodeList a nodeMatchList) (node_addrs tk addrType nodes)"

definition getNodeEndpointsWithLabel ::
  "'a loxilib \<Rightarrow> kube \<Rightarrow> string \<Rightarrow> string \<Rightarrow> error + string list" where
  "getNodeEndpointsWithLabel tk k addrType matchLabel =
     (case list_nodes k (LabelExists matchLabel) of
        Inl e \<Rightarrow> Inl e | Inr nodes \<Rightarrow> Inr (node_addrs tk addrType nodes))"

definition getNodeEndpointsWithLabelWithKey ::
  "'a loxilib \<Rightarrow> kube \<Rightarrow> string \<Rightarrow> string \<Rightarrow> string \<Rightarrow> error + string list" where
  "getNodeEndpointsWithLabelWithKey tk k addrType key matchLabel =
     (case list_nodes k (LabelIn key matchLabel) of
        Inl e \<Rightarrow> Inl e | Inr nodes \<Rightarrow> Inr (node_addrs tk addrType nodes))"

definition getNodeEndpoints ::
  "'a loxilib \<Rightarrow> kube \<Rightarrow> string \<Rightarrow> string list \<Rightarrow> string list \<times> error option" where
  "getNodeEndpoints tk k addrType nodeMatchList =
     (case list_nodes k (LabelAbsent ''node.kubernetes.io/exclude-from-external-load-balancers'') of
        Inl e \<Rightarrow> ([], Some e)
      | Inr nodes \<Rightarrow> (getEndpointsForLB tk nodes addrType nodeMatchList, None))"

definition getMultusEndpoints ::
  "'a loxilib \<Rightarrow> kube \<Rightarrow> Service \<Rightarrow> string \<Rightarrow> string list \<times> error option" where
  "getMultusEndpoints tk k svc addrType =
     (case map_of (sv_Annotations svc) ''loxilb.io/multus-nets'' of
        None \<Rightarrow> ([], Some ''not found multus annotations'')
      | Some netListStr \<Rightarrow>
          GetMultusEndpoints tk k (sv_Namespace svc) (labels_String k (sv_Selector svc))
            (split_on CHR '','' netListStr) addrType)"

definition getEndpoints ::
  "'a loxilib \<Rightarrow> kube \<Rightarrow> Service \<Rightarrow> bool \<Rightarrow> bool \<Rightarrow> bool \<Rightarrow> string \<Rightarrow> string \<Rightarrow> string list \<times> error option" where
  "getEndpoints tk k svc usePodNet useExternalEndpoint useMultusNet addrType matchNodeLabel =
     (if useMultusNet then getMultusEndpoints tk k svc addrType
      else
        (case (if matchNodeLabel \<noteq> [] then
                 map_sum (\<lambda>e. e) (\<lambda>l. if l = [] then [''xdeadbeefx''] else l)
                   (getNodeEndpointsWithLabel tk k addrType matchNodeLabel)
               else Inr []) of
           Inl e \<Rightarrow> ([], Some e)
         | Inr matchNodeList \<Rightarrow>
             if usePodNet \<or> useExternalEndpoint then
               GetServiceEndPointsWithLister tk k svc addrType matchNodeList
             else if sv_ExternalTrafficPolicy svc = ''Local'' then
               GetServiceLocalEndpoints tk k svc addrType matchNodeList
             else getNodeEndpoints tk k addrType matchNodeList))"

subsection \<open>Endpoints of a service\<close>

definition order_ok :: "kube \<Rightarrow> bool" where
  "order_ok k = ((\<forall>xs. distinct xs \<longrightarrow> distinct (map_order k xs) \<and> set (map_order k xs) = set xs) \<and>
                 (\<forall>xs. distinct xs \<longrightarrow> distinct (int_order k xs) \<and> set (int_order k xs) = set xs))"

lemma fold_insert_filter:
  assumes "distinct s"
  shows "distinct (fold (\<lambda>a s. if P a then List.insert (f a) s else s) xs s) \<and>
    set (fold (\<lambda>a s. if P a then List.insert (f a) s else s) xs s) = f ` {a \<in> set xs. P a} \<union> set s"
  using assms by (induction xs arbitrary: s) auto

text \<open>
  C36. The endpoints taken from endpoint slices (pod network and external endpoints) are exactly the
  addresses, of the wanted family, of the endpoints that are not marked unready, each once,
  whatever the iteration order of the map they are collected in.
\<close>

theorem slice_endpoints_exact:
  assumes "order_ok k" and "list_slices k (sv_Namespace svc) (sv_Name svc) = Inr slices"
  shows "\<exists>ips. GetServiceEndPointsWithLister tk k svc addrType nodeMatchList = (ips, None) \<and> distinct ips \<and>
    set ips = {a. \<exists>s\<in>set slices. \<exists>e\<in>set (es_Endpoints s). ep_Ready e \<noteq> Some False \<and>
                 a \<in> set (ep_Addresses e) \<and> family_ok tk addrType a}"
proof -
  note f = fold_insert_filter[of "[]" "family_ok tk addrType" "\<lambda>a. a" "slice_addrs slices"]
  have "set (slice_addrs slices) =
    {a. \<exists>s\<in>set slices. \<exists>e\<in>set (es_Endpoints s). ep_Ready e \<noteq> Some False \<and> a \<in> set (ep_Addresses e)}"
    by (auto simp: slice_addrs_def ready_def)
  then show ?thesis
    using assms f by (auto simp: GetServiceEndPointsWithLister_def order_ok_def Let_def)
qed

definition local_inv :: "'a loxilib \<Rightarrow> string \<Rightarrow> string list \<Rightarrow> Pod list \<Rightarrow> string list \<Rightarrow> bool" where
  "local_inv tk addrType match pods eps =
     (distinct eps \<and> (\<forall>a\<in>set eps. (match = [] \<or> a \<in> set match) \<and>
        (addrType = ''ipv6'' \<longrightarrow> IsNetIPv6 tk a) \<and>
        (\<exists>p\<in>set pods. a = pod_HostIP p \<or> a \<in> set (pod_HostIPs p))))"

lemma local_step_inv:
  assumes "local_inv tk addrType match pods eps" and "pod \<in> set pods"
  shows "local_inv tk addrType match pods (local_step tk addrType match pod eps)"
proof -
  have "find (IsNetIPv6 tk) ips = Some a \<Longrightarrow> a \<in> set ips \<and> IsNetIPv6 tk a" for ips a
    by (auto simp: find_Some_iff)
  then show ?thesis
    using assms
    by (auto simp: local_inv_def local_step_def family_pick_def MatchNodeinNodeList_def list_ex_iff
        split: option.splits if_splits)
qed

text \<open>
  For a service with local traffic policy the endpoints are host addresses of the pods the
  service selects, each once; in IPv6 mode they are IPv6 addresses; if a list of nodes is
  given, only those nodes occur; and the call fails exactly when there is none (or the pods
  cannot be listed).
\<close>

theorem local_endpoints_sound:
  assumes "list_pods k (sv_Namespace svc) (labels_String k (sv_Selector svc)) = Inr pods"
  shows "\<exists>eps. GetServiceLocalEndpoints tk k svc addrType match =
      (eps, if eps = [] then Some ''no active endpoints'' else None) \<and> distinct eps \<and>
    (\<forall>a\<in>set eps. (match = [] \<or> a \<in> set match) \<and> (addrType = ''ipv6'' \<longrightarrow> IsNetIPv6 tk a) \<and>
       (\<exists>p\<in>set pods. a = pod_HostIP p \<or> a \<in> set (pod_HostIPs p)))"
proof -
  have "local_inv tk addrType match pods (fold (local_step tk addrType match) pods [])"
  proof (rule fold_inv)
    show "local_inv tk addrType match pods []" by (simp add: local_inv_def)
  qed (rule local_step_inv)
  then show ?thesis
    using assms by (auto simp: GetServiceLocalEndpoints_def local_inv_def Let_def)
qed

lemma getNodeAddress_sound:
  assumes "getNodeAddress tk node addrType = Inr a"
  shows "(\<forall>st. (''Ready'', st) \<in> set (node_Conditions node) \<longrightarrow> st = ''True'') \<and>
    (\<exists>ty. (ty, a) \<in> set (node_Addresses node)) \<and> AddrInFamily tk addrType a"
proof -
  from assms have cond: "find (\<lambda>(ty, st). ty = ''Ready'' \<and> st \<noteq> ''True'') (node_Conditions node) = None"
    by (auto simp: getNodeAddress_def split: option.splits)
  obtain ty first rest where addrs: "node_Addresses node = (ty, first) # rest"
    using assms cond by (auto simp: getNodeAddress_def split: list.splits)
  have "(\<exists>ty. (ty, a) \<in> set (node_Addresses node)) \<and> AddrInFamily tk addrType a"
  proof (cases "find (\<lambda>(ty, a). ty = ''InternalIP'' \<and> AddrInFamily tk addrType a) (node_Addresses node)")
    case None
    with assms cond addrs show ?thesis by (auto simp: getNodeAddress_def split: if_splits)
  next
    case (Some p)
    with assms cond addrs have "snd p = a" by (auto simp: getNodeAddress_def split: prod.splits)
    with find_SomeD[OF Some] show ?thesis by (cases p) auto
  qed
  with find_NoneD[OF cond] show ?thesis by fastforce
qed

lemma node_addrs_iff: "a \<in> set (node_addrs tk ty nodes) \<longleftrightarrow> (\<exists>n\<in>set nodes. getNodeAddress tk n ty = Inr a)"
  by (force simp: node_addrs_def split: sum.splits)

text \<open>
  The node endpoints of a service: every endpoint is an address, of the wanted family, of a
  node that is not excluded from load balancing and has no failed readiness condition. With a
  node label, it is also the address of a node that carries the label; when no such node
  exists nothing is selected (the placeholder \<open>xdeadbeefx\<close> apart).
\<close>

theorem node_endpoints_sound:
  assumes "sv_ExternalTrafficPolicy svc \<noteq> ''Local''"
    and "getEndpoints tk k svc False False False addrType matchLabel = (eps, None)" and "a \<in> set eps"
  shows "(\<exists>nodes n. list_nodes k (LabelAbsent ''node.kubernetes.io/exclude-from-external-load-balancers'') = Inr nodes \<and>
        n \<in> set nodes \<and> (\<forall>st. (''Ready'', st) \<in> set (node_Conditions n) \<longrightarrow> st = ''True'') \<and>
        (\<exists>ty. (ty, a) \<in> set (node_Addresses n)) \<and> AddrInFamily tk addrType a) \<and>
    (matchLabel = [] \<or> a = ''xdeadbeefx'' \<or>
      (\<exists>nodes n. list_nodes k (LabelExists matchLabel) = Inr nodes \<and> n \<in> set nodes \<and>
         getNodeAddress tk n addrType = Inr a))"
proof
  obtain match where m: "(eps, None) = getNodeEndpoints tk k addrType match"
    and lab: "matchLabel = [] \<or> (\<exists>l. getNodeEndpointsWithLabel tk k addrType matchLabel = Inr l \<and>
               match = (if l = [] then [''xdeadbeefx''] else l))"
  proof (cases "matchLabel = []")
    case True
    then show ?thesis using that[of "[]"] assms(1,2) by (simp add: getEndpoints_def)
  next
    case False
    then obtain l where "getNodeEndpointsWithLabel tk k addrType matchLabel = Inr l"
      using assms(2) by (cases "getNodeEndpointsWithLabel tk k addrType matchLabel") (auto simp: getEndpoints_def)
    then show ?thesis
      using that[of "if l = [] then [''xdeadbeefx''] else l"] False assms(1,2)
      by (simp add: getEndpoints_def)
  qed
  then obtain nodes where nodes:
    "list_nodes k (LabelAbsent ''node.kubernetes.io/exclude-from-external-load-balancers'') = Inr nodes"
    and eps: "eps = getEndpointsForLB tk nodes addrType match"
    by (auto simp: getNodeEndpoints_def split: sum.splits)
  from eps assms(3) have am: "match = [] \<or> a \<in> set match" and an: "a \<in> set (node_addrs tk addrType nodes)"
    by (auto simp: getEndpointsForLB_def MatchNodeinNodeList_def list_ex_iff)
  from an nodes show "\<exists>nodes n. list_nodes k (LabelAbsent ''node.kubernetes.io/exclude-from-external-load-balancers'') = Inr nodes \<and>
        n \<in> set nodes \<and> (\<forall>st. (''Ready'', st) \<in> set (node_Conditions n) \<longrightarrow> st = ''True'') \<and>
        (\<exists>ty. (ty, a) \<in> set (node_Addresses n)) \<and> AddrInFamily tk addrType a"
    using getNodeAddress_sound[of tk _ addrType a] by (metis node_addrs_iff)
  from lab am show "matchLabel = [] \<or> a = ''xdeadbeefx'' \<or>
      (\<exists>nodes n. list_nodes k (LabelExists matchLabel) = Inr nodes \<and> n \<in> set nodes \<and>
         getNodeAddress tk n addrType = Inr a)"
    by (auto simp: getNodeEndpointsWithLabel_def node_addrs_iff split: sum.splits if_splits)
qed

subsection \<open>A concrete cluster\<close>

definition demo_pod :: Pod where
  "demo_pod = \<lparr>pod_Name = ''web-0'', pod_Namespace = ''default'', pod_Annotations = [], pod_HostNetwork = False,
     pod_HostIP = ''192.168.0.11'', pod_HostIPs = [''192.168.0.11''], pod_PodIP = ''10.244.1.5'',
     pod_PodIPs = [''10.244.1.5''], pod_Ports = [[(''http'', 8080)]]\<rparr>"

definition demo_node :: "string \<Rightarrow> string \<Rightarrow> Node" where
  "demo_node addr st = \<lparr>node_Name = ''n'', node_Conditions = [(''Ready'', st)],
     node_Addresses = [(''Hostname'', ''n''), (''InternalIP'', addr)]\<rparr>"

definition demo_slice :: EndpointSlice where
  "demo_slice = \<lparr>es_Ports = [Some 8080],
     es_Endpoints = [\<lparr>ep_Ready = Some True, ep_Addresses = [''10.244.1.5'']\<rparr>,
                     \<lparr>ep_Ready = Some False, ep_Addresses = [''10.244.1.6'']\<rparr>]\<rparr>"

definition demo_port :: ServicePort where
  "demo_port = \<lparr>sp_Name = ''http'', sp_Protocol = ''TCP'', sp_Port = 80,
     sp_TargetPort = \<lparr>int_value = 8080, int_string = ''8080''\<rparr>, sp_NodePort = 30080\<rparr>"

definition demo_svc :: Service where
  "demo_svc = \<lparr>sv_Namespace = ''default'', sv_Name = ''web'', sv_Annotations = [], sv_Type = ''LoadBalancer'',
     sv_Selector = [(''app'', ''web'')], sv_Ports = [demo_port], sv_LoadBalancerClass = Some ''loxilb.io/loxilb'',
     sv_ExternalIPs = [], sv_ExternalTrafficPolicy = ''Cluster'', sv_SourceRanges = [], sv_Ingress = []\<rparr>"

definition demo_kube :: kube where
  "demo_kube = \<lparr>
     list_pods = (\<lambda>ns sel. Inr [demo_pod]),
     get_endpoints = (\<lambda>ns name. Inr [([''10.244.1.5''], [8080])]),
     list_namespaces = Inr [''default''],
     list_slices = (\<lambda>ns name. Inr [demo_slice]),
     list_all_slices = (\<lambda>name. Inr [demo_slice]),
     list_nodes = (\<lambda>req. Inr [demo_node ''192.168.0.11'' ''True'', demo_node ''192.168.0.12'' ''False'']),
     get_service = (\<lambda>ns name. Inr demo_svc),
     list_services = (\<lambda>ns. Inr [demo_svc]),
     get_secret = (\<lambda>ns name. Inl ''not found''),
     update_status = (\<lambda>svc. None),
     is_conflict = (\<lambda>e. False),
     labels_String = (\<lambda>s. ''app=web''),
     json_networks = (\<lambda>s. Inl ''no json''),
     json_status = (\<lambda>s. Inl ''no json''),
     map_order = rev,
     int_order = (\<lambda>xs. xs)\<rparr>"

lemma demo_kube_order: "order_ok demo_kube"
  by (simp add: order_ok_def demo_kube_def)

theorem slice_endpoints_exact_witness:
  "\<exists>ips. GetServiceEndPointsWithLister list_ipam demo_kube demo_svc ''ipv4'' [] = (ips, None) \<and>
     set ips = {a. \<exists>s\<in>set [demo_slice]. \<exists>e\<in>set (es_Endpoints s). ep_Ready e \<noteq> Some False \<and>
                 a \<in> set (ep_Addresses e) \<and> family_ok list_ipam ''ipv4'' a}"
proof -
  have "list_slices demo_kube (sv_Namespace demo_svc) (sv_Name demo_svc) = Inr [demo_slice]"
    by (simp add: demo_kube_def)
  from slice_endpoints_exact[OF demo_kube_order this] show ?thesis by blast
qed

theorem local_endpoints_sound_witness:
  "\<exists>eps. GetServiceLocalEndpoints list_ipam demo_kube demo_svc ''ipv4'' [''192.168.0.11''] =
      (eps, if eps = [] then Some ''no active endpoints'' else None) \<and> set eps \<subseteq> {''192.168.0.11''}"
proof -
  have "list_pods demo_kube (sv_Namespace demo_svc) (labels_String demo_kube (sv_Selector demo_svc)) = Inr [demo_pod]"
    by (simp add: demo_kube_def)
  from local_endpoints_sound[OF this, of list_ipam "''ipv4''" "[''192.168.0.11'']"] show ?thesis by auto
qed

theorem node_endpoints_sound_witness:
  "\<exists>eps. getEndpoints list_ipam demo_kube demo_svc False False False ''ipv4'' [] = (eps, None) \<and>
     ''192.168.0.11'' \<in> set eps \<and> AddrInFamily list_ipam ''ipv4'' ''192.168.0.11''"
proof -
  have e: "getEndpoints list_ipam demo_kube demo_svc False False False ''ipv4'' [] = ([''192.168.0.11''], None)"
    by code_simp
  have "sv_ExternalTrafficPolicy demo_svc \<noteq> ''Local''" by (simp add: demo_svc_def)
  from node_endpoints_sound[OF this e, of "''192.168.0.11''"] e show ?thesis by auto
qed

end
