(* ===== verification/Roles.thy ===== *)
theory Roles
  imports Api_Client "HOL-Library.Multiset"
begin

text \<open>
  Election of the master loxilb of each zone instance: \<open>SelectInstLoxiLBRoles\<close>,
  \<open>ResetRolesOnNeedRebalanceInstLoxiLBRoles\<close> and \<open>SelectLoxiLBRoles\<close> of \<open>loadbalancer.go\<close>.
  The state is the list of clients; the role of a client for an instance is an entry of its map
  \<open>InstRoles\<close>. The map \<open>zoneInstRoleMap\<close> is an association list whose order is the order in
  which Go ranges over it.
\<close>

definition set_role :: "string \<Rightarrow> bool \<Rightarrow> LoxiClient \<Rightarrow> LoxiClient" where
  "set_role inst b c = c\<lparr>InstRoles := AList.update inst b (InstRoles c)\<rparr>"

text \<open>
  The first loop: masters that are not alive lose the role. The result is \<open>None\<close> when a
  client without the instance is met, where the function returns at once, and else whether a
  role was taken away and whether a master is left.
\<close>

fun scan_masters :: "string \<Rightarrow> LoxiClient list \<Rightarrow> LoxiClient list \<times> (bool \<times> bool) option" where
  "scan_masters inst [] = ([], Some (False, False))"
| "scan_masters inst (v # vs) =
     (case map_of (InstRoles v) inst of
        None \<Rightarrow> (v # vs, None)
      | Some m \<Rightarrow>
          (case scan_masters inst vs of
             (vs', r) \<Rightarrow>
               ((if m \<and> \<not> IsAlive v then set_role inst False v else v) # vs',
                map_option (\<lambda>(reElect, hasMaster). (reElect \<or> m \<and> \<not> IsAlive v, hasMaster \<or> m \<and> IsAlive v)) r)))"

text \<open>The second loop, with the number of clients still to be looked at.\<close>

fun elect_loop ::
  "string \<Rightarrow> nat \<Rightarrow> nat \<Rightarrow> LoxiClient list \<times> bool \<times> int \<Rightarrow> LoxiClient list \<times> bool \<times> int" where
  "elect_loop inst 0 i st = st"
| "elect_loop inst (Suc k) i (cs, selMaster, sel) =
     (let i = (if length cs \<le> i then 0 else i); v = cs ! i in
      if NoRole v then elect_loop inst k (i + 1) (cs, selMaster, sel)
      else if selMaster then elect_loop inst k (i + 1) (cs[i := set_role inst False v], selMaster, sel)
      else if IsAlive v then elect_loop inst k (i + 1) (cs[i := set_role inst True v], True, int i)
      else elect_loop inst k (i + 1) (cs, selMaster, sel))"

definition SelectInstLoxiLBRoles ::
  "string \<Rightarrow> int \<Rightarrow> LoxiClient list \<Rightarrow> (LoxiClient list \<times> bool \<times> int) go" where
  "SelectInstLoxiLBRoles inst selhint cs =
     (case scan_masters inst cs of
        (cs, None) \<Rightarrow> Ret (cs, False, 0)
      | (cs, Some (reElect, hasMaster)) \<Rightarrow>
          if reElect \<or> \<not> hasMaster then
            (if selhint < 0 \<and> cs \<noteq> [] then Panic ''index out of range''
             else Ret (elect_loop inst (length cs) (nat selhint) (cs, False, -1)))
          else Ret (cs, False, -1))"

definition num_masters :: "LoxiClient \<Rightarrow> nat" where
  "num_masters c = length (filter snd (InstRoles c))"

definition ResetRolesOnNeedRebalanceInstLoxiLBRoles ::
  "nat \<Rightarrow> bool \<Rightarrow> LoxiClient list \<Rightarrow> LoxiClient list \<times> bool" where
  "ResetRolesOnNeedRebalanceInstLoxiLBRoles numInstRoles exclIPAM cs =
     (let activeClients = length (filter IsAlive cs);
          maxMasterPerClient = foldl max 0 (map num_masters cs)
      in if numInstRoles \<le> activeClients \<and> numInstRoles \<le> maxMasterPerClient \<and> exclIPAM
         then (map (\<lambda>c. c\<lparr>InstRoles := map (\<lambda>(i, _). (i, False)) (InstRoles c)\<rparr>) cs, True)
         else (cs, False))"

text \<open>
  The loop over the zone instances, for any election of one instance: the hint of the next
  round is the identifier of the instance while the last position is 0, else the position
  after the last one.
\<close>

fun hint_loop ::
  "('i \<Rightarrow> int \<Rightarrow> 's \<Rightarrow> ('s \<times> bool \<times> int) go) \<Rightarrow> ('i \<times> int) list \<Rightarrow> int \<Rightarrow> bool \<Rightarrow> 's \<Rightarrow> ('s \<times> bool) go" where
  "hint_loop run [] pselhint selMaster cs = Ret (cs, selMaster)"
| "hint_loop run ((inst, instID) # insts) pselhint selMaster cs =
     go_bind (run inst (if pselhint = 0 then instID else pselhint + 1) cs)
       (\<lambda>(cs, sel, pselhint). hint_loop run insts pselhint (selMaster \<or> sel) cs)"

text \<open>The clients, whether an election took place, and whether the event is sent.\<close>

definition SelectLoxiLBRoles ::
  "(string \<times> int) list \<Rightarrow> string \<Rightarrow> bool \<Rightarrow> bool \<Rightarrow> LoxiClient list \<Rightarrow> (LoxiClient list \<times> bool \<times> bool) go" where
  "SelectLoxiLBRoles zoneInstRoleMap setRoles exclIPAM sendSigCh cs =
     (if setRoles \<noteq> [] then
        go_map (\<lambda>(cs, selMaster). (cs, selMaster, selMaster \<and> sendSigCh))
          (hint_loop SelectInstLoxiLBRoles zoneInstRoleMap 0 False
             (fst (ResetRolesOnNeedRebalanceInstLoxiLBRoles (length zoneInstRoleMap) exclIPAM cs)))
      else Ret (cs, False, False))"

text \<open>The map as \<open>NewLoadBalancerManager\<close> fills it, in the order of the instance numbers.\<close>

definition zone_inst_map :: "string \<Rightarrow> int \<Rightarrow> (string \<times> int) list" where
  "zone_inst_map zone numZoneInst = map (\<lambda>i. (GenZoneInstName zone (int i), int i)) [0..<nat numZoneInst]"

subsection \<open>Masters\<close>

definition is_master :: "string \<Rightarrow> LoxiClient \<Rightarrow> bool" where
  "is_master inst c = (map_of (InstRoles c) inst = Some True)"

definition eligible :: "LoxiClient \<Rightarrow> bool" where
  "eligible c = (IsAlive c \<and> \<not> NoRole c)"

definition masters :: "string \<Rightarrow> LoxiClient list \<Rightarrow> nat set" where
  "masters inst cs = {i. i < length cs \<and> is_master inst (cs ! i)}"

text \<open>
  What holds of an instance between elections: every client knows it, a client without a role
  is not its master, and it has at most one master.
\<close>

definition roles_ok :: "string \<Rightarrow> LoxiClient list \<Rightarrow> bool" where
  "roles_ok inst cs =
     ((\<forall>c\<in>set cs. has_key (InstRoles c) inst \<and> (NoRole c \<longrightarrow> \<not> is_master inst c)) \<and>
      card (masters inst cs) \<le> 1)"

lemma set_role_simps [simp]:
  "IsAlive (set_role inst b c) = IsAlive c" "NoRole (set_role inst b c) = NoRole c"
  "Host (set_role inst b c) = Host c" "eligible (set_role inst b c) = eligible c"
  "is_master inst' (set_role inst b c) = (if inst' = inst then b else is_master inst' c)"
  "has_key (InstRoles (set_role inst b c)) inst' = (inst' = inst \<or> has_key (InstRoles c) inst')"
  by (auto simp: set_role_def eligible_def is_master_def update_conv')

lemma scan_masters_map:
  assumes "\<forall>c\<in>set cs. has_key (InstRoles c) inst"
  shows "scan_masters inst cs =
    (map (\<lambda>c. if is_master inst c \<and> \<not> IsAlive c then set_role inst False c else c) cs,
     Some (\<exists>c\<in>set cs. is_master inst c \<and> \<not> IsAlive c, \<exists>c\<in>set cs. is_master inst c \<and> IsAlive c))"
  using assms by (induction cs) (auto simp: has_key_def is_master_def)

text \<open>What stays of the clients under the election of one instance: all but its role entry.\<close>

definition kept :: "string \<Rightarrow> LoxiClient \<Rightarrow> LoxiClient \<Rightarrow> bool" where
  "kept inst c c' =
     (c' = c\<lparr>InstRoles := InstRoles c'\<rparr> \<and>
      (\<forall>j. j \<noteq> inst \<longrightarrow> map_of (InstRoles c') j = map_of (InstRoles c) j) \<and>
      (has_key (InstRoles c) inst \<longrightarrow> has_key (InstRoles c') inst))"

lemma kept_refl [simp]: "kept inst c c"
  by (simp add: kept_def)

lemma kept_set_role [simp]: "kept inst c (set_role inst b c)"
  by (simp add: kept_def set_role_def update_conv')

lemma kept_fields:
  assumes "kept inst c c'"
  shows "IsAlive c' = IsAlive c" "NoRole c' = NoRole c" "Host c' = Host c" "eligible c' = eligible c"
    "j \<noteq> inst \<Longrightarrow> is_master j c' = is_master j c"
    "has_key (InstRoles c) j \<Longrightarrow> has_key (InstRoles c') j"
proof -
  have "c' = c\<lparr>InstRoles := InstRoles c'\<rparr>" using assms by (simp add: kept_def)
  then show "IsAlive c' = IsAlive c" "NoRole c' = NoRole c" "Host c' = Host c"
    by (metis LoxiClient.ext_inject LoxiClient.surjective LoxiClient.update_convs(2))+
  then show "eligible c' = eligible c" by (simp add: eligible_def)
  show "j \<noteq> inst \<Longrightarrow> is_master j c' = is_master j c" using assms by (simp add: kept_def is_master_def)
  show "has_key (InstRoles c) j \<Longrightarrow> has_key (InstRoles c') j"
    using assms by (cases "j = inst") (auto simp: kept_def has_key_def)
qed

lemma kept_trans: "kept inst a b \<Longrightarrow> kept inst b c \<Longrightarrow> kept inst a c"
  by (cases a; cases b; cases c) (auto simp: kept_def)

abbreviation same_clients :: "string \<Rightarrow> LoxiClient list \<Rightarrow> LoxiClient list \<Rightarrow> bool" where
  "same_clients inst \<equiv> list_all2 (kept inst)"

lemma same_clients_refl [simp]: "same_clients inst cs cs"
  by (simp add: list_all2_same)

lemma same_clients_trans: "same_clients inst as bs \<Longrightarrow> same_clients inst bs cs \<Longrightarrow> same_clients inst as cs"
  by (rule list_all2_trans) (rule kept_trans)

lemma same_clients_update: "i < length cs \<Longrightarrow> kept inst (cs ! i) c \<Longrightarrow> same_clients inst cs (cs[i := c])"
  by (auto simp: list_all2_conv_all_nth nth_list_update)

lemma same_clients_nth: "same_clients inst cs cs' \<Longrightarrow> i < length cs \<Longrightarrow> kept inst (cs ! i) (cs' ! i)"
  by (simp add: list_all2_conv_all_nth)

lemma same_clients_length: "same_clients inst cs cs' \<Longrightarrow> length cs' = length cs"
  by (simp add: list_all2_lengthD)

lemma masters_other:
  "same_clients inst cs cs' \<Longrightarrow> j \<noteq> inst \<Longrightarrow> masters j cs' = masters j cs"
  by (auto simp: masters_def same_clients_length dest: same_clients_nth[THEN kept_fields(5)])

subsection \<open>The loops\<close>

text \<open>One round, with the index brought into the list.\<close>

lemma elect_loop_Suc:
  assumes "j = (if length cs \<le> i then 0 else i)"
  shows "elect_loop inst (Suc k) i (cs, s, e) =
      elect_loop inst k (Suc j)
        (if NoRole (cs ! j) then (cs, s, e)
         else if s then (cs[j := set_role inst False (cs ! j)], s, e)
         else if IsAlive (cs ! j) then (cs[j := set_role inst True (cs ! j)], True, int j)
         else (cs, s, e))"
  by (simp add: Let_def assms)

declare elect_loop.simps(2) [simp del]

lemma ring_index:
  assumes "i \<le> n" and "0 < n" and "j = (if n \<le> i then 0 else i)"
  shows "j < n" "Suc j \<le> n" "j = i mod n" "(Suc j + t) mod n = (i + Suc t) mod n"
proof -
  show "j < n" "Suc j \<le> n" "j = i mod n" using assms by auto
  then have "j mod n = i mod n" by simp
  then show "(Suc j + t) mod n = (i + Suc t) mod n"
    by (metis add_Suc add_Suc_right mod_add_left_eq)
qed

lemma ring_cover:
  assumes "m < n" and "j \<le> n"
  shows "\<exists>t<n. (j + t) mod n = (m :: nat)"
proof (cases "j \<le> m")
  case True
  then show ?thesis using assms by (intro exI[of _ "m - j"]) auto
next
  case False
  then show ?thesis using assms by (intro exI[of _ "n - j + m"]) auto
qed

lemma same_clients_set: "same_clients inst cs (cs[j := set_role inst b (cs ! j)])"
  by (cases "j < length cs") (auto intro: same_clients_update simp: list_update_beyond not_less)

lemma elect_loop_same: "same_clients inst cs (fst (elect_loop inst k i (cs, s, e)))"
proof (induction k arbitrary: i cs s e)
  case (Suc k)
  show ?case
    by (auto simp: elect_loop_Suc[OF refl] intro: Suc.IH same_clients_trans[OF same_clients_set Suc.IH])
qed simp

lemma masters_update:
  "i < length cs \<Longrightarrow> masters inst (cs[i := set_role inst b (cs ! i)]) =
   (if b then insert i (masters inst cs) else masters inst cs - {i})"
  by (auto simp: masters_def nth_list_update split: if_splits)

text \<open>The state of the loop: before a client is chosen there is no master, afterwards it is the chosen one.\<close>

definition elect_inv :: "string \<Rightarrow> LoxiClient list \<times> bool \<times> int \<Rightarrow> bool" where
  "elect_inv inst st =
     (case st of (cs, s, e) \<Rightarrow>
        if s then 0 \<le> e \<and> nat e < length cs \<and> eligible (cs ! nat e) \<and> masters inst cs = {nat e}
        else masters inst cs = {})"

lemma elect_step_inv:
  assumes "elect_inv inst (cs, s, e)" and "j < length cs" and "s \<longrightarrow> nat e \<noteq> j"
  shows "elect_inv inst
    (if NoRole (cs ! j) then (cs, s, e)
     else if s then (cs[j := set_role inst False (cs ! j)], s, e)
     else if IsAlive (cs ! j) then (cs[j := set_role inst True (cs ! j)], True, int j)
     else (cs, s, e))"
  using assms by (auto simp: elect_inv_def masters_update eligible_def)

lemma elect_loop_once:
  "elect_inv inst (cs, s, e) \<Longrightarrow> (s \<longrightarrow> (\<forall>t<k. (i + t) mod length cs \<noteq> nat e)) \<Longrightarrow> i \<le> length cs \<Longrightarrow>
   k \<le> length cs \<Longrightarrow> elect_inv inst (elect_loop inst k i (cs, s, e))"
proof (induction k arbitrary: i cs s e)
  case (Suc k)
  define j where "j = (if length cs \<le> i then 0 else i)"
  have len: "0 < length cs" using Suc.prems(4) by linarith
  note j = ring_index[OF Suc.prems(3) len j_def]
  have old: "s \<longrightarrow> (\<forall>t<k. (Suc j + t) mod length cs \<noteq> nat e)"
    using Suc.prems(2) by (auto simp only: j(4) Suc_less_eq)
  have now: "s \<longrightarrow> nat e \<noteq> j" using Suc.prems(2) j(3) by auto
  have fresh: "(Suc j + t) mod length cs \<noteq> j" if "t < k" for t
  proof -
    have "t + 1 < length cs" using that Suc.prems(4) by simp
    then show ?thesis using j(1) by (auto simp: mod_if)
  qed
  show ?case
    using elect_step_inv[OF Suc.prems(1) j(1) now] Suc.prems(4) j(2) old fresh
    by (auto simp: elect_loop_Suc[OF j_def] split: if_splits intro!: Suc.IH)
qed simp

lemma elect_loop_none:
  "\<not> fst (snd (elect_loop inst k i (cs, s, e))) \<Longrightarrow> i \<le> length cs \<Longrightarrow> k \<le> length cs \<Longrightarrow>
   \<not> s \<and> (\<forall>t<k. \<not> eligible (cs ! ((i + t) mod length cs)))"
proof (induction k arbitrary: i cs s e)
  case (Suc k)
  define j where "j = (if length cs \<le> i then 0 else i)"
  have len: "0 < length cs" using Suc.prems(3) by linarith
  note j = ring_index[OF Suc.prems(2) len j_def]
  have sel: "\<not> eligible (cs ! j)" and rest: "\<not> fst (snd (elect_loop inst k (Suc j) (cs, s, e)))"
    if "\<not> s"
    using Suc.prems that Suc.IH[of "Suc j" "cs[j := set_role inst True (cs ! j)]" True "int j"] j(2)
    by (auto simp: elect_loop_Suc[OF j_def] eligible_def split: if_splits)
  have s: "\<not> s"
    using Suc.prems Suc.IH[of "Suc j" "cs[j := set_role inst False (cs ! j)]" s e] Suc.IH[of "Suc j" cs s e] j(2)
    by (auto simp: elect_loop_Suc[OF j_def] split: if_splits)
  have "\<forall>t<k. \<not> eligible (cs ! ((Suc j + t) mod length cs))"
    using Suc.IH[OF rest[OF s]] j(2) Suc.prems(3) by simp
  then have later: "\<forall>t<k. \<not> eligible (cs ! ((i + Suc t) mod length cs))" by (simp only: j(4))
  have "\<not> eligible (cs ! ((i + t) mod length cs))" if "t < Suc k" for t
    using that later sel[OF s] j(3) by (cases t) auto
  with s show ?case by blast
qed simp

lemma elect_loop_result:
  assumes "masters inst cs = {}" and "elect_loop inst (length cs) i (cs, False, -1) = (cs', s, e)"
  shows "same_clients inst cs cs'" and "if s then masters inst cs' = {nat e} \<and> nat e < length cs \<and> eligible (cs' ! nat e)
     else masters inst cs' = {} \<and> (\<forall>c\<in>set cs. \<not> eligible c)"
proof -
  show same: "same_clients inst cs cs'" using elect_loop_same[of inst cs "length cs" i False "-1"] assms(2) by simp
  show "if s then masters inst cs' = {nat e} \<and> nat e < length cs \<and> eligible (cs' ! nat e)
     else masters inst cs' = {} \<and> (\<forall>c\<in>set cs. \<not> eligible c)"
  proof (cases "cs = []")
    case True
    with assms show ?thesis by auto
  next
    case False
    define j where "j = (if length cs \<le> i then 0 else i)"
    have jl: "j \<le> length cs" by (simp add: j_def)
    obtain k where k: "length cs = Suc k" using False by (cases cs) auto
    have norm: "elect_loop inst (length cs) i (cs, False, -1) = elect_loop inst (length cs) j (cs, False, -1)"
      unfolding k by (simp add: elect_loop_Suc[OF refl] j_def)
    have "elect_inv inst (cs, False, -1)" using assms(1) by (simp add: elect_inv_def)
    then have inv: "elect_inv inst (cs', s, e)"
      using elect_loop_once[of inst cs False "-1" "length cs" j] jl assms(2) norm by simp
    show ?thesis
    proof (cases s)
      case True
      with inv same show ?thesis by (auto simp: elect_inv_def same_clients_length)
    next
      case none: False
      have all: "\<forall>t<length cs. \<not> eligible (cs ! ((j + t) mod length cs))"
        using elect_loop_none[of inst "length cs" j cs False "-1"] jl assms(2) norm none by simp
      have "\<not> eligible (cs ! m)" if m: "m < length cs" for m
      proof -
        have "\<exists>t<length cs. (j + t) mod length cs = m"
          using m jl False by (intro ring_cover) auto
        then show ?thesis using all by auto
      qed
      with inv none show ?thesis by (auto simp: elect_inv_def in_set_conv_nth)
    qed
  qed
qed

subsection \<open>One instance\<close>

lemma masters_empty_iff: "masters inst cs = {} \<longleftrightarrow> (\<forall>c\<in>set cs. \<not> is_master inst c)"
  by (auto simp: masters_def set_conv_nth)

lemma finite_masters [simp]: "finite (masters inst cs)"
  by (simp add: masters_def)

lemma masters_one:
  assumes "card (masters inst cs) \<le> 1" and "i \<in> masters inst cs"
  shows "masters inst cs = {i}"
  using assms by (auto simp: card_le_Suc0_iff_eq)

text \<open>The outcome of one election: at most one master, an eligible one if there is any.\<close>

definition elected :: "string \<Rightarrow> LoxiClient list \<Rightarrow> bool" where
  "elected inst cs =
     (if \<exists>c\<in>set cs. eligible c then \<exists>i<length cs. masters inst cs = {i} \<and> eligible (cs ! i)
      else masters inst cs = {})"

lemma elected_card: "elected inst cs \<Longrightarrow> card (masters inst cs) \<le> 1"
  by (auto simp: elected_def split: if_splits)

lemma elected_roles_ok:
  assumes "elected inst cs" and "\<forall>c\<in>set cs. has_key (InstRoles c) inst"
  shows "roles_ok inst cs"
proof -
  have "\<not> is_master inst c" if "c \<in> set cs" "NoRole c" for c
  proof
    assume "is_master inst c"
    with that(1) obtain i where "i \<in> masters inst cs" "c = cs ! i"
      by (auto simp: masters_def in_set_conv_nth)
    with assms(1) that(2) show False by (auto simp: elected_def eligible_def split: if_splits)
  qed
  then show ?thesis using assms elected_card[OF assms(1)] by (auto simp: roles_ok_def)
qed

lemma same_clients_eligible:
  "same_clients inst cs cs' \<Longrightarrow> (\<exists>c\<in>set cs'. eligible c) \<longleftrightarrow> (\<exists>c\<in>set cs. eligible c)"
  by (induction rule: list_all2_induct) (auto simp: kept_fields)

lemma same_clients_has_key:
  "same_clients inst cs cs' \<Longrightarrow> \<forall>c\<in>set cs. has_key (InstRoles c) j \<Longrightarrow> \<forall>c\<in>set cs'. has_key (InstRoles c) j"
  by (induction rule: list_all2_induct) (auto simp: kept_fields)

lemma elect_elected:
  assumes "masters inst cs = {}"
  shows "elected inst (fst (elect_loop inst (length cs) i (cs, False, -1)))"
    and "same_clients inst cs (fst (elect_loop inst (length cs) i (cs, False, -1)))"
proof -
  obtain cs' s e where r: "elect_loop inst (length cs) i (cs, False, -1) = (cs', s, e)"
    by (cases "elect_loop inst (length cs) i (cs, False, -1)")
  note res = elect_loop_result[OF assms r]
  show "same_clients inst cs (fst (elect_loop inst (length cs) i (cs, False, -1)))" using res(1) r by simp
  have len: "length cs' = length cs" using same_clients_length[OF res(1)] .
  show "elected inst (fst (elect_loop inst (length cs) i (cs, False, -1)))"
    using res(2) r len same_clients_eligible[OF res(1)]
    by (cases s) (auto simp: elected_def dest: nth_mem)
qed

lemma elect_pos: "elect_loop inst k i (cs, s, e) = (cs', s', e') \<Longrightarrow> -1 \<le> e \<Longrightarrow> -1 \<le> e'"
proof (induction k arbitrary: i cs s e)
  case (Suc k)
  then show ?case by (auto simp: elect_loop_Suc[OF refl] split: if_splits)
qed simp

lemma scan_clears_dead:
  assumes "card (masters inst cs) \<le> 1" and "\<forall>c\<in>set cs. has_key (InstRoles c) inst"
    and "scan_masters inst cs = (cs1, Some (reElect, hasMaster))" and "reElect \<or> \<not> hasMaster"
  shows "masters inst cs1 = {}" "same_clients inst cs cs1" "\<forall>c\<in>set cs. \<not> (is_master inst c \<and> IsAlive c)"
proof -
  let ?f = "\<lambda>c. if is_master inst c \<and> \<not> IsAlive c then set_role inst False c else c"
  have cs1: "cs1 = map ?f cs" and re: "reElect \<longleftrightarrow> (\<exists>c\<in>set cs. is_master inst c \<and> \<not> IsAlive c)"
    and has: "hasMaster \<longleftrightarrow> (\<exists>c\<in>set cs. is_master inst c \<and> IsAlive c)"
    using assms(3) by (auto simp: scan_masters_map[OF assms(2)])
  show "same_clients inst cs cs1" unfolding cs1 by (auto simp: list_all2_conv_all_nth)
  have no: "\<not> (is_master inst c \<and> IsAlive c)" if "c \<in> set cs" for c
  proof
    assume c: "is_master inst c \<and> IsAlive c"
    with that assms(4) has have reElect by blast
    with re obtain d where d: "d \<in> set cs" "is_master inst d" "\<not> IsAlive d" by blast
    from c d that obtain i j where ij: "i \<in> masters inst cs" "j \<in> masters inst cs" "cs ! i = c" "cs ! j = d"
      by (auto simp: masters_def in_set_conv_nth)
    then have "i = j" using masters_one[OF assms(1)] by blast
    with ij c d show False by simp
  qed
  then show "masters inst cs1 = {}" unfolding masters_empty_iff cs1 by auto
  show "\<forall>c\<in>set cs. \<not> (is_master inst c \<and> IsAlive c)" using no by blast
qed

lemma scan_keeps:
  assumes "card (masters inst cs) \<le> 1" and "\<forall>c\<in>set cs. has_key (InstRoles c) inst \<and> (NoRole c \<longrightarrow> \<not> is_master inst c)"
    and "scan_masters inst cs = (cs1, Some (False, True))"
  shows "cs1 = cs" "elected inst cs"
proof -
  have keys: "\<forall>c\<in>set cs. has_key (InstRoles c) inst" using assms(2) by blast
  note scan = scan_masters_map[OF keys]
  have no: "\<not> (is_master inst c \<and> \<not> IsAlive c)" if "c \<in> set cs" for c
    using assms(3) that by (auto simp: scan)
  then show "cs1 = cs" using assms(3) by (auto simp: scan intro!: map_idI)
  obtain i where i: "i < length cs" "is_master inst (cs ! i)" "IsAlive (cs ! i)"
    using assms(3) by (auto simp: scan set_conv_nth)
  then have one: "masters inst cs = {i}" using assms(1) by (intro masters_one) (auto simp: masters_def)
  have el: "eligible (cs ! i)" using i assms(2) by (auto simp: eligible_def)
  then have "\<exists>c\<in>set cs. eligible c" using i by auto
  then show "elected inst cs" using one el i unfolding elected_def by auto
qed

lemma select_inst_elects:
  assumes "roles_ok inst cs" and "0 \<le> selhint"
  shows "\<exists>cs' sel pos. SelectInstLoxiLBRoles inst selhint cs = Ret (cs', sel, pos) \<and> elected inst cs' \<and>
    same_clients inst cs cs' \<and> -1 \<le> pos \<and> ((\<exists>c\<in>set cs. is_master inst c \<and> eligible c) \<longrightarrow> cs' = cs \<and> \<not> sel)"
proof -
  have keys: "\<forall>c\<in>set cs. has_key (InstRoles c) inst" and card: "card (masters inst cs) \<le> 1"
    using assms(1) by (auto simp: roles_ok_def)
  obtain cs1 re has where sc: "scan_masters inst cs = (cs1, Some (re, has))"
    using scan_masters_map[OF keys] by blast
  have flags: "re \<longleftrightarrow> (\<exists>c\<in>set cs. is_master inst c \<and> \<not> IsAlive c)"
    "has \<longleftrightarrow> (\<exists>c\<in>set cs. is_master inst c \<and> IsAlive c)"
    using sc by (auto simp: scan_masters_map[OF keys])
  show ?thesis
  proof (cases "re \<or> \<not> has")
    case True
    note clear = scan_clears_dead[OF card keys sc True]
    obtain cs' sel pos where r: "elect_loop inst (length cs1) (nat selhint) (cs1, False, -1) = (cs', sel, pos)"
      by (cases "elect_loop inst (length cs1) (nat selhint) (cs1, False, -1)")
    have "-1 \<le> pos" using elect_pos[OF r] by simp
    moreover have "elected inst cs'" "same_clients inst cs1 cs'"
      using elect_elected[OF clear(1), of "nat selhint"] r by auto
    moreover have "\<not> (\<exists>c\<in>set cs. is_master inst c \<and> eligible c)"
      using clear(3) by (auto simp: eligible_def)
    ultimately show ?thesis
      using sc True assms(2) r same_clients_trans[OF clear(2)]
      by (auto simp: SelectInstLoxiLBRoles_def)
  next
    case False
    have "cs1 = cs" "elected inst cs"
      using scan_keeps[OF card, of cs1] assms(1) sc False by (auto simp: roles_ok_def)
    with sc False show ?thesis by (auto simp: SelectInstLoxiLBRoles_def)
  qed
qed

text \<open>
  The election for one zone instance. With a non-negative hint it does not panic; afterwards the
  instance has exactly one master, which is alive and takes roles, whenever such a client
  exists, and none otherwise. Nothing but the roles of this instance changes, and when the
  current master is alive nothing changes at all.
\<close>

theorem select_inst_elects_one_master:
  assumes "roles_ok inst cs" and "0 \<le> selhint"
  shows "\<exists>cs' sel pos. SelectInstLoxiLBRoles inst selhint cs = Ret (cs', sel, pos) \<and> elected inst cs' \<and>
    same_clients inst cs cs' \<and> -1 \<le> pos \<and> ((\<exists>c\<in>set cs. is_master inst c \<and> eligible c) \<longrightarrow> cs' = cs \<and> \<not> sel)"
  by (rule select_inst_elects[OF assms])

subsection \<open>All instances\<close>

text \<open>
  What the loop over the instances relies on: running the election of an instance in a sound
  state with a non-negative hint returns, achieves the goal of that instance, keeps the state
  sound, and leaves both the soundness and the goal of the other instances alone.
\<close>

locale instance_election =
  fixes run :: "'i \<Rightarrow> int \<Rightarrow> 's \<Rightarrow> ('s \<times> bool \<times> int) go"
    and ok :: "'i \<Rightarrow> 's \<Rightarrow> bool"
    and goal :: "'i \<Rightarrow> 's \<Rightarrow> bool"
  assumes run_law: "ok i s \<Longrightarrow> 0 \<le> h \<Longrightarrow> \<exists>s' b p. run i h s = Ret (s', b, p) \<and> ok i s' \<and> goal i s' \<and> -1 \<le> p"
    and ok_frame: "run i h s = Ret (s', b, p) \<Longrightarrow> j \<noteq> i \<Longrightarrow> ok j s \<Longrightarrow> ok j s'"
    and goal_frame: "run i h s = Ret (s', b, p) \<Longrightarrow> j \<noteq> i \<Longrightarrow> goal j s \<Longrightarrow> goal j s'"
begin

lemma loop_goals:
  assumes "distinct (map fst insts)" and "\<forall>(i, n)\<in>set insts. 0 \<le> n \<and> ok i s" and "-1 \<le> h"
  shows "\<exists>s' m'. hint_loop run insts h m s = Ret (s', m') \<and>
    (\<forall>i\<in>fst ` set insts. ok i s' \<and> goal i s') \<and>
    (\<forall>j. j \<notin> fst ` set insts \<longrightarrow> (ok j s \<longrightarrow> ok j s') \<and> (goal j s \<longrightarrow> goal j s'))"
  using assms
proof (induction insts arbitrary: s h m)
  case (Cons p insts)
  obtain i n where p: "p = (i, n)" by (cases p)
  let ?h = "if h = 0 then n else h + 1"
  have "ok i s" "0 \<le> ?h" using Cons.prems p by auto
  then obtain s1 b q where r: "run i ?h s = Ret (s1, b, q)" "ok i s1" "goal i s1" "-1 \<le> q"
    using run_law by blast
  have rest: "\<forall>(j, n)\<in>set insts. 0 \<le> n \<and> ok j s1"
  proof clarify
    fix j n' assume j: "(j, n') \<in> set insts"
    then have "j \<noteq> i" using Cons.prems(1) p by (auto simp: rev_image_eqI)
    with j Cons.prems(2) ok_frame[OF r(1)] show "0 \<le> n' \<and> ok j s1" by auto
  qed
  obtain s2 m2 where l: "hint_loop run insts q (m \<or> b) s1 = Ret (s2, m2)"
    "\<forall>i\<in>fst ` set insts. ok i s2 \<and> goal i s2"
    "\<forall>j. j \<notin> fst ` set insts \<longrightarrow> (ok j s1 \<longrightarrow> ok j s2) \<and> (goal j s1 \<longrightarrow> goal j s2)"
    using Cons.IH[OF _ rest r(4)] Cons.prems(1) by fastforce
  have i: "i \<notin> fst ` set insts" using Cons.prems(1) p by auto
  have "ok i s2 \<and> goal i s2" using l(3) i r(2,3) by blast
  moreover have "(ok j s \<longrightarrow> ok j s2) \<and> (goal j s \<longrightarrow> goal j s2)" if "j \<notin> fst ` set (p # insts)" for j
    using that p l(3) ok_frame[OF r(1)] goal_frame[OF r(1)] by auto
  ultimately show ?case using r(1) l(1,2) p by auto
qed auto

end

lemma scan_same: "same_clients inst cs (fst (scan_masters inst cs))"
  by (induction cs) (auto split: option.splits prod.splits)

lemma select_inst_same:
  assumes "SelectInstLoxiLBRoles inst h cs = Ret (cs', b, p)"
  shows "same_clients inst cs cs'"
proof -
  obtain cs1 r where sc: "scan_masters inst cs = (cs1, r)" by fastforce
  then have s1: "same_clients inst cs cs1" using scan_same[of inst cs] by simp
  show ?thesis
  proof (cases r)
    case None
    then show ?thesis using assms sc s1 by (auto simp: SelectInstLoxiLBRoles_def)
  next
    case (Some f)
    have "same_clients inst cs1 cs' \<or> cs' = cs1"
      using assms sc Some elect_loop_same[of inst cs1 "length cs1" "nat h" False "-1"]
      by (auto simp: SelectInstLoxiLBRoles_def split: if_splits prod.splits)
    then show ?thesis using s1 same_clients_trans by blast
  qed
qed

lemma roles_ok_frame: "same_clients inst cs cs' \<Longrightarrow> j \<noteq> inst \<Longrightarrow> roles_ok j cs \<Longrightarrow> roles_ok j cs'"
proof -
  assume s: "same_clients inst cs cs'" and j: "j \<noteq> inst" and ok: "roles_ok j cs"
  from s have "(\<forall>c\<in>set cs. has_key (InstRoles c) j \<and> (NoRole c \<longrightarrow> \<not> is_master j c)) \<Longrightarrow>
    (\<forall>c\<in>set cs'. has_key (InstRoles c) j \<and> (NoRole c \<longrightarrow> \<not> is_master j c))"
    using j by (induction rule: list_all2_induct) (auto simp: kept_fields)
  then show ?thesis using ok masters_other[OF s j] by (simp add: roles_ok_def)
qed

lemma elected_frame:
  assumes "same_clients inst cs cs'" and "j \<noteq> inst" and "elected j cs"
  shows "elected j cs'"
proof (cases "\<exists>c\<in>set cs. eligible c")
  case True
  with assms(3) obtain i where i: "i < length cs" "masters j cs = {i}" "eligible (cs ! i)"
    unfolding elected_def by auto
  moreover have "eligible (cs' ! i)"
    using i kept_fields(4)[OF same_clients_nth[OF assms(1) i(1)]] by simp
  ultimately show ?thesis
    using True same_clients_eligible[OF assms(1)] masters_other[OF assms(1,2)] same_clients_length[OF assms(1)]
    unfolding elected_def by auto
next
  case False
  with assms(3) show ?thesis
    using same_clients_eligible[OF assms(1)] masters_other[OF assms(1,2)] unfolding elected_def by simp
qed

interpretation roles: instance_election SelectInstLoxiLBRoles roles_ok elected
proof
  fix inst h cs
  assume ok: "roles_ok inst cs" and h: "(0 :: int) \<le> h"
  have keys: "\<forall>c\<in>set cs. has_key (InstRoles c) inst" using ok by (simp add: roles_ok_def)
  obtain cs' sel pos where r: "SelectInstLoxiLBRoles inst h cs = Ret (cs', sel, pos)" "elected inst cs'"
    "same_clients inst cs cs'" "-1 \<le> pos"
    using select_inst_elects[OF ok h] by blast
  then show "\<exists>s' b p. SelectInstLoxiLBRoles inst h cs = Ret (s', b, p) \<and> roles_ok inst s' \<and> elected inst s' \<and> -1 \<le> p"
    using elected_roles_ok[OF r(2) same_clients_has_key[OF r(3) keys]] by blast
next
  fix i h s s' b p j
  assume r: "SelectInstLoxiLBRoles i h s = Ret (s', b, p)" and j: "j \<noteq> i"
  show "roles_ok j s \<Longrightarrow> roles_ok j s'" by (rule roles_ok_frame[OF select_inst_same[OF r] j])
  show "elected j s \<Longrightarrow> elected j s'" by (rule elected_frame[OF select_inst_same[OF r] j])
qed

definition cleared :: "LoxiClient \<Rightarrow> LoxiClient" where
  "cleared c = c\<lparr>InstRoles := map (\<lambda>(i, _). (i, False)) (InstRoles c)\<rparr>"

lemma map_of_cleared: "map_of (map (\<lambda>(i, _). (i, False)) xs) j = map_option (\<lambda>_. False) (map_of xs j)"
  by (induction xs) auto

lemma roles_ok_cleared: "roles_ok inst cs \<Longrightarrow> roles_ok inst (map cleared cs)"
proof -
  assume ok: "roles_ok inst cs"
  have no: "\<not> is_master inst (cleared c)" for c by (auto simp: is_master_def cleared_def map_of_cleared)
  then have "masters inst (map cleared cs) = {}" by (auto simp: masters_empty_iff)
  with ok no show ?thesis by (auto simp: roles_ok_def has_key_def cleared_def map_of_cleared)
qed

lemma reset_roles_ok:
  "roles_ok inst cs \<Longrightarrow> roles_ok inst (fst (ResetRolesOnNeedRebalanceInstLoxiLBRoles n ex cs))"
  using roles_ok_cleared[of inst cs]
  by (simp add: ResetRolesOnNeedRebalanceInstLoxiLBRoles_def Let_def cleared_def[abs_def])

lemma select_roles_elects:
  assumes "distinct (map fst zmap)" and "\<forall>(i, n)\<in>set zmap. 0 \<le> n \<and> roles_ok i cs" and "setRoles \<noteq> []"
  shows "\<exists>cs' sel sig. SelectLoxiLBRoles zmap setRoles exclIPAM send cs = Ret (cs', sel, sig) \<and>
    (\<forall>i\<in>fst ` set zmap. roles_ok i cs' \<and> elected i cs')"
proof -
  let ?cs = "fst (ResetRolesOnNeedRebalanceInstLoxiLBRoles (length zmap) exclIPAM cs)"
  have "\<forall>(i, n)\<in>set zmap. 0 \<le> n \<and> roles_ok i ?cs" using assms(2) reset_roles_ok by fastforce
  then obtain cs' m where "hint_loop SelectInstLoxiLBRoles zmap 0 False ?cs = Ret (cs', m)"
    and goals: "\<forall>i\<in>fst ` set zmap. roles_ok i cs' \<and> elected i cs'"
    using roles.loop_goals[OF assms(1), of ?cs 0 False] by auto
  then have "SelectLoxiLBRoles zmap setRoles exclIPAM send cs = Ret (cs', m, m \<and> send)"
    using assms(3) by (simp add: SelectLoxiLBRoles_def)
  with goals show ?thesis by blast
qed

text \<open>
  C34. The election over all zone instances returns, in whatever order the instances are visited
  and also when the roles are reset for rebalancing first, and every instance then has exactly
  one master, alive and taking roles, whenever such a client exists.
\<close>

theorem select_roles_all_instances:
  assumes "distinct (map fst zmap)" and "\<forall>(i, n)\<in>set zmap. 0 \<le> n \<and> roles_ok i cs" and "setRoles \<noteq> []"
  shows "\<exists>cs' sel sig. SelectLoxiLBRoles zmap setRoles exclIPAM send cs = Ret (cs', sel, sig) \<and>
    (\<forall>i\<in>fst ` set zmap. elected i cs')"
  using select_roles_elects[OF assms, of exclIPAM send] by blast

subsection \<open>The life of the role table\<close>

lemma card_masters: "card (masters inst cs) = length (filter (is_master inst) cs)"
  by (simp add: masters_def length_filter_conv_card)

text \<open>
  What happens to the clients of a manager: a client is created for a URL or a discovered
  address, clients are marked and purged, a health check changes a client, and an election runs over the
  instances in some order.
\<close>

inductive role_reach :: "'a loxilib \<Rightarrow> string \<Rightarrow> int \<Rightarrow> LoxiClient list \<Rightarrow> bool" for tk zone num where
  start: "role_reach tk zone num []"
| join: "role_reach tk zone num cs \<Longrightarrow>
    NewLoxiClient tk url_Parse certs now apiServer peerOnly noRole name zone num = Inr c \<Longrightarrow>
    role_reach tk zone num (AddLoxiClient c cs)"
| mark: "role_reach tk zone num cs \<Longrightarrow> role_reach tk zone num (map (\<lambda>c. c\<lparr>Purge := marked c\<rparr>) cs)"
| purge: "role_reach tk zone num cs \<Longrightarrow> role_reach tk zone num (filter P cs)"
| health: "role_reach tk zone num cs \<Longrightarrow> i < length cs \<Longrightarrow>
    role_reach tk zone num (cs[i := fst (health_tick now err (cs ! i))])"
| elect: "role_reach tk zone num cs \<Longrightarrow> mset zmap = mset (zone_inst_map zone num) \<Longrightarrow>
    SelectLoxiLBRoles zmap setRoles exclIPAM send cs = Ret (cs', sel, sig) \<Longrightarrow> role_reach tk zone num cs'"

lemma fold_roles_keys:
  "map_of (fold (\<lambda>i. AList.update (f i) False) ns m) j =
     (if j \<in> f ` set ns then Some False else map_of m j)"
  by (induction ns arbitrary: m) (auto simp: update_conv')

lemma NewLoxiClient_roles:
  assumes "NewLoxiClient tk u ce now a po nr nm zone num = Inr c"
  shows "i < nat num \<Longrightarrow> map_of (InstRoles c) (GenZoneInstName zone (int i)) = Some False"
    and "\<not> is_master inst c"
proof -
  have r: "InstRoles c = fold (\<lambda>i. AList.update (GenZoneInstName zone (int i)) False) [0..<nat num] []"
    using assms by (auto simp: NewLoxiClient_def Let_def split: sum.splits prod.splits if_splits)
  show "i < nat num \<Longrightarrow> map_of (InstRoles c) (GenZoneInstName zone (int i)) = Some False"
    unfolding r by (simp add: fold_roles_keys image_iff) (metis atLeastLessThan_iff zero_le)
  show "\<not> is_master inst c" unfolding is_master_def r by (simp add: fold_roles_keys)
qed

lemma zone_inst_map_keys: "(i, n) \<in> set (zone_inst_map zone num) \<Longrightarrow> \<exists>m<nat num. i = GenZoneInstName zone (int m) \<and> n = int m"
  by (auto simp: zone_inst_map_def)

lemma distinct_zone_inst_map: "distinct (map fst (zone_inst_map zone num))"
  by (auto simp: zone_inst_map_def distinct_map comp_def inj_on_def GenZoneInstName_def dec_of_int_def)

lemma roles_ok_join:
  assumes "roles_ok inst cs" and "has_key (InstRoles c) inst" and "\<not> is_master inst c"
  shows "roles_ok inst (AddLoxiClient c cs)"
  using assms by (auto simp: roles_ok_def AddLoxiClient_def card_masters)

lemma roles_ok_mark:
  assumes "roles_ok inst cs"
  shows "roles_ok inst (map (\<lambda>c. c\<lparr>Purge := marked c\<rparr>) cs)"
proof -
  have "masters inst (map (\<lambda>c. c\<lparr>Purge := marked c\<rparr>) cs) = masters inst cs"
    by (auto simp: masters_def is_master_def)
  with assms show ?thesis by (auto simp: roles_ok_def is_master_def)
qed

lemma roles_ok_filter:
  assumes "roles_ok inst cs"
  shows "roles_ok inst (filter P cs)"
proof -
  have "length (filter (is_master inst) (filter P cs)) \<le> length (filter (is_master inst) cs)"
    by (induction cs) auto
  with assms show ?thesis by (auto simp: roles_ok_def card_masters simp del: filter_filter)
qed

lemma roles_ok_health:
  assumes "roles_ok inst cs" and "i < length cs"
  shows "roles_ok inst (cs[i := fst (health_tick now err (cs ! i))])"
proof -
  let ?c = "fst (health_tick now err (cs ! i))"
  have c: "InstRoles ?c = InstRoles (cs ! i)" "NoRole ?c = NoRole (cs ! i)"
    by (auto simp: health_tick_def)
  have "masters inst (cs[i := ?c]) = masters inst cs"
    using assms(2) c by (auto simp: masters_def nth_list_update is_master_def)
  moreover have "\<forall>d\<in>set (cs[i := ?c]). has_key (InstRoles d) inst \<and> (NoRole d \<longrightarrow> \<not> is_master inst d)"
    using assms c nth_mem[OF assms(2)] set_update_subset_insert[of cs i ?c]
    by (auto simp: roles_ok_def is_master_def)
  ultimately show ?thesis using assms(1) by (simp add: roles_ok_def)
qed

lemma role_reach_ok:
  assumes "role_reach tk zone num cs"
  shows "\<forall>(i, n)\<in>set (zone_inst_map zone num). 0 \<le> n \<and> roles_ok i cs"
  using assms
proof induction
  case start
  then show ?case by (auto simp: roles_ok_def masters_def zone_inst_map_def)
next
  case (join cs u ce now a po nr nm c)
  show ?case
  proof clarify
    fix i n assume "(i, n) \<in> set (zone_inst_map zone num)"
    moreover from this obtain m where "m < nat num" "i = GenZoneInstName zone (int m)"
      using zone_inst_map_keys by blast
    ultimately show "0 \<le> n \<and> roles_ok i (AddLoxiClient c cs)"
      using join.IH NewLoxiClient_roles(1)[OF join.hyps(2), of m] NewLoxiClient_roles(2)[OF join.hyps(2)]
      by (auto intro!: roles_ok_join simp: has_key_def)
  qed
next
  case (mark cs marked)
  then show ?case by (auto intro: roles_ok_mark)
next
  case (purge cs P)
  then show ?case by (auto intro: roles_ok_filter)
next
  case (health cs i now err)
  then show ?case by (auto intro: roles_ok_health)
next
  case (elect cs zmap setRoles exclIPAM send cs' sel sig)
  have z: "set zmap = set (zone_inst_map zone num)" "distinct (map fst zmap)"
    using elect.hyps(2) distinct_zone_inst_map[of zone num]
    by (metis mset_eq_setD, metis mset_map mset_eq_imp_distinct_iff)
  show ?case
  proof (cases "setRoles = []")
    case True
    with elect.hyps(3) elect.IH show ?thesis by (auto simp: SelectLoxiLBRoles_def)
  next
    case False
    have "\<forall>(i, n)\<in>set zmap. 0 \<le> n \<and> roles_ok i cs" using elect.IH z by simp
    from select_roles_elects[OF z(2) this False, of exclIPAM send] elect.hyps(3)
    have "\<forall>i\<in>fst ` set zmap. roles_ok i cs'" by auto
    then show ?thesis using z(1) elect.IH by (auto simp: rev_image_eqI) 
  qed
qed

text \<open>
  C11. No instance ever has two masters: in every state of the client list that is reached by
  creating clients, marking and purging clients, health checks and elections, in any order, each zone
  instance has at most one master, and a client excluded from roles is never master.
\<close>

theorem never_two_masters:
  assumes "role_reach tk zone num cs" and "(inst, n) \<in> set (zone_inst_map zone num)"
  shows "card (masters inst cs) \<le> 1 \<and> (\<forall>c\<in>set cs. NoRole c \<longrightarrow> \<not> is_master inst c)"
  using role_reach_ok[OF assms(1)] assms(2) by (auto simp: roles_ok_def)

subsection \<open>Examples\<close>

definition demo_pair :: "LoxiClient list" where
  "demo_pair = [demo_client\<lparr>IsAlive := False\<rparr>,
     demo_client\<lparr>InstRoles := [(''llb-inst0'', False)], Host := ''12.12.12.2''\<rparr>]"

lemma demo_pair_ok: "roles_ok ''llb-inst0'' demo_pair"
  by (simp add: roles_ok_def card_masters demo_pair_def demo_client_def has_key_iff is_master_def)

theorem select_inst_elects_one_master_witness:
  "\<exists>cs' sel pos. SelectInstLoxiLBRoles ''llb-inst0'' 0 demo_pair = Ret (cs', sel, pos) \<and> elected ''llb-inst0'' cs' \<and>
     same_clients ''llb-inst0'' demo_pair cs'"
proof -
  have "(0 :: int) \<le> 0" by simp
  from select_inst_elects_one_master[OF demo_pair_ok this] show ?thesis by blast
qed

theorem select_roles_all_instances_witness:
  "\<exists>cs' sel sig. SelectLoxiLBRoles [(''llb-inst0'', 0)] ''1.1.1.1'' False True demo_pair = Ret (cs', sel, sig) \<and>
     elected ''llb-inst0'' cs'"
proof -
  have "distinct (map fst [(''llb-inst0'', 0 :: int)])" by simp
  moreover have "\<forall>(i, n)\<in>set [(''llb-inst0'', 0 :: int)]. 0 \<le> n \<and> roles_ok i demo_pair" using demo_pair_ok by simp
  moreover have "''1.1.1.1'' \<noteq> []" by simp
  ultimately have "\<exists>cs' sel sig. SelectLoxiLBRoles [(''llb-inst0'', 0)] ''1.1.1.1'' False True demo_pair = Ret (cs', sel, sig) \<and>
     (\<forall>i\<in>fst ` set [(''llb-inst0'', 0 :: int)]. elected i cs')"
    by (rule select_roles_all_instances)
  then show ?thesis by simp
qed

text \<open>Two clients are made, come up and take part in an election.\<close>

definition made_client :: "string \<Rightarrow> error + LoxiClient" where
  "made_client u = NewLoxiClient list_ipam (\<lambda>s. Inr (''http'', drop 7 s)) True 0 u False False [] ''llb'' 1"

theorem never_two_masters_witness:
  "\<exists>c d cs sel sig. made_client ''http://12.12.12.1:11111'' = Inr c \<and> made_client ''http://12.12.12.2:11111'' = Inr d \<and>
     SelectLoxiLBRoles (zone_inst_map ''llb'' 1) ''1.1.1.1'' False True [fst (health_tick 1 None c), fst (health_tick 2 None d)] =
       Ret (cs, sel, sig) \<and> length cs = 2 \<and> card (masters (GenZoneInstName ''llb'' 0) cs) = 1"
proof -
  let ?inst = "GenZoneInstName ''llb'' 0"
  let ?elect = "\<lambda>c d. SelectLoxiLBRoles (zone_inst_map ''llb'' 1) ''1.1.1.1'' False True [fst (health_tick 1 None c), fst (health_tick 2 None d)]"
  have "case (made_client ''http://12.12.12.1:11111'', made_client ''http://12.12.12.2:11111'') of
      (Inr c, Inr d) \<Rightarrow> (case ?elect c d of Ret (cs, _) \<Rightarrow> length cs = 2 \<and> list_ex (is_master ?inst) cs | _ \<Rightarrow> False)
    | _ \<Rightarrow> False" by code_simp
  then obtain c d cs sel sig where c: "made_client ''http://12.12.12.1:11111'' = Inr c" and d: "made_client ''http://12.12.12.2:11111'' = Inr d"
    and e: "?elect c d = Ret (cs, sel, sig)" and cs: "length cs = 2" "\<exists>x\<in>set cs. is_master ?inst x"
    by (fastforce simp: list_ex_iff split: sum.splits go.splits)
  have "role_reach list_ipam ''llb'' 1 [c, d]"
    using role_reach.join[OF role_reach.join[OF role_reach.start c[unfolded made_client_def]] d[unfolded made_client_def]]
    by (simp add: AddLoxiClient_def)
  then have "role_reach list_ipam ''llb'' 1 [fst (health_tick 1 None c), fst (health_tick 2 None d)]"
    using role_reach.health[of list_ipam "''llb''" 1 "[c, d]" 0 1 None]
      role_reach.health[of list_ipam "''llb''" 1 "[fst (health_tick 1 None c), d]" 1 2 None] by simp
  from role_reach.elect[OF this refl e] have "role_reach list_ipam ''llb'' 1 cs" .
  moreover have "(?inst, 0) \<in> set (zone_inst_map ''llb'' 1)" by (simp add: zone_inst_map_def)
  ultimately have "card (masters ?inst cs) \<le> 1" using never_two_masters[of list_ipam "''llb''" 1 cs ?inst 0] by blast
  moreover have "card (masters ?inst cs) \<noteq> 0"
    using cs(2) by (auto simp: card_masters filter_empty_conv)
  ultimately show ?thesis using c d e cs(1) by (metis One_nat_def le_Suc_eq le_zero_eq)
qed

end
