(* ===== verification/Lb_Model.thy ===== *)
theory Lb_Model
  imports K8s_Model Roles
begin

text \<open>
  The data of the load-balancer manager (\<open>loadbalancer.go\<close>) and its pure parts: the
  options read from a service's annotations, the mTLS configuration, the external addresses of
  a service, and the rule that is sent to loxilb.

  The environment \<open>lb_env\<close> collects what the manager calls: loxilib, the Kubernetes queries,
  \<open>errors.Wrap\<close>, and the answers of the loxilb instances, a function of the calls made so
  far, the URL of the instance and the call. The manager's state holds the pools in a store;
  a \<open>*IPPool\<close> is an index into it, so that two tables or cache entries may share a pool.
\<close>

record NetworkConfig =
  cfg_LoxilbURLs :: "string list"
  cfg_LoxilbLoadBalancerClass :: string
  cfg_LoxilbGatewayClass :: string
  cfg_ExternalCIDRPoolDefs :: "string list"
  cfg_ExternalCIDR6PoolDefs :: "string list"
  cfg_SetBGP :: "16 word"
  cfg_ListenBGPPort :: "16 word"
  cfg_EBGPMultiHop :: bool
  cfg_ExtBGPPeers :: "string list"
  cfg_SetLBMode :: "16 word"
  cfg_Monitor :: bool
  cfg_AppendEPs :: bool
  cfg_SetRoles :: string
  cfg_Zone :: string
  cfg_PrivateCIDR :: string
  cfg_ExclIPAM :: bool
  cfg_NumZoneInst :: int
  cfg_UsePodNetwork :: bool
  cfg_UseExternalEndpoint :: bool

record 'a lb_env =
  e_tk :: "'a loxilib"
  e_kube :: kube
  e_cfg :: NetworkConfig
  e_Wrap :: "error option \<Rightarrow> string \<Rightarrow> error option"
  e_answer :: "(string \<times> api_call) list \<Rightarrow> string \<Rightarrow> api_call \<Rightarrow> error option"

record SvcPair =
  IPString :: string
  pr_Port :: int
  pr_Protocol :: string
  pr_InRange :: bool
  pr_StaticIP :: bool
  pr_IdentIPAM :: string
  IPAllocd :: bool
  K8sSvcPort :: ServicePort

record LbServicePairEntry =
  se_ExternalIP :: string
  se_Port :: "16 word"
  se_Protocol :: string
  se_StaticIP :: bool
  se_InRange :: bool
  se_IdentIPAM :: string
  se_LbModelList :: "LoadBalancerModel list"

record LbCacheEntry =
  ce_LbMode :: int
  ce_Timeout :: int
  ce_ActCheck :: bool
  ce_PrefLocal :: bool
  ce_ppv2En :: bool
  ce_egress :: bool
  ce_Inst :: string
  ce_Addr :: string
  ce_State :: string
  ce_NodeLabel :: string
  ce_ProbeType :: string
  ce_ProbePort :: "16 word"
  ce_ProbeReq :: string
  ce_ProbeResp :: string
  ce_ProbeTimeo :: "32 word"
  ce_ProbeRetries :: int
  ce_EpSelect :: nat
  ce_IPPool :: nat
  ce_SIPPools :: "nat list"
  ce_SecIPs :: "string list"
  ce_LbServicePairs :: "(string \<times> LbServicePairEntry) list"

record 'a Manager =
  LoxiClients :: "LoxiClient list"
  LoxiPeerClients :: "LoxiClient list"
  ElectionRunOnce :: bool
  lbCache :: "(string \<times> LbCacheEntry) list"
  poolStore :: "'a IPPool list"
  ipPoolTbl :: "(string \<times> nat) list"
  ip6PoolTbl :: "(string \<times> nat) list"
  zoneInstRoleMap :: "(string \<times> int) list"
  loxiInstAddrMap :: "(string \<times> IP) list"
  zoneInstSelHint :: int
  apiLog :: "(string \<times> api_call) list"
  statusLog :: "Service list"

record LbArgs =
  a_externalIP :: string
  a_privateIP :: string
  a_livenessCheck :: bool
  a_lbMode :: int
  a_timeout :: int
  a_sel :: nat
  a_probeType :: string
  a_probePort :: "16 word"
  a_probeReq :: string
  a_probeResp :: string
  a_probeTimeo :: "32 word"
  a_probeRetries :: int
  a_secIPs :: "string list"
  a_endpointIPs :: "string list"
  a_needMultusEP :: bool
  a_usePodNetwork :: bool
  a_useExternalEndpoint :: bool
  a_inst :: string
  a_ppv2En :: bool
  a_egress :: bool
  a_mtlsFrontend :: "MtlsFrontend option"
  a_mtlsBackend :: "MtlsBackend option"

text \<open>The local variables of \<open>addLoadBalancer\<close> that the annotations decide.\<close>

record LbOpts =
  o_needMultusEP :: bool
  o_addrType :: string
  o_epAddrType :: string
  o_ipPool :: nat
  o_sipPools :: "nat list"
  o_hasSharedPool :: bool
  o_numSecondarySvc :: nat
  o_secIPs :: "string list"
  o_usePodNet :: bool
  o_useExternalEndpoint :: bool
  o_enProxyProtov2 :: bool
  o_isEgress :: bool
  o_mtlsFrontend :: "MtlsFrontend option"
  o_mtlsBackend :: "MtlsBackend option"
  o_overrideZoneInst :: string
  o_matchNodeLabel :: string
  o_prefLocal :: bool
  o_timeout :: int
  o_lbMode :: int
  o_livenessCheck :: bool
  o_probeType :: string
  o_probePort :: int
  o_probeReq :: string
  o_probeResp :: string
  o_probeTimeout :: "32 word"
  o_probeRetries :: int
  o_epSelect :: nat

definition annot :: "Service \<Rightarrow> string \<Rightarrow> string" where
  "annot svc key = map_str (sv_Annotations svc) key"

subsection \<open>Options from annotations\<close>

definition addr_type :: "Service \<Rightarrow> string" where
  "addr_type svc =
     (let lba = annot svc ''loxilb.io/ipam'' in
      if lba \<in> set [''ipv6'', ''ip6'', ''nat66''] then ''ipv6''
      else if lba \<in> set [''ipv6to4'', ''nat64''] then ''ipv6to4'' else ''ipv4'')"

definition pool_tbl :: "'a Manager \<Rightarrow> string \<Rightarrow> (string \<times> nat) list" where
  "pool_tbl m addrType = (if addrType = ''ipv6'' \<or> addrType = ''ipv6to4'' then ip6PoolTbl m else ipPoolTbl m)"

text \<open>\<open>None\<close> is the nil pool of a missing default pool; the left value is the error.\<close>

definition select_pool :: "'a Manager \<Rightarrow> Service \<Rightarrow> error + nat option" where
  "select_pool m svc =
     (let tbl = pool_tbl m (addr_type svc); pn = annot svc ''loxilb.io/poolSelect'' in
      if pn \<noteq> [] then
        (case map_of tbl pn of Some p \<Rightarrow> Inr (Some p) | None \<Rightarrow> Inl (pn @ '' pool not found''))
      else Inr (map_of tbl ''defaultPool''))"

fun find_pools :: "(string \<times> nat) list \<Rightarrow> string list \<Rightarrow> error + nat list" where
  "find_pools tbl [] = Inr []"
| "find_pools tbl (s # ss) =
     (case map_of tbl s of
        None \<Rightarrow> Inl (s @ '' secondary pool not found'')
      | Some p \<Rightarrow> map_sum (\<lambda>e. e) (\<lambda>ps. p # ps) (find_pools tbl ss))"

definition select_sec_pools :: "'a Manager \<Rightarrow> Service \<Rightarrow> error + nat list" where
  "select_sec_pools m svc =
     (let spn = annot svc ''loxilb.io/poolSelectSecondary'' in
      if spn \<noteq> [] then find_pools (pool_tbl m (addr_type svc)) (split_on CHR '','' spn) else Inr [])"

definition sec_ips :: "Service \<Rightarrow> string list" where
  "sec_ips svc =
     (let s = annot svc ''loxilb.io/secondaryIPs''; ips = split_on CHR '','' s in
      if s = [] \<or> 4 \<le> length ips \<or> list_ex (\<lambda>ip. ParseIP ip = []) ips then [] else ips)"

definition yes_no :: "bool \<Rightarrow> string \<Rightarrow> bool" where
  "yes_no dflt s = (if s = ''yes'' then True else if s = ''no'' then False else dflt)"

definition opt_timeout :: "Service \<Rightarrow> int" where
  "opt_timeout svc =
     (let t = annot svc ''loxilb.io/timeout'' in
      if t \<noteq> [] then (case Atoi t of Some n \<Rightarrow> n | None \<Rightarrow> 30 * 60) else 30 * 60)"

definition opt_lbMode :: "Service \<Rightarrow> int" where
  "opt_lbMode svc =
     (let lbm = annot svc ''loxilb.io/lbmode'' in
      if lbm = ''hostonearm'' then 5
      else if lbm = ''fullproxy'' then 4
      else if lbm = ''dsr'' then 3
      else if lbm = ''fullnat'' then 2
      else if lbm = ''onearm'' then 1
      else if lbm = ''default'' then 0
      else -1)"

definition opt_probeType :: "Service \<Rightarrow> string" where
  "opt_probeType svc =
     (let pt = annot svc ''loxilb.io/probetype'' in
      if pt \<in> set [''none'', ''ping'', ''udp'', ''tcp'', ''http'', ''https''] then pt else [])"

definition probe_off :: "string \<Rightarrow> bool" where
  "probe_off pt = (pt = ''icmp'' \<or> pt = ''none'' \<or> pt = [])"

definition opt_probePort :: "Service \<Rightarrow> int" where
  "opt_probePort svc =
     (case Atoi (annot svc ''loxilb.io/probeport'') of
        None \<Rightarrow> 0 | Some n \<Rightarrow> if probe_off (opt_probeType svc) then 0 else n)"

definition opt_probeMsg :: "Service \<Rightarrow> string \<Rightarrow> string" where
  "opt_probeMsg svc key = (if probe_off (opt_probeType svc) then [] else annot svc key)"

definition opt_probeTimeout :: "Service \<Rightarrow> 32 word" where
  "opt_probeTimeout svc =
     (case Atoi (annot svc ''loxilb.io/probetimeout'') of None \<Rightarrow> 0 | Some n \<Rightarrow> word_of_int n)"

definition opt_probeRetries :: "Service \<Rightarrow> int" where
  "opt_probeRetries svc = (case Atoi (annot svc ''loxilb.io/proberetries'') of None \<Rightarrow> 0 | Some n \<Rightarrow> n)"

definition opt_epSelect :: "Service \<Rightarrow> nat" where
  "opt_epSelect svc =
     (let eps = annot svc ''loxilb.io/epselect'' in
      if eps = ''hash'' then 1
      else if eps = ''persist'' then 3
      else if eps = ''lc'' then 4
      else if eps = ''n2'' then 5
      else if eps = ''n2det'' then 6
      else if eps = ''n3'' then 7
      else 0)"

subsection \<open>mTLS configuration\<close>

definition b64_char :: "nat \<Rightarrow> char" where
  "b64_char n =
     (if n < 26 then char_of (65 + n) else if n < 52 then char_of (71 + n)
      else if n < 62 then char_of (n - 4) else if n = 62 then CHR ''+'' else CHR ''/'')"

fun base64 :: "string \<Rightarrow> string" where
  "base64 [] = []"
| "base64 [a] = (let x = char_nat a in [b64_char (x div 4), b64_char (x mod 4 * 16)] @ ''=='')"
| "base64 [a, b] =
     (let x = char_nat a; y = char_nat b
      in [b64_char (x div 4), b64_char (x mod 4 * 16 + y div 16), b64_char (y mod 16 * 4)] @ ''='')"
| "base64 (a # b # c # r) =
     (let x = char_nat a; y = char_nat b; z = char_nat c
      in [b64_char (x div 4), b64_char (x mod 4 * 16 + y div 16), b64_char (y mod 16 * 4 + z div 64),
          b64_char (z mod 64)] @ base64 r)"

text \<open>The value of the first key if it is present and not empty, else that of the second.\<close>

definition secret_value :: "(string \<times> string) list \<Rightarrow> string \<Rightarrow> string \<Rightarrow> string option" where
  "secret_value data k1 k2 =
     (case map_of data k1 of
        Some v \<Rightarrow> if v \<noteq> [] then Some v
                  else (case map_of data k2 of Some w \<Rightarrow> if w \<noteq> [] then Some w else None | None \<Rightarrow> None)
      | None \<Rightarrow> (case map_of data k2 of Some w \<Rightarrow> if w \<noteq> [] then Some w else None | None \<Rightarrow> None))"

definition quoted :: "string \<Rightarrow> string" where
  "quoted s = [CHR 0x27] @ s @ [CHR 0x27]"

definition getMtlsFrontendConfig :: "kube \<Rightarrow> Service \<Rightarrow> error + MtlsFrontend option" where
  "getMtlsFrontendConfig k svc =
     (let mode = annot svc ''loxilb.io/mtls-frontend-mode'' in
      if mode = [] \<or> mode = ''disabled'' then Inr None
      else if mode \<noteq> ''optional'' \<and> mode \<noteq> ''required'' then
        Inl (''invalid mtls-frontend-mode: '' @ mode @ '' (must be '' @ quoted ''disabled'' @ '', '' @
             quoted ''optional'' @ '', or '' @ quoted ''required'' @ '')'')
      else
        (let secretName = annot svc ''loxilb.io/mtls-frontend-secret'';
             path = sv_Namespace svc @ ''/'' @ secretName in
         if secretName = [] then
           Inl (''mtls-frontend-secret is required when mtls-frontend-mode is '' @ quoted mode)
         else
           (case get_secret k (sv_Namespace svc) secretName of
              Inl e \<Rightarrow> Inl (''failed to get secret '' @ path @ '': '' @ e)
            | Inr data \<Rightarrow>
                (case secret_value data ''client-ca.crt'' ''server.crt'' of
                   None \<Rightarrow> Inl (''secret '' @ path @ '' does not contain '' @ quoted ''client-ca.crt'' @
                                '' or '' @ quoted ''server.crt'' @ '' key'')
                 | Some cert \<Rightarrow>
                     (let fe = \<lparr>ClientCertMode = Some mode, ClientCaPath = [], ClientCaCertData = base64 cert,
                                RequireClientCn = None, ClientCnPattern = []\<rparr> in
                      if annot svc ''loxilb.io/mtls-frontend-require-cn'' = ''true'' then
                        (let cn = annot svc ''loxilb.io/mtls-frontend-cn-pattern'' in
                         if cn = [] then
                           Inl ''mtls-frontend-cn-pattern is required when mtls-frontend-require-cn is true''
                         else Inr (Some (fe\<lparr>RequireClientCn := Some True, ClientCnPattern := cn\<rparr>)))
                      else Inr (Some fe))))))"

definition getMtlsBackendConfig :: "kube \<Rightarrow> Service \<Rightarrow> error + MtlsBackend option" where
  "getMtlsBackendConfig k svc =
     (if annot svc ''loxilb.io/mtls-backend-verify'' \<noteq> ''true'' then Inr None
      else
        (let ns = sv_Namespace svc;
             be = \<lparr>VerifyServerCert = Some True, BackendCaPath = [], ClientCertPath = [], ClientKeyPath = [],
                   ClientCertData = [], ClientKeyData = []\<rparr>;
             ca = annot svc ''loxilb.io/mtls-backend-ca-secret'';
             cl = annot svc ''loxilb.io/mtls-backend-client-secret'';
             ca_err =
               (if ca = [] then None
                else (case get_secret k ns ca of
                        Inl e \<Rightarrow> Some (''failed to get backend CA secret '' @ ns @ ''/'' @ ca @ '': '' @ e)
                      | Inr data \<Rightarrow>
                          (case secret_value data ''backend-ca.crt'' ''server.crt'' of
                             None \<Rightarrow> Some (''secret '' @ ns @ ''/'' @ ca @ '' does not contain '' @
                                      quoted ''backend-ca.crt'' @ '' or '' @ quoted ''server.crt'' @ '' key'')
                           | Some _ \<Rightarrow> None)))
         in case ca_err of
              Some e \<Rightarrow> Inl e
            | None \<Rightarrow>
                if cl = [] then Inr (Some be)
                else
                  (case get_secret k ns cl of
                     Inl e \<Rightarrow> Inl (''failed to get backend client secret '' @ ns @ ''/'' @ cl @ '': '' @ e)
                   | Inr data \<Rightarrow>
                       (case secret_value data ''tls.crt'' ''server.crt'' of
                          None \<Rightarrow> Inl (''secret '' @ ns @ ''/'' @ cl @ '' does not contain '' @
                                   quoted ''tls.crt'' @ '' or '' @ quoted ''server.crt'' @ '' key'')
                        | Some cert \<Rightarrow>
                            (case secret_value data ''tls.key'' ''server.key'' of
                               None \<Rightarrow> Inl (''secret '' @ ns @ ''/'' @ cl @ '' does not contain '' @
                                        quoted ''tls.key'' @ '' or '' @ quoted ''server.key'' @ '' key'')
                             | Some key \<Rightarrow>
                                 Inr (Some (be\<lparr>ClientCertData := base64 cert, ClientKeyData := base64 key\<rparr>)))))))"

subsection \<open>All options\<close>

text \<open>
  The options of a service, in the order the code reads them, so that the first error is the
  one that is returned. A service without a pool annotation, for which no default pool exists,
  makes the code dereference a nil pool.
\<close>

definition parse_opts :: "'a lb_env \<Rightarrow> 'a Manager \<Rightarrow> Service \<Rightarrow> (error + LbOpts) go" where
  "parse_opts env m svc =
     (let cfg = e_cfg env; addrType = addr_type svc in
      case select_pool m svc of
        Inl e \<Rightarrow> Ret (Inl e)
      | Inr None \<Rightarrow> Panic ''nil pointer dereference''
      | Inr (Some ipPool) \<Rightarrow>
          (case select_sec_pools m svc of
             Inl e \<Rightarrow> Ret (Inl e)
           | Inr sipPools \<Rightarrow>
               if addrType \<noteq> ''ipv4'' \<and> sipPools \<noteq> [] then
                 Ret (Inl (''SecondaryIP Svc not possible for '' @ addrType))
               else if sec_ips svc \<noteq> [] \<and> sipPools \<noteq> [] then
                 Ret (Inl (''SecondaryIP is specified ('' @ fmt_strings (sec_ips svc) @ '')''))
               else
                 (case getMtlsFrontendConfig (e_kube env) svc of
                    Inl e \<Rightarrow> Ret (Inl e)
                  | Inr fe \<Rightarrow>
                      (case getMtlsBackendConfig (e_kube env) svc of
                         Inl e \<Rightarrow> Ret (Inl e)
                       | Inr be \<Rightarrow>
                           (let zni = annot svc ''loxilb.io/zoneinstance'' in
                            if zni \<noteq> [] \<and> \<not> has_key (zoneInstRoleMap m) zni then
                              Ret (Inl ''zone-instance not found'')
                            else
                              Ret (Inr \<lparr>
                                o_needMultusEP = has_key (sv_Annotations svc) ''loxilb.io/multus-nets'',
                                o_addrType = addrType,
                                o_epAddrType = (if addrType = ''ipv6'' then ''ipv6'' else ''ipv4''),
                                o_ipPool = ipPool, o_sipPools = sipPools,
                                o_hasSharedPool = list_ex (\<lambda>p. Shared (poolStore m ! p)) (ipPool # sipPools),
                                o_numSecondarySvc = length sipPools,
                                o_secIPs = sec_ips svc,
                                o_usePodNet = yes_no (cfg_UsePodNetwork cfg) (annot svc ''loxilb.io/usepodnetwork''),
                                o_useExternalEndpoint =
                                  yes_no (cfg_UseExternalEndpoint cfg) (annot svc ''loxilb.io/useExternalEndpoint''),
                                o_enProxyProtov2 = yes_no False (annot svc ''loxilb.io/useproxyprotov2''),
                                o_isEgress = yes_no False (annot svc ''loxilb.io/egress''),
                                o_mtlsFrontend = fe, o_mtlsBackend = be,
                                o_overrideZoneInst = zni,
                                o_matchNodeLabel = annot svc ''loxilb.io/nodelabel'',
                                o_prefLocal = (annot svc ''loxilb.io/prefLocalPod'' = ''yes''),
                                o_timeout = opt_timeout svc,
                                o_lbMode = opt_lbMode svc,
                                o_livenessCheck = (annot svc ''loxilb.io/liveness'' = ''yes''),
                                o_probeType = opt_probeType svc,
                                o_probePort = opt_probePort svc,
                                o_probeReq = opt_probeMsg svc ''loxilb.io/probereq'',
                                o_probeResp = opt_probeMsg svc ''loxilb.io/proberesp'',
                                o_probeTimeout = opt_probeTimeout svc,
                                o_probeRetries = opt_probeRetries svc,
                                o_epSelect = opt_epSelect svc\<rparr>))))))"

subsection \<open>External addresses of a service\<close>

definition checkServiceIngressIPExists :: "Service \<Rightarrow> string \<Rightarrow> bool" where
  "checkServiceIngressIPExists service newIngress =
     list_ex (\<lambda>i. (ing_IP i \<noteq> [] \<and> ing_IP i = newIngress) \<or>
                  (ing_Hostname i \<noteq> [] \<and> ing_Hostname i = newIngress)) (sv_Ingress service)"

fun zero_cidr_loop :: "Service \<Rightarrow> string \<Rightarrow> string list \<Rightarrow> bool \<Rightarrow> bool" where
  "zero_cidr_loop service poolName [] hasZeroCIDR = hasZeroCIDR"
| "zero_cidr_loop service poolName (pool # pools) hasZeroCIDR =
     (let poolStrSlice = split_on CHR ''='' pool in
      if length poolStrSlice \<noteq> 2 then hasZeroCIDR
      else if poolName \<noteq> poolStrSlice ! 0 then zero_cidr_loop service poolName pools hasZeroCIDR
      else
        (case ParseCIDR (poolStrSlice ! 1) of
           None \<Rightarrow> hasZeroCIDR
         | Some (_, ipn) \<Rightarrow>
             if IP_String (net_IP ipn) = ''0.0.0.0'' then
               (if annot service ''loxilb.io/ipam'' \<in> set [''ipv6'', ''ip6'', ''nat66''] then hasZeroCIDR
                else zero_cidr_loop service poolName pools True)
             else zero_cidr_loop service poolName pools hasZeroCIDR))"

definition serviceHasZeroCIDRPool :: "NetworkConfig \<Rightarrow> Service \<Rightarrow> bool" where
  "serviceHasZeroCIDRPool cfg service =
     (let pn = annot service ''loxilb.io/poolSelect'';
          poolName = (if pn \<noteq> [] then pn else ''defaultPool'')
      in zero_cidr_loop service poolName (cfg_ExternalCIDRPoolDefs cfg) False)"

definition getServiceIngressIPs :: "NetworkConfig \<Rightarrow> Service \<Rightarrow> string list" where
  "getServiceIngressIPs cfg service =
     (let hasZeroCIDR = serviceHasZeroCIDRPool cfg service
      in filter (\<lambda>ip. ip \<noteq> [])
           (map (\<lambda>i. if ing_IP i \<noteq> [] then (if hasZeroCIDR then ''0.0.0.0'' else ing_IP i)
                     else if ing_Hostname i \<noteq> [] then
                       (if hasZeroCIDR then ''0.0.0.0'' else ParseIngressHostname (ing_Hostname i) (cfg_Zone cfg))
                     else []) (sv_Ingress service)))"

definition getServiceExternalIPs :: "Service \<Rightarrow> string list" where
  "getServiceExternalIPs service = sv_ExternalIPs service"

definition getServiceLoxiStaticIP :: "Service \<Rightarrow> string" where
  "getServiceLoxiStaticIP service =
     (let s = annot service ''loxilb.io/staticIP'' in if s \<noteq> [] \<and> ParseIP s \<noteq> [] then s else [])"

definition getServicePrivateIP :: "NetworkConfig \<Rightarrow> Service \<Rightarrow> string" where
  "getServicePrivateIP cfg service =
     (if has_key (sv_Annotations service) ''loxilb.io/staticIP'' then []
      else if cfg_PrivateCIDR cfg \<noteq> [] then
        (case ParseCIDR (cfg_PrivateCIDR cfg) of
           Some (privateIP, _) \<Rightarrow> if privateIP \<noteq> [] then IP_String privateIP else []
         | None \<Rightarrow> [])
      else [])"

definition getLBServiceExternalIPs :: "NetworkConfig \<Rightarrow> Service \<Rightarrow> string list" where
  "getLBServiceExternalIPs cfg service =
     getServiceIngressIPs cfg service @ getServiceExternalIPs service @
     (let s = getServiceLoxiStaticIP service in if s \<noteq> [] then [s] else [])"

definition getLBIngressSvcPairs :: "NetworkConfig \<Rightarrow> Service \<Rightarrow> SvcPair list" where
  "getLBIngressSvcPairs cfg service =
     [\<lparr>IPString = extIP, pr_Port = sp_Port port, pr_Protocol = to_lower (sp_Protocol port), pr_InRange = False,
       pr_StaticIP = True, pr_IdentIPAM = [], IPAllocd = False, K8sSvcPort = port\<rparr>.
      extIP \<leftarrow> getLBServiceExternalIPs cfg service, port \<leftarrow> sv_Ports service]"

definition genExtIPName :: "'a lb_env \<Rightarrow> 'a Manager \<Rightarrow> string \<Rightarrow> string list" where
  "genExtIPName env m ipStr = GenExtIPName (e_tk env) (cfg_Zone (e_cfg env)) (loxiInstAddrMap m) ipStr"

definition checkUpdateExternalIP :: "'a lb_env \<Rightarrow> 'a Manager \<Rightarrow> SvcPair list \<Rightarrow> Service \<Rightarrow> bool" where
  "checkUpdateExternalIP env m pairs svc =
     list_ex (\<lambda>p. (pr_InRange p \<or> pr_StaticIP p) \<and>
                  list_ex (\<lambda>retIP. \<not> checkServiceIngressIPExists svc retIP) (genExtIPName env m (IPString p))) pairs"

subsection \<open>The rule sent to loxilb\<close>

definition u16 :: "int \<Rightarrow> 16 word" where "u16 i = word_of_int i"
definition u32 :: "int \<Rightarrow> 32 word" where "u32 i = word_of_int i"

definition i32 :: "int \<Rightarrow> int" where
  "i32 i = sint (word_of_int i :: 32 word)"

definition target_ports :: "'a lb_env \<Rightarrow> LbArgs \<Rightarrow> Service \<Rightarrow> ServicePort \<Rightarrow> error + int list" where
  "target_ports env args svc port =
     (if a_needMultusEP args \<or> a_usePodNetwork args then GetServicePortIntValue (e_kube env) svc port
      else if a_useExternalEndpoint args then GetServiceEndPointsPortsWithLister (e_kube env) svc
      else Inr [sp_NodePort port])"

definition mk_endpoint :: "string \<Rightarrow> int \<Rightarrow> LoadBalancerEndpoint" where
  "mk_endpoint ip tport = \<lparr>EndpointIP = ip, TargetPort = u16 tport, Weight = 1, State = [], Counter = []\<rparr>"

fun endpoint_models ::
  "'a lb_env \<Rightarrow> LbArgs \<Rightarrow> Service \<Rightarrow> ServicePort \<Rightarrow> string list \<Rightarrow> error + LoadBalancerEndpoint list" where
  "endpoint_models env args svc port [] = Inr []"
| "endpoint_models env args svc port (ip # ips) =
     (case target_ports env args svc port of
        Inl e \<Rightarrow> Inl e
      | Inr tports \<Rightarrow>
          if tports = [] then Inl ''no endpoints to make lbmodel''
          else map_sum (\<lambda>e. e) (\<lambda>eps. map (mk_endpoint ip) tports @ eps) (endpoint_models env args svc port ips))"

definition makeLoxiLoadBalancerModel ::
  "'a lb_env \<Rightarrow> LbArgs \<Rightarrow> Service \<Rightarrow> ServicePort \<Rightarrow> error + LoadBalancerModel" where
  "makeLoxiLoadBalancerModel env args svc port =
     (let cfg = e_cfg env in
      case endpoint_models env args svc port (a_endpointIPs args) of
        Inl e \<Rightarrow> Inl e
      | Inr eps \<Rightarrow>
          Inr \<lparr>lb_Service =
                 zero_service\<lparr>
                   svc_ExternalIP := a_externalIP args, svc_PrivateIP := a_privateIP args,
                   svc_Port := u16 (sp_Port port), svc_Protocol := to_lower (sp_Protocol port),
                   svc_BGP := (cfg_SetBGP cfg \<noteq> 0),
                   svc_Mode := (if 0 \<le> a_lbMode args then i32 (a_lbMode args) else int (unat (cfg_SetLBMode cfg))),
                   svc_Oper := (if cfg_AppendEPs cfg then 1 else 0),
                   svc_Monitor := (cfg_Monitor cfg \<or> a_livenessCheck args),
                   svc_Timeout := u32 (a_timeout args), svc_Managed := True,
                   svc_ProbeType := a_probeType args, svc_ProbePort := a_probePort args,
                   svc_ProbeReq := a_probeReq args, svc_ProbeResp := a_probeResp args,
                   svc_ProbeTimeout := a_probeTimeo args, svc_ProbeRetries := i32 (a_probeRetries args),
                   svc_PpV2 := a_ppv2En args, svc_Egress := a_egress args, svc_Sel := a_sel args,
                   svc_Name := sv_Namespace svc @ ''_'' @ sv_Name svc @ '':'' @ a_inst args,
                   svc_MtlsFrontend := a_mtlsFrontend args, svc_MtlsBackend := a_mtlsBackend args\<rparr>,
               lb_SecondaryIPs = a_secIPs args,
               lb_SrcIPs = filter (\<lambda>c. ParseCIDR c \<noteq> None) (sv_SourceRanges svc),
               lb_Endpoints = eps\<rparr>)"

definition makeLoxiLBCIStatusModel :: "string \<Rightarrow> string \<Rightarrow> LoxiClient \<Rightarrow> CIStatusModel" where
  "makeLoxiLBCIStatusModel inst vip client =
     \<lparr>ci_Instance = inst,
      ci_State = (if map_of (InstRoles client) inst = Some True then ''MASTER'' else ''BACKUP''),
      ci_Vip = (if vip = [] then ''0.0.0.0'' else vip)\<rparr>"

definition makeLoxiLBBGPGlobalModel :: "int \<Rightarrow> string \<Rightarrow> bool \<Rightarrow> 16 word \<Rightarrow> BGPGlobalConfig" where
  "makeLoxiLBBGPGlobalModel localAS selfID setNHSelf lPort =
     \<lparr>LocalAs = localAS, RouterID = selfID, SetNHSelf = setNHSelf,
      ListenPort = (if lPort = 0 then 179 else lPort)\<rparr>"

definition makeLoxiLBBGNeighModel :: "int \<Rightarrow> string \<Rightarrow> 16 word \<Rightarrow> bool \<Rightarrow> BGPNeigh" where
  "makeLoxiLBBGNeighModel remoteAS ip rPort mHopEn =
     \<lparr>neigh_IPAddress = ip, neigh_RemoteAs = remoteAS,
      neigh_RemotePort = int (unat (if rPort = 0 then 179 else rPort)), neigh_SetMultiHop = mHopEn\<rparr>"

end
