(* ===== verification/Lb_Manager.thy ===== *)
theory Lb_Manager
  imports Lb_Model
begin

text \<open>
  The handlers of the load-balancer manager that a service event runs: allocation of external
  addresses, installation and removal of rules on the loxilb instances, and the update of the
  service status. \<open>syncLoadBalancer\<close> is the entry; it ends in \<open>addLoadBalancer\<close> or
  \<open>deleteLoadBalancer\<close>.

  The calls to the instances that the code starts in one goroutine per client, and whose
  results it collects from one channel per client, are made here in the order of the clients;
  the answers may be any function of the history.
\<close>

subsection \<open>Calls and pools\<close>

definition api_send ::
  "'a lb_env \<Rightarrow> LoxiClient \<Rightarrow> api_call \<Rightarrow> 'a Manager \<Rightarrow> 'a Manager \<times> error option" where
  "api_send env c call m =
     (m\<lparr>apiLog := apiLog m @ [(cl_Url c, call)]\<rparr>, e_answer env (apiLog m) (cl_Url c) call)"

definition with_pool :: "nat \<Rightarrow> ('a IPPool \<Rightarrow> ('a IPPool \<times> 'b) go) \<Rightarrow> 'a Manager \<Rightarrow> ('a Manager \<times> 'b) go" where
  "with_pool p f m =
     (if p < length (poolStore m) then
        go_map (\<lambda>(q, r). (m\<lparr>poolStore := (poolStore m)[p := q]\<rparr>, r)) (f (poolStore m ! p))
      else Panic ''nil pointer dereference'')"

definition pool_Return :: "'a lb_env \<Rightarrow> nat \<Rightarrow> string \<Rightarrow> string \<Rightarrow> 'a Manager \<Rightarrow> 'a Manager go" where
  "pool_Return env p ip ident m =
     go_map fst (with_pool p (\<lambda>q. go_map (\<lambda>q. (q, ())) (ReturnIPAddr (e_tk env) q ip ident)) m)"

definition pool_GetNew ::
  "'a lb_env \<Rightarrow> nat \<Rightarrow> string \<Rightarrow> int \<Rightarrow> string \<Rightarrow> 'a Manager \<Rightarrow> ('a Manager \<times> IP \<times> string) go" where
  "pool_GetNew env p name port proto m =
     with_pool p (\<lambda>q. Ret (GetNewIPAddr (e_tk env) q name (u32 port) proto)) m"

definition pool_CheckAndReserve ::
  "'a lb_env \<Rightarrow> nat \<Rightarrow> string \<Rightarrow> string \<Rightarrow> int \<Rightarrow> string \<Rightarrow> 'a Manager \<Rightarrow> ('a Manager \<times> bool \<times> bool \<times> string) go" where
  "pool_CheckAndReserve env p ip name port proto m =
     with_pool p (\<lambda>q. CheckAndReserveIP (e_tk env) q ip name (u32 port) proto) m"

definition set_entry :: "string \<Rightarrow> LbCacheEntry \<Rightarrow> 'a Manager \<Rightarrow> 'a Manager" where
  "set_entry key e m = m\<lparr>lbCache := AList.update key e (lbCache m)\<rparr>"

subsection \<open>Installing and removing rules\<close>

definition local_endpoints :: "LoxiClient \<Rightarrow> LoadBalancerModel \<Rightarrow> LoadBalancerEndpoint list" where
  "local_endpoints c lb =
     (let eps = filter (\<lambda>ep. EndpointIP ep = Host c) (lb_Endpoints lb)
      in if eps = [] then lb_Endpoints lb else eps)"

definition installLB ::
  "'a lb_env \<Rightarrow> LoxiClient \<Rightarrow> LoadBalancerModel \<Rightarrow> bool \<Rightarrow> 'a Manager \<Rightarrow> 'a Manager \<times> error option" where
  "installLB env c lb prefLocal m =
     (let model = (if prefLocal then lb\<lparr>lb_Endpoints := local_endpoints c lb\<rparr> else lb) in
      case api_send env c (LbCreate model) m of
        (m, Some e) \<Rightarrow> (m, if \<not> contains_str e ''exist'' then Some e else None)
      | (m, None) \<Rightarrow> (m, None))"

fun install_all ::
  "'a lb_env \<Rightarrow> LoxiClient list \<Rightarrow> LoadBalancerModel \<Rightarrow> bool \<Rightarrow> 'a Manager \<Rightarrow> 'a Manager \<times> error list" where
  "install_all env [] lb prefLocal m = (m, [])"
| "install_all env (c # cs) lb prefLocal m =
     (case installLB env c lb prefLocal m of
        (m, err) \<Rightarrow>
          (case install_all env cs lb prefLocal m of
             (m, errs) \<Rightarrow> (m, (case err of None \<Rightarrow> errs | Some e \<Rightarrow> e # errs))))"

definition delete_call :: "'a lb_env \<Rightarrow> LoadBalancerModel \<Rightarrow> api_call" where
  "delete_call env lb =
     (if cfg_AppendEPs (e_cfg env) then LbCreate (lb\<lparr>lb_Service := (lb_Service lb)\<lparr>svc_Oper := 2\<rparr>\<rparr>)
      else LbDelete lb)"

fun send_all ::
  "'a lb_env \<Rightarrow> (LoxiClient \<times> api_call) list \<Rightarrow> 'a Manager \<Rightarrow> 'a Manager \<times> error list" where
  "send_all env [] m = (m, [])"
| "send_all env ((c, call) # r) m =
     (case api_send env c call m of
        (m, err) \<Rightarrow>
          (case send_all env r m of
             (m, errs) \<Rightarrow> (m, (case err of None \<Rightarrow> errs | Some e \<Rightarrow> e # errs))))"

text \<open>
  The first loop of \<open>deleteLoadBalancer\<close>: for each service pair the call goes out for every
  model and client; the first error of the pair is kept, a later pair's overrides it.
\<close>

fun delete_rules ::
  "'a lb_env \<Rightarrow> LbServicePairEntry list \<Rightarrow> 'a Manager \<Rightarrow> error option \<Rightarrow> 'a Manager \<times> error option" where
  "delete_rules env [] m rErr = (m, rErr)"
| "delete_rules env (sp # sps) m rErr =
     (case send_all env [(c, delete_call env lb). lb \<leftarrow> se_LbModelList sp, c \<leftarrow> LoxiClients m] m of
        (m, errs) \<Rightarrow> delete_rules env sps m (case errs of [] \<Rightarrow> rErr | e # _ \<Rightarrow> Some e))"

definition return_secondaries ::
  "'a lb_env \<Rightarrow> string list \<Rightarrow> nat list \<Rightarrow> string \<Rightarrow> 'a Manager \<Rightarrow> 'a Manager go" where
  "return_secondaries env secIPs sipPools ident m =
     go_fold (\<lambda>(ip, p). pool_Return env p ip ident) (zip secIPs sipPools) m"

definition release_pair ::
  "'a lb_env \<Rightarrow> LbCacheEntry \<Rightarrow> LbServicePairEntry \<Rightarrow> 'a Manager \<Rightarrow> 'a Manager go" where
  "release_pair env e sp m =
     go_bind (if se_InRange sp then pool_Return env (ce_IPPool e) (se_ExternalIP sp) (se_IdentIPAM sp) m else Ret m)
       (return_secondaries env (ce_SecIPs e) (ce_SIPPools e) (se_IdentIPAM sp))"

definition deleteLoadBalancer ::
  "'a lb_env \<Rightarrow> string \<Rightarrow> string \<Rightarrow> bool \<Rightarrow> 'a Manager \<Rightarrow> ('a Manager \<times> error option) go" where
  "deleteLoadBalancer env ns name releaseAll m =
     (let cacheKey = GenKey ns name in
      case map_of (lbCache m) cacheKey of
        None \<Rightarrow> Ret (m, None)
      | Some e \<Rightarrow>
          (let sps = map snd (ce_LbServicePairs e) in
           case delete_rules env sps m None of
             (m, Some rErr) \<Rightarrow> Ret (m, Some (''failed to delete loxiLB LoadBalancer. err: '' @ rErr))
           | (m, None) \<Rightarrow>
               if releaseAll then
                 go_map (\<lambda>m. (m\<lparr>lbCache := AList.delete cacheKey (lbCache m)\<rparr>, None))
                   (go_fold (release_pair env e) sps m)
               else Ret (m, None)))"

definition removeAllCacheEndpoints :: "string \<Rightarrow> 'a Manager \<Rightarrow> 'a Manager" where
  "removeAllCacheEndpoints cacheKey m =
     (case map_of (lbCache m) cacheKey of
        None \<Rightarrow> m
      | Some e \<Rightarrow>
          set_entry cacheKey
            (e\<lparr>ce_LbServicePairs :=
                 map (\<lambda>(k, sp). (k, sp\<lparr>se_LbModelList := map (\<lambda>lb. lb\<lparr>lb_Endpoints := []\<rparr>) (se_LbModelList sp)\<rparr>))
                   (ce_LbServicePairs e)\<rparr>) m)"

subsection \<open>External addresses\<close>

definition cached_pair :: "LbServicePairEntry \<Rightarrow> ServicePort \<Rightarrow> SvcPair" where
  "cached_pair sp port =
     \<lparr>IPString = se_ExternalIP sp, pr_Port = int (unat (se_Port sp)), pr_Protocol = se_Protocol sp,
      pr_InRange = se_InRange sp, pr_StaticIP = se_StaticIP sp, pr_IdentIPAM = se_IdentIPAM sp,
      IPAllocd = False, K8sSvcPort = port\<rparr>"

definition shared_ident :: "'a lb_env \<Rightarrow> 'a Manager \<Rightarrow> nat \<Rightarrow> int \<Rightarrow> string \<Rightarrow> string" where
  "shared_ident env m p port proto =
     (if Shared (poolStore m ! p) then MakeIPAMIdent (e_tk env) [] (u32 port) proto else IPAMNoIdent (e_tk env))"

text \<open>The loop for a service that has external addresses already.\<close>

fun existing_loop ::
  "'a lb_env \<Rightarrow> string \<Rightarrow> LbCacheEntry \<Rightarrow> SvcPair list \<Rightarrow> bool \<Rightarrow> SvcPair list \<Rightarrow> 'a Manager \<Rightarrow>
   ('a Manager \<times> SvcPair list) go" where
  "existing_loop env cacheKey e [] poolReserved sPairs m = Ret (m, sPairs)"
| "existing_loop env cacheKey e (p # ps) poolReserved sPairs m =
     (case find (\<lambda>sp. GenSPKey (IPString p) (u16 (pr_Port p)) (pr_Protocol p) =
                      GenSPKey (se_ExternalIP sp) (se_Port sp) (se_Protocol sp)) (map snd (ce_LbServicePairs e)) of
        Some sp \<Rightarrow>
          existing_loop env cacheKey e ps poolReserved (sPairs @ [cached_pair sp (K8sSvcPort p)]) m
      | None \<Rightarrow>
          go_bind
            (if \<not> poolReserved then
               go_map (\<lambda>(m, inRange, _, ident). (m, inRange, ident))
                 (pool_CheckAndReserve env (ce_IPPool e) (IPString p) cacheKey (pr_Port p) (pr_Protocol p) m)
             else Ret (m, False, shared_ident env m (ce_IPPool e) (pr_Port p) (pr_Protocol p)))
            (\<lambda>(m, inRange, identStr).
               existing_loop env cacheKey e ps (poolReserved \<or> inRange)
                 (sPairs @ [p\<lparr>pr_InRange := inRange, pr_StaticIP := True, pr_IdentIPAM := identStr,
                              IPAllocd := \<not> poolReserved\<rparr>]) m))"

text \<open>The loop for a service without external address: \<open>newIP\<close> is the address taken so far.\<close>

fun new_loop ::
  "'a lb_env \<Rightarrow> string \<Rightarrow> LbCacheEntry \<Rightarrow> ServicePort list \<Rightarrow> IP option \<Rightarrow> SvcPair list \<Rightarrow> 'a Manager \<Rightarrow>
   ('a Manager \<times> SvcPair list) go" where
  "new_loop env cacheKey e [] newIP sPairs m = Ret (m, sPairs)"
| "new_loop env cacheKey e (port # ports) newIP sPairs m =
     (let proto = to_lower (sp_Protocol port); portNum = sp_Port port in
      case find (\<lambda>sp. se_Port sp = u16 portNum \<and> proto = se_Protocol sp) (map snd (ce_LbServicePairs e)) of
        Some sp \<Rightarrow> new_loop env cacheKey e ports newIP (sPairs @ [cached_pair sp port]) m
      | None \<Rightarrow>
          go_bind
            (case newIP of
               None \<Rightarrow>
                 go_bind (pool_GetNew env (ce_IPPool e) cacheKey portNum proto m)
                   (\<lambda>(m, ip, ident). if ip = [] then Exit ''kube-loxilb cant run optimally anymore''
                                     else Ret (m, ip, ident))
             | Some ip \<Rightarrow> Ret (m, ip, shared_ident env m (ce_IPPool e) portNum proto))
            (\<lambda>(m, ip, ident).
               new_loop env cacheKey e ports (Some ip)
                 (sPairs @ [\<lparr>IPString = IP_String ip, pr_Port = portNum, pr_Protocol = proto, pr_InRange = True,
                             pr_StaticIP = False, pr_IdentIPAM = ident, IPAllocd = (newIP = None),
                             K8sSvcPort = port\<rparr>]) m))"

definition getIngressSvcPairs ::
  "'a lb_env \<Rightarrow> Service \<Rightarrow> LbCacheEntry \<Rightarrow> 'a Manager \<Rightarrow> ('a Manager \<times> SvcPair list \<times> bool) go" where
  "getIngressSvcPairs env service e m =
     (let inSPairs = getLBIngressSvcPairs (e_cfg env) service;
          cacheKey = GenKey (sv_Namespace service) (sv_Name service)
      in if inSPairs \<noteq> [] then
           go_map (\<lambda>(m, ps). (m, ps, True)) (existing_loop env cacheKey e inSPairs False [] m)
         else
           go_map (\<lambda>(m, ps). (m, ps, False)) (new_loop env cacheKey e (sv_Ports service) None [] m))"

definition return_for_all_pairs ::
  "'a lb_env \<Rightarrow> string list \<Rightarrow> nat list \<Rightarrow> LbServicePairEntry list \<Rightarrow> 'a Manager \<Rightarrow> 'a Manager go" where
  "return_for_all_pairs env secIPs sipPools sps m =
     go_fold (\<lambda>(ip, p, ident). pool_Return env p ip ident)
       [(ip, p, se_IdentIPAM sp). (ip, p) \<leftarrow> zip secIPs sipPools, sp \<leftarrow> sps] m"

definition returnSecondaryIPs ::
  "'a lb_env \<Rightarrow> Service \<Rightarrow> string list \<Rightarrow> nat list \<Rightarrow> 'a Manager \<Rightarrow> 'a Manager go" where
  "returnSecondaryIPs env service secIPs sipPools m =
     (case map_of (lbCache m) (GenKey (sv_Namespace service) (sv_Name service)) of
        None \<Rightarrow> if zip secIPs sipPools = [] then Ret m else Panic ''nil pointer dereference''
      | Some e \<Rightarrow> return_for_all_pairs env secIPs sipPools (map snd (ce_LbServicePairs e)) m)"

fun sec_loop ::
  "'a lb_env \<Rightarrow> string \<Rightarrow> ServicePort list \<Rightarrow> nat list \<Rightarrow> (nat \<times> SvcPair) list \<Rightarrow> 'a Manager \<Rightarrow>
   ('a Manager \<times> SvcPair list) go" where
  "sec_loop env cacheKey ports [] sPairs m = Ret (m, map snd sPairs)"
| "sec_loop env cacheKey ports (p # ps) sPairs m =
     (case ports of
        [] \<Rightarrow> sec_loop env cacheKey ports ps sPairs m
      | port # _ \<Rightarrow>
          go_bind (pool_GetNew env p cacheKey (sp_Port port) (to_lower (sp_Protocol port)) m)
            (\<lambda>(m, ip, ident).
               if ip = [] then
                 go_bind (go_fold (\<lambda>(q, sp). pool_Return env q (IPString sp) (pr_IdentIPAM sp)) sPairs m)
                   (\<lambda>_. Exit ''kube-loxilb cant run optimally anymore'')
               else
                 sec_loop env cacheKey ports ps
                   (sPairs @ [(p, \<lparr>IPString = IP_String ip, pr_Port = sp_Port port,
                                   pr_Protocol = to_lower (sp_Protocol port), pr_InRange = True,
                                   pr_StaticIP = False, pr_IdentIPAM = ident, IPAllocd = True,
                                   K8sSvcPort = port\<rparr>)]) m))"

definition getIngressSecSvcPairs ::
  "'a lb_env \<Rightarrow> Service \<Rightarrow> nat \<Rightarrow> LbCacheEntry \<Rightarrow> 'a Manager \<Rightarrow> ('a Manager \<times> (error + SvcPair list)) go" where
  "getIngressSecSvcPairs env service numSecondary e m =
     (if length (ce_SIPPools e) < numSecondary then
        Ret (m, Inl ''failed to generate external secondary IP. No IP pools'')
      else
        go_map (\<lambda>(m, ps). (m, Inr ps))
          (sec_loop env (GenKey (sv_Namespace service) (sv_Name service)) (sv_Ports service)
             (take numSecondary (ce_SIPPools e)) [] m))"

subsection \<open>Detecting changes\<close>

definition same_target :: "LoadBalancerEndpoint \<Rightarrow> LoadBalancerEndpoint \<Rightarrow> bool" where
  "same_target a b = (EndpointIP a = EndpointIP b \<and> TargetPort a = TargetPort b)"

definition ext_endpoints_changed :: "LoadBalancerEndpoint list \<Rightarrow> LoadBalancerModel \<Rightarrow> bool" where
  "ext_endpoints_changed eps lb =
     (if length eps = length (lb_Endpoints lb)
      then list_ex (\<lambda>ep. \<not> list_ex (\<lambda>old. same_target old ep) (lb_Endpoints lb)) eps
      else True)"

definition endpoints_changed :: "string list \<Rightarrow> LoadBalancerModel \<Rightarrow> bool" where
  "endpoints_changed endpointIPs lb =
     (if length endpointIPs = length (lb_Endpoints lb)
      then length (takeWhile (\<lambda>ep. list_ex (\<lambda>old. ep = EndpointIP old) (lb_Endpoints lb)) endpointIPs)
             \<noteq> length endpointIPs
      else True)"

definition entry_models :: "LbCacheEntry \<Rightarrow> LoadBalancerModel list" where
  "entry_models e = concat (map (\<lambda>(_, sp). se_LbModelList sp) (ce_LbServicePairs e))"

definition checkUpdateEndpoints :: "'a lb_env \<Rightarrow> Service \<Rightarrow> LbCacheEntry \<Rightarrow> string list \<Rightarrow> bool \<Rightarrow> bool" where
  "checkUpdateEndpoints env svc e endpointIPs matchPorts =
     (if matchPorts then
        (case GetServiceEndPointsPortsWithLister (e_kube env) svc of
           Inl _ \<Rightarrow> True
         | Inr tports \<Rightarrow>
             list_ex (ext_endpoints_changed [mk_endpoint ip tport. ip \<leftarrow> endpointIPs, tport \<leftarrow> tports]) (entry_models e))
      else list_ex (endpoints_changed endpointIPs) (entry_models e))"

text \<open>One comparison of an option with the cached one: the entry, \<open>update\<close> and \<open>needDelete\<close>.\<close>

definition chg ::
  "bool \<Rightarrow> (LbCacheEntry \<Rightarrow> bool) \<Rightarrow> (LbCacheEntry \<Rightarrow> LbCacheEntry) \<Rightarrow> LbCacheEntry \<times> bool \<times> bool \<Rightarrow>
   LbCacheEntry \<times> bool \<times> bool" where
  "chg added differs assign st =
     (case st of (e, update, needDelete) \<Rightarrow>
        if differs e then (assign e, True, needDelete \<or> added) else (e, update, needDelete))"

definition sync_addr_fields :: "bool \<Rightarrow> LbOpts \<Rightarrow> LbCacheEntry \<times> bool \<times> bool \<Rightarrow> LbCacheEntry \<times> bool \<times> bool" where
  "sync_addr_fields added opts st =
     (let st = chg added (\<lambda>e. o_addrType opts \<noteq> ce_Addr e) (\<lambda>e. e\<lparr>ce_Addr := o_addrType opts\<rparr>) st;
          st = chg added (\<lambda>e. o_matchNodeLabel opts \<noteq> ce_NodeLabel e) (\<lambda>e. e\<lparr>ce_NodeLabel := o_matchNodeLabel opts\<rparr>) st;
          st = chg added (\<lambda>e. o_timeout opts \<noteq> ce_Timeout e) (\<lambda>e. e\<lparr>ce_Timeout := o_timeout opts\<rparr>) st;
          st = chg added (\<lambda>e. o_livenessCheck opts \<noteq> ce_ActCheck e) (\<lambda>e. e\<lparr>ce_ActCheck := o_livenessCheck opts\<rparr>) st
      in chg added (\<lambda>e. o_lbMode opts \<noteq> ce_LbMode e) (\<lambda>e. e\<lparr>ce_LbMode := o_lbMode opts\<rparr>) st)"

definition sync_probe_fields :: "bool \<Rightarrow> LbOpts \<Rightarrow> LbCacheEntry \<times> bool \<times> bool \<Rightarrow> LbCacheEntry \<times> bool \<times> bool" where
  "sync_probe_fields added opts st =
     (let st = chg added (\<lambda>e. o_probeType opts \<noteq> ce_ProbeType e) (\<lambda>e. e\<lparr>ce_ProbeType := o_probeType opts\<rparr>) st;
          st = chg added (\<lambda>e. o_probePort opts \<noteq> int (unat (ce_ProbePort e)))
                 (\<lambda>e. e\<lparr>ce_ProbePort := u16 (o_probePort opts)\<rparr>) st;
          st = chg added (\<lambda>e. o_probeReq opts \<noteq> ce_ProbeReq e) (\<lambda>e. e\<lparr>ce_ProbeReq := o_probeReq opts\<rparr>) st;
          st = chg added (\<lambda>e. o_probeResp opts \<noteq> ce_ProbeResp e) (\<lambda>e. e\<lparr>ce_ProbeResp := o_probeResp opts\<rparr>) st;
          st = chg added (\<lambda>e. o_probeTimeout opts \<noteq> ce_ProbeTimeo e) (\<lambda>e. e\<lparr>ce_ProbeTimeo := o_probeTimeout opts\<rparr>) st;
          st = chg added (\<lambda>e. o_probeRetries opts \<noteq> ce_ProbeRetries e) (\<lambda>e. e\<lparr>ce_ProbeRetries := o_probeRetries opts\<rparr>) st;
          st = chg added (\<lambda>e. o_epSelect opts \<noteq> ce_EpSelect e) (\<lambda>e. e\<lparr>ce_EpSelect := o_epSelect opts\<rparr>) st;
          st = chg added (\<lambda>e. o_enProxyProtov2 opts \<noteq> ce_ppv2En e) (\<lambda>e. e\<lparr>ce_ppv2En := o_enProxyProtov2 opts\<rparr>) st
      in chg added (\<lambda>e. o_isEgress opts \<noteq> ce_egress e) (\<lambda>e. e\<lparr>ce_egress := o_isEgress opts\<rparr>) st)"

definition sync_fields :: "bool \<Rightarrow> LbOpts \<Rightarrow> LbCacheEntry \<Rightarrow> LbCacheEntry \<times> bool \<times> bool" where
  "sync_fields added opts e =
     sync_probe_fields added opts (sync_addr_fields added opts
       (e, ce_LbServicePairs e = [] \<or> list_ex (\<lambda>(_, sp). se_LbModelList sp = []) (ce_LbServicePairs e), False))"

subsection \<open>Status of a service\<close>

definition add_ingress :: "string \<Rightarrow> Service \<Rightarrow> Service" where
  "add_ingress retIP cur =
     (if \<not> checkServiceIngressIPExists cur retIP then
        cur\<lparr>sv_Ingress := sv_Ingress cur @
              [if ParseIP retIP = [] then \<lparr>ing_IP = [], ing_Hostname = retIP\<rparr>
               else \<lparr>ing_IP = retIP, ing_Hostname = []\<rparr>]\<rparr>
      else cur)"

definition status_names :: "'a lb_env \<Rightarrow> 'a Manager \<Rightarrow> SvcPair list \<Rightarrow> string list" where
  "status_names env m pairs =
     concat (map (\<lambda>p. if pr_InRange p \<or> pr_StaticIP p then genExtIPName env m (IPString p) else []) pairs)"

definition updateService ::
  "'a lb_env \<Rightarrow> string \<Rightarrow> string \<Rightarrow> SvcPair list \<Rightarrow> 'a Manager \<Rightarrow> 'a Manager \<times> error option" where
  "updateService env svcNs svcName pairs m =
     (case get_service (e_kube env) svcNs svcName of
        Inl err \<Rightarrow> (m, Some err)
      | Inr cur \<Rightarrow>
          (let cur = fold add_ingress (status_names env m pairs) cur
           in (m\<lparr>statusLog := statusLog m @ [cur]\<rparr>, update_status (e_kube env) cur)))"

fun update_retry ::
  "'a lb_env \<Rightarrow> nat \<Rightarrow> string \<Rightarrow> string \<Rightarrow> SvcPair list \<Rightarrow> 'a Manager \<Rightarrow> 'a Manager" where
  "update_retry env 0 ns name pairs m = m"
| "update_retry env (Suc n) ns name pairs m =
     (case updateService env ns name pairs m of
        (m, err) \<Rightarrow> if \<not> is_conflict (e_kube env) err then m else update_retry env n ns name pairs m)"

subsection \<open>Adding a service\<close>

definition getZoneInstName :: "'a lb_env \<Rightarrow> 'a Manager \<Rightarrow> string go" where
  "getZoneInstName env m =
     (let n = cfg_NumZoneInst (e_cfg env) in
      if n = 0 then Panic ''integer divide by zero''
      else Ret (GenZoneInstName (cfg_Zone (e_cfg env)) (zoneInstSelHint m mod \<bar>n\<bar>)))"

definition new_entry :: "'a lb_env \<Rightarrow> LbOpts \<Rightarrow> 'a Manager \<Rightarrow> LbCacheEntry go" where
  "new_entry env opts m =
     go_map (\<lambda>zoneInstName.
       \<lparr>ce_LbMode = o_lbMode opts, ce_Timeout = o_timeout opts, ce_ActCheck = o_livenessCheck opts,
        ce_PrefLocal = o_prefLocal opts, ce_ppv2En = o_enProxyProtov2 opts, ce_egress = False,
        ce_Inst = zoneInstName, ce_Addr = o_addrType opts, ce_State = ''Added'',
        ce_NodeLabel = o_matchNodeLabel opts, ce_ProbeType = o_probeType opts,
        ce_ProbePort = u16 (o_probePort opts), ce_ProbeReq = o_probeReq opts,
        ce_ProbeResp = o_probeResp opts, ce_ProbeTimeo = o_probeTimeout opts,
        ce_ProbeRetries = o_probeRetries opts, ce_EpSelect = o_epSelect opts,
        ce_IPPool = o_ipPool opts, ce_SIPPools = o_sipPools opts, ce_SecIPs = [], ce_LbServicePairs = []\<rparr>)
     (if o_overrideZoneInst opts \<noteq> [] then Ret (o_overrideZoneInst opts)
      else if \<not> o_hasSharedPool opts then getZoneInstName env m
      else Ret (GenZoneInstName (cfg_Zone (e_cfg env)) 0))"

definition mk_args ::
  "LbOpts \<Rightarrow> LbCacheEntry \<Rightarrow> string list \<Rightarrow> string \<Rightarrow> SvcPair \<Rightarrow> LbArgs" where
  "mk_args opts e endpointIPs privateIPStr pair =
     \<lparr>a_externalIP = IPString pair, a_privateIP = privateIPStr, a_livenessCheck = ce_ActCheck e,
      a_lbMode = ce_LbMode e, a_timeout = ce_Timeout e, a_sel = ce_EpSelect e, a_probeType = ce_ProbeType e,
      a_probePort = ce_ProbePort e, a_probeReq = ce_ProbeReq e, a_probeResp = ce_ProbeResp e,
      a_probeTimeo = ce_ProbeTimeo e, a_probeRetries = ce_ProbeRetries e, a_secIPs = ce_SecIPs e,
      a_endpointIPs = endpointIPs, a_needMultusEP = o_needMultusEP opts, a_usePodNetwork = o_usePodNet opts,
      a_useExternalEndpoint = o_useExternalEndpoint opts, a_inst = ce_Inst e, a_ppv2En = ce_ppv2En e,
      a_egress = ce_egress e, a_mtlsFrontend = o_mtlsFrontend opts, a_mtlsBackend = o_mtlsBackend opts\<rparr>"

definition pair_entry :: "SvcPair \<Rightarrow> LoadBalancerModel \<Rightarrow> LbServicePairEntry" where
  "pair_entry p lb =
     \<lparr>se_ExternalIP = IPString p, se_Port = u16 (pr_Port p), se_Protocol = pr_Protocol p,
      se_StaticIP = pr_StaticIP p, se_InRange = pr_InRange p, se_IdentIPAM = pr_IdentIPAM p,
      se_LbModelList = [lb]\<rparr>"

definition pair_key :: "SvcPair \<Rightarrow> string" where
  "pair_key p = GenSPKey (IPString p) (u16 (pr_Port p)) (pr_Protocol p)"

text \<open>
  One round of the loop over the service pairs: build the rule, install it on every instance,
  fail when no instance took it, and remember the pair. The second component is \<open>None\<close> when
  the loop goes on and the returned error when the function returns.
\<close>

definition install_pair ::
  "'a lb_env \<Rightarrow> LbOpts \<Rightarrow> Service \<Rightarrow> string list \<Rightarrow> string \<Rightarrow> SvcPair \<Rightarrow> 'a Manager \<Rightarrow>
   ('a Manager \<times> error option option) go" where
  "install_pair env opts svc endpointIPs cacheKey pair m =
     (case map_of (lbCache m) cacheKey of
        None \<Rightarrow> Panic ''nil pointer dereference''
      | Some e \<Rightarrow>
          (let args = mk_args opts e endpointIPs (getServicePrivateIP (e_cfg env) svc) pair in
           case makeLoxiLoadBalancerModel env args svc (K8sSvcPort pair) of
             Inl err \<Rightarrow> Ret (m, Some (e_Wrap env (Some err) ''makeLoxiLoadBalancerModel return error''))
           | Inr lb \<Rightarrow>
               (case install_all env (LoxiClients m) lb (ce_PrefLocal e) m of
                  (m, errs) \<Rightarrow>
                    if errs \<noteq> [] \<and> length (LoxiClients m) \<le> length errs then
                      Ret (m, Some (Some (''failed to add loxiLB loadBalancer - spair('' @ pair_key pair @
                                   ''). err: '' @ last errs)))
                    else
                      Ret (set_entry cacheKey
                             (e\<lparr>ce_LbServicePairs :=
                                  AList.update (pair_key pair) (pair_entry pair lb) (ce_LbServicePairs e)\<rparr>) m, None))))"

fun install_pairs ::
  "'a lb_env \<Rightarrow> LbOpts \<Rightarrow> Service \<Rightarrow> string list \<Rightarrow> string \<Rightarrow> SvcPair list \<Rightarrow> 'a Manager \<Rightarrow>
   ('a Manager \<times> error option option) go" where
  "install_pairs env opts svc endpointIPs cacheKey [] m = Ret (m, None)"
| "install_pairs env opts svc endpointIPs cacheKey (p # ps) m =
     go_bind (install_pair env opts svc endpointIPs cacheKey p m) (\<lambda>(m, err).
       case err of Some r \<Rightarrow> Ret (m, Some r) | None \<Rightarrow> install_pairs env opts svc endpointIPs cacheKey ps m)"

text \<open>Secondary addresses: the new state, \<open>update\<close> and an error.\<close>

definition sync_secondaries ::
  "'a lb_env \<Rightarrow> LbOpts \<Rightarrow> Service \<Rightarrow> string \<Rightarrow> bool \<Rightarrow> LbCacheEntry \<Rightarrow> 'a Manager \<Rightarrow>
   ('a Manager \<times> bool \<times> error option) go" where
  "sync_secondaries env opts svc cacheKey added e m =
     (if o_secIPs opts \<noteq> [] then
        (if \<not> added then
           go_map (\<lambda>m. (set_entry cacheKey (e\<lparr>ce_SecIPs := o_secIPs opts\<rparr>) m, False, None))
             (returnSecondaryIPs env svc (ce_SecIPs e) (ce_SIPPools e) m)
         else Ret (m, False, None))
      else if length (ce_SecIPs e) \<noteq> o_numSecondarySvc opts then
        go_bind (getIngressSecSvcPairs env svc (o_numSecondarySvc opts) e m) (\<lambda>(m, r).
          case r of
            Inl err \<Rightarrow> Ret (m, True, Some err)
          | Inr ps \<Rightarrow>
              go_map (\<lambda>m. (set_entry cacheKey (e\<lparr>ce_SecIPs := map IPString ps\<rparr>) m, True, None))
                (return_for_all_pairs env (ce_SecIPs e) (o_sipPools opts) (map snd (ce_LbServicePairs e)) m))
      else Ret (m, False, None))"

definition copy_cached :: "LbServicePairEntry \<Rightarrow> SvcPair \<Rightarrow> SvcPair" where
  "copy_cached sp p =
     (if IPString p = se_ExternalIP sp \<and> pr_Port p = int (unat (se_Port sp)) \<and> pr_Protocol p = se_Protocol sp
      then p\<lparr>pr_InRange := se_InRange sp, pr_StaticIP := se_StaticIP sp, pr_IdentIPAM := se_IdentIPAM sp\<rparr> else p)"

text \<open>The deferred function: what is returned to the pools when \<open>retIPAMOnErr\<close> is set.\<close>

definition deallocate_on_failure ::
  "'a lb_env \<Rightarrow> LbOpts \<Rightarrow> string \<Rightarrow> SvcPair list \<Rightarrow> 'a Manager \<Rightarrow> 'a Manager go" where
  "deallocate_on_failure env opts cacheKey pairs m =
     go_fold (\<lambda>(i, sp) m.
       go_bind (if pr_InRange sp \<and> IPAllocd sp then pool_Return env (o_ipPool opts) (IPString sp) (pr_IdentIPAM sp) m
                else Ret m) (\<lambda>m.
       if i = (0 :: nat) then
         (case map_of (lbCache m) cacheKey of
            None \<Rightarrow> Panic ''nil pointer dereference''
          | Some e \<Rightarrow> return_secondaries env (ce_SecIPs e) (o_sipPools opts) (pr_IdentIPAM sp) m)
       else Ret m)) (enumerate 0 pairs) m"

text \<open>
  The part of \<open>addLoadBalancer\<close> from the point where the cache entry exists. The result is the
  state, the error, whether \<open>retIPAMOnErr\<close> is set, and the value of \<open>ingSvcPairs\<close> the
  deferred function sees. For a service without external address the code also clears the ingress list of
  the object of the lister, from which no service pair was read; nothing reads it in the rest of the handler, and the
  status is written from an object read anew, so that this is left out.
\<close>

definition add_installed ::
  "'a lb_env \<Rightarrow> LbOpts \<Rightarrow> Service \<Rightarrow> string list \<Rightarrow> string \<Rightarrow> bool \<Rightarrow> bool \<Rightarrow> SvcPair list \<Rightarrow> 'a Manager \<Rightarrow>
   ('a Manager \<times> error option \<times> bool \<times> SvcPair list) go" where
  "add_installed env opts svc endpointIPs cacheKey added needDelete pairs m =
     go_bind (if needDelete then go_map fst (deleteLoadBalancer env (sv_Namespace svc) (sv_Name svc) False m) else Ret m)
       (\<lambda>m.
          case map_of (lbCache m) cacheKey of
            None \<Rightarrow> Panic ''nil pointer dereference''
          | Some e \<Rightarrow>
              (let pairs = (if added then fold (\<lambda>sp. map (copy_cached sp)) (map snd (ce_LbServicePairs e)) pairs
                            else pairs);
                   m = (if added then set_entry cacheKey (e\<lparr>ce_LbServicePairs := []\<rparr>) m else m)
               in go_bind (install_pairs env opts svc endpointIPs cacheKey pairs m) (\<lambda>(m, err).
                    case err of
                      Some r \<Rightarrow> Ret (m, r, True, pairs)
                    | None \<Rightarrow>
                        Ret (update_retry env 5 (sv_Namespace svc) (sv_Name svc) pairs m, None, False, pairs))))"

definition add_entry ::
  "'a lb_env \<Rightarrow> LbOpts \<Rightarrow> Service \<Rightarrow> string list \<Rightarrow> string \<Rightarrow> bool \<Rightarrow> LbCacheEntry \<Rightarrow> 'a Manager \<Rightarrow>
   ('a Manager \<times> error option \<times> bool \<times> SvcPair list) go" where
  "add_entry env opts svc endpointIPs cacheKey added e m =
     go_bind (getIngressSvcPairs env svc e m) (\<lambda>(m, pairs, hasExistingEIP).
       case sync_fields added opts e of
         (e, update, needDelete) \<Rightarrow>
           go_bind (sync_secondaries env opts svc cacheKey added e (set_entry cacheKey e m)) (\<lambda>(m, secUpdate, err).
             case err of
               Some err \<Rightarrow>
                 Ret (m, e_Wrap env (Some err) ''getIngressSecSvcPairs return error'', True, pairs)
             | None \<Rightarrow>
                 if update \<or> secUpdate \<or>
                    checkUpdateEndpoints env svc e endpointIPs (o_useExternalEndpoint opts) \<or>
                    checkUpdateExternalIP env m pairs svc
                 then add_installed env opts svc endpointIPs cacheKey added needDelete pairs m
                 else Ret (m, None, \<not> hasExistingEIP, [])))"

text \<open>The guards in front: the zone, the instances and the class of the service.\<close>

datatype admission = Skip | Refuse error | Admit

definition admit :: "'a lb_env \<Rightarrow> 'a Manager \<Rightarrow> Service \<Rightarrow> admission" where
  "admit env m svc =
     (let zone = annot svc ''loxilb.io/zoneselect'' in
      if zone \<noteq> [] \<and> cfg_Zone (e_cfg env) \<noteq> zone then Skip
      else if LoxiClients m = [] then
        Refuse ''service cannot be added because there are no loxilb instances''
      else if sv_LoadBalancerClass svc \<noteq> Some (cfg_LoxilbLoadBalancerClass (e_cfg env)) \<and>
              \<not> has_key (sv_Annotations svc) ''loxilb.io/multus-nets'' then Skip
      else Admit)"

definition finish ::
  "'a lb_env \<Rightarrow> LbOpts \<Rightarrow> string \<Rightarrow> 'a Manager \<times> error option \<times> bool \<times> SvcPair list \<Rightarrow> ('a Manager \<times> error option) go" where
  "finish env opts cacheKey r =
     (case r of (m, err, retIPAM, pairs) \<Rightarrow>
        if retIPAM then go_map (\<lambda>m. (m, err)) (deallocate_on_failure env opts cacheKey pairs m) else Ret (m, err))"

definition addLoadBalancer :: "'a lb_env \<Rightarrow> Service \<Rightarrow> 'a Manager \<Rightarrow> ('a Manager \<times> error option) go" where
  "addLoadBalancer env svc m =
     (case admit env m svc of
        Skip \<Rightarrow> Ret (m, None)
      | Refuse e \<Rightarrow> Ret (m, Some e)
      | Admit \<Rightarrow>
          go_bind (parse_opts env m svc) (\<lambda>r.
            case r of
              Inl err \<Rightarrow> Ret (m, Some err)
            | Inr opts \<Rightarrow>
                (let cacheKey = GenKey (sv_Namespace svc) (sv_Name svc) in
                 case getEndpoints (e_tk env) (e_kube env) svc (o_usePodNet opts) (o_useExternalEndpoint opts)
                        (o_needMultusEP opts) (o_epAddrType opts) (o_matchNodeLabel opts) of
                   (endpointIPs, eerr) \<Rightarrow>
                     (case map_of (lbCache m) cacheKey of
                        None \<Rightarrow>
                          (case eerr of
                             Some err \<Rightarrow> Ret (m, e_Wrap env (Some err) ''getEndpoints return error'')
                           | None \<Rightarrow>
                               if endpointIPs = [] then Ret (m, Some ''no active endpoints'')
                               else
                                 go_bind (new_entry env opts m) (\<lambda>e.
                                 go_bind (add_entry env opts svc endpointIPs cacheKey False e
                                            ((set_entry cacheKey e m)\<lparr>zoneInstSelHint := zoneInstSelHint m + 1\<rparr>))
                                   (finish env opts cacheKey)))
                      | Some e \<Rightarrow>
                          if endpointIPs = [] then
                            go_map (\<lambda>(m, err).
                                (if err = None then removeAllCacheEndpoints cacheKey m else m,
                                 e_Wrap env err ''deleteLoadBalancer return error''))
                              (deleteLoadBalancer env (sv_Namespace svc) (sv_Name svc) False m)
                          else
                            go_bind (add_entry env opts svc endpointIPs cacheKey True e m)
                              (finish env opts cacheKey)))))"

definition syncLoadBalancer ::
  "'a lb_env \<Rightarrow> string \<Rightarrow> string \<Rightarrow> 'a Manager \<Rightarrow> ('a Manager \<times> error option) go" where
  "syncLoadBalancer env svcNs svcName m =
     (case get_service (e_kube env) svcNs svcName of
        Inl _ \<Rightarrow> deleteLoadBalancer env svcNs svcName True m
      | Inr svc \<Rightarrow> addLoadBalancer env svc m)"

end
