(* ===== verification/Lb_Correct.thy ===== *)
theory Lb_Correct
  imports Lb_Manager
begin

text \<open>
  Properties of the load-balancer manager. The first part fixes what the proofs share: the calls
  a handler makes and their answers, the well-formed manager, and the ledgers of its pools. The
  properties follow, handler by handler.
\<close>

subsection \<open>Calls and answers\<close>

fun answers ::
  "'a lb_env \<Rightarrow> (string \<times> api_call) list \<Rightarrow> (string \<times> api_call) list \<Rightarrow> error option list" where
  "answers env log [] = []"
| "answers env log ((u, c) # r) = e_answer env log u c # answers env (log @ [(u, c)]) r"

lemma answers_append:
  "answers env log (xs @ ys) = answers env log xs @ answers env (log @ xs) ys"
  by (induction xs arbitrary: log) auto

lemma length_answers [simp]: "length (answers env log xs) = length xs"
  by (induction xs arbitrary: log) auto

definition errors_of :: "error option list \<Rightarrow> error list" where
  "errors_of rs = concat (map (\<lambda>r. case r of None \<Rightarrow> [] | Some e \<Rightarrow> [e]) rs)"

lemma errors_of_simps [simp]:
  "errors_of [] = []" "errors_of (None # rs) = errors_of rs" "errors_of (Some e # rs) = e # errors_of rs"
  "errors_of (xs @ ys) = errors_of xs @ errors_of ys"
  by (simp_all add: errors_of_def)

lemma errors_of_empty: "errors_of rs = [] \<longleftrightarrow> set rs \<subseteq> {None}"
  by (induction rs) (auto simp: errors_of_def split: option.splits)

lemma length_errors_of: "length (errors_of rs) \<le> length rs"
proof (induction rs)
  case (Cons r rs)
  then show ?case by (cases r) auto
qed simp

lemma errors_of_full: "length rs \<le> length (errors_of rs) \<longleftrightarrow> None \<notin> set rs"
proof (induction rs)
  case (Cons r rs)
  then show ?case using length_errors_of[of rs] by (cases r) auto
qed simp

text \<open>
  The interface of a request that goes to several receivers: each receiver's step adds the call
  to the log and changes nothing else, and its error is the answer, filtered by \<open>judge\<close>. What
  the client of a fan-out relies on is proved here once.
\<close>

locale fan_out =
  fixes env :: "'a lb_env"
    and step :: "'i \<Rightarrow> 'a Manager \<Rightarrow> 'a Manager \<times> error option"
    and run :: "'i list \<Rightarrow> 'a Manager \<Rightarrow> 'a Manager \<times> error list"
    and call_of :: "'i \<Rightarrow> string \<times> api_call"
    and judge :: "error option \<Rightarrow> error option"
  assumes step_law: "step i m =
      (m\<lparr>apiLog := apiLog m @ [call_of i]\<rparr>, judge (e_answer env (apiLog m) (fst (call_of i)) (snd (call_of i))))"
    and run_Nil: "run [] m = (m, [])"
    and run_Cons: "run (i # is) m =
      (case step i m of (m, err) \<Rightarrow>
         (case run is m of (m, errs) \<Rightarrow> (m, (case err of None \<Rightarrow> errs | Some e \<Rightarrow> e # errs))))"
begin

lemma run_result:
  "run is m = (m\<lparr>apiLog := apiLog m @ map call_of is\<rparr>,
               errors_of (map judge (answers env (apiLog m) (map call_of is))))"
proof (induction "is" arbitrary: m)
  case (Cons i "is")
  obtain u c where "call_of i = (u, c)" by (cases "call_of i")
  then show ?case by (simp add: run_Cons step_law Cons.IH split: option.split)
qed (simp add: run_Nil)

lemma run_all_refuse:
  "length is \<le> length (snd (run is m)) \<longleftrightarrow>
   (\<forall>r\<in>set (answers env (apiLog m) (map call_of is)). judge r \<noteq> None)"
  using errors_of_full[of "map judge (answers env (apiLog m) (map call_of is))"]
  by (auto simp: run_result image_iff simp del: not_None_eq) (metis option.exhaust)

end

definition client_rule :: "LoxiClient \<Rightarrow> LoadBalancerModel \<Rightarrow> bool \<Rightarrow> LoadBalancerModel" where
  "client_rule c lb prefLocal = (if prefLocal then lb\<lparr>lb_Endpoints := local_endpoints c lb\<rparr> else lb)"

definition refused :: "error option \<Rightarrow> error option" where
  "refused r = (case r of None \<Rightarrow> None | Some e \<Rightarrow> if contains_str e ''exist'' then None else Some e)"

interpretation installs:
  fan_out env "\<lambda>c. installLB env c lb prefLocal" "\<lambda>cs. install_all env cs lb prefLocal"
    "\<lambda>c. (cl_Url c, LbCreate (client_rule c lb prefLocal))" refused
  for env :: "'a lb_env" and lb prefLocal
  by unfold_locales (auto simp: installLB_def api_send_def client_rule_def refused_def Let_def split: option.split)

interpretation sends:
  fan_out env "\<lambda>(c, call). api_send env c call" "send_all env" "\<lambda>(c, call). (cl_Url c, call)" "\<lambda>r. r"
  for env :: "'a lb_env"
  by unfold_locales (auto simp: api_send_def split: prod.split)

subsection \<open>Pools of a manager\<close>

definition wf_pools :: "'a Manager \<Rightarrow> bool" where
  "wf_pools m = list_all wf_pool (poolStore m)"

definition wf_entry :: "'a Manager \<Rightarrow> LbCacheEntry \<Rightarrow> bool" where
  "wf_entry m e = (\<forall>p\<in>set (ce_IPPool e # ce_SIPPools e). p < length (poolStore m))"

definition wf_manager :: "'a Manager \<Rightarrow> bool" where
  "wf_manager m =
     (wf_pools m \<and> (\<forall>(k, e)\<in>set (lbCache m). wf_entry m e) \<and>
      (\<forall>(n, p)\<in>set (ipPoolTbl m @ ip6PoolTbl m). p < length (poolStore m)))"

text \<open>\<open>pools_moved m m'\<close>: only the allocators of the pools differ.\<close>

definition pools_moved :: "'a Manager \<Rightarrow> 'a Manager \<Rightarrow> bool" where
  "pools_moved m m' = (\<exists>ps. list_all2 same_pool (poolStore m) ps \<and> m' = m\<lparr>poolStore := ps\<rparr>)"

definition ledger :: "('a \<Rightarrow> (string \<times> string) set) \<Rightarrow> 'a Manager \<Rightarrow> nat \<Rightarrow> (string \<times> string) set" where
  "ledger held m p = held (IPAlloc (poolStore m ! p))"

text \<open>The pool \<open>p\<close> takes the address \<open>ip\<close> back: it parses and is in the pool.\<close>

definition takes_back :: "'a lb_env \<Rightarrow> 'a Manager \<Rightarrow> nat \<Rightarrow> string \<Rightarrow> bool" where
  "takes_back env m p ip = (ParseIP ip \<noteq> [] \<and> in_pool (e_tk env) (poolStore m ! p) (ParseIP ip))"

lemma same_pool_list_refl [simp]: "list_all2 same_pool ps ps"
  by (simp add: list_all2_conv_all_nth)

lemma pools_moved_refl [simp]: "pools_moved m m"
  by (auto simp: pools_moved_def intro!: exI[of _ "poolStore m"])

lemma pools_moved_trans:
  assumes "pools_moved m m'" and "pools_moved m' m''"
  shows "pools_moved m m''"
  using assms list_all2_trans[of same_pool same_pool same_pool, OF same_pool_trans]
  by (fastforce simp: pools_moved_def)

lemma pools_moved_fields:
  assumes "pools_moved m m'"
  shows "length (poolStore m') = length (poolStore m)" "lbCache m' = lbCache m" "apiLog m' = apiLog m"
    "statusLog m' = statusLog m" "LoxiClients m' = LoxiClients m" "zoneInstSelHint m' = zoneInstSelHint m"
    "loxiInstAddrMap m' = loxiInstAddrMap m" "zoneInstRoleMap m' = zoneInstRoleMap m"
  using assms by (auto simp: pools_moved_def dest: list_all2_lengthD)

lemma pools_moved_nth:
  "pools_moved m m' \<Longrightarrow> p < length (poolStore m) \<Longrightarrow> same_pool (poolStore m ! p) (poolStore m' ! p)"
  by (auto simp: pools_moved_def list_all2_nthD)

lemma wf_pools_moved: "pools_moved m m' \<Longrightarrow> wf_pools m' = wf_pools m"
  by (auto simp: pools_moved_def wf_pools_def list_all2_conv_all_nth list_all_length) (metis wf_pool_same)+

lemma takes_back_moved:
  "pools_moved m m' \<Longrightarrow> p < length (poolStore m) \<Longrightarrow> takes_back env m' p ip = takes_back env m p ip"
  by (simp add: takes_back_def in_pool_def pool_Contains_same[OF pools_moved_nth])

lemma pools_moved_upd:
  "p < length (poolStore m) \<Longrightarrow> same_pool (poolStore m ! p) q \<Longrightarrow>
   pools_moved m (m\<lparr>poolStore := (poolStore m)[p := q]\<rparr>)"
  by (auto simp: pools_moved_def list_all2_conv_all_nth nth_list_update intro!: exI[of _ "(poolStore m)[p := q]"])

lemma with_pool_Ret:
  "p < length (poolStore m) \<Longrightarrow>
   with_pool p f m = go_map (\<lambda>(q, r). (m\<lparr>poolStore := (poolStore m)[p := q]\<rparr>, r)) (f (poolStore m ! p))"
  by (simp add: with_pool_def)

text \<open>One return: nothing fails, only the pool's allocator moves, and the ledger loses the pair.\<close>

lemma pool_Return_ok:
  assumes "ipam_contract (e_tk env) held" and "wf_pools m" and "p < length (poolStore m)"
  shows "\<exists>m'. pool_Return env p ip ident m = Ret m' \<and> pools_moved m m' \<and>
    (\<forall>i<length (poolStore m).
       ledger held m' i = ledger held m i - (if i = p \<and> takes_back env m p ip then {(ident, ip)} else {}))"
proof -
  let ?q = "poolStore m ! p"
  have "wf_pool ?q" using assms(2,3) by (simp add: wf_pools_def list_all_length)
  then have r: "ReturnIPAddr (e_tk env) ?q ip ident =
    Ret (if takes_back env m p ip then ?q\<lparr>IPAlloc :=
           DeAllocateIP (e_tk env) (IPAlloc ?q) (IPClusterDefault (e_tk env)) (CIDR ?q) ident ip\<rparr> else ?q)"
    by (simp add: ReturnIPAddr_ret takes_back_def)
  show ?thesis
    using assms(3) pools_moved_upd[OF assms(3)]
    by (auto simp: pool_Return_def with_pool_Ret r ledger_def nth_list_update ipam_free[OF assms(1)])
qed

text \<open>Returns as data: the pool, the address and the identifier.\<close>

definition returned :: "'a lb_env \<Rightarrow> 'a Manager \<Rightarrow> (nat \<times> string \<times> string) list \<Rightarrow> nat \<Rightarrow> (string \<times> string) set" where
  "returned env m rs i = {(ident, ip) | ident ip. (i, ip, ident) \<in> set rs \<and> takes_back env m i ip}"

lemma pool_returns_ok:
  assumes "ipam_contract (e_tk env) held" and "wf_pools m"
    and "\<forall>(p, ip, ident)\<in>set rs. p < length (poolStore m)"
  shows "\<exists>m'. go_fold (\<lambda>(p, ip, ident). pool_Return env p ip ident) rs m = Ret m' \<and> pools_moved m m' \<and>
    (\<forall>i<length (poolStore m). ledger held m' i = ledger held m i - returned env m rs i)"
  using assms(2,3)
proof (induction rs arbitrary: m)
  case (Cons r rs)
  obtain p ip ident where r: "r = (p, ip, ident)" by (cases r)
  with Cons.prems have p: "p < length (poolStore m)" by simp
  obtain m1 where m1: "pool_Return env p ip ident m = Ret m1" "pools_moved m m1"
    "\<forall>i<length (poolStore m).
       ledger held m1 i = ledger held m i - (if i = p \<and> takes_back env m p ip then {(ident, ip)} else {})"
    using pool_Return_ok[OF assms(1) Cons.prems(1) p] by blast
  note len = pools_moved_fields(1)[OF m1(2)]
  obtain m2 where m2: "go_fold (\<lambda>(p, ip, ident). pool_Return env p ip ident) rs m1 = Ret m2" "pools_moved m1 m2"
    "\<forall>i<length (poolStore m1). ledger held m2 i = ledger held m1 i - returned env m1 rs i"
    using Cons.IH[of m1] Cons.prems m1(2) by (auto simp: wf_pools_moved len)
  have "returned env m (r # rs) i =
      (if i = p \<and> takes_back env m p ip then {(ident, ip)} else {}) \<union> returned env m1 rs i"
    if "i < length (poolStore m)" for i
    using that takes_back_moved[OF m1(2) that] by (auto simp: returned_def r)
  then show ?case
    using m1 m2 pools_moved_trans[OF m1(2) m2(2)] by (auto simp: r len)
qed (simp add: returned_def)

definition pair_returns :: "LbCacheEntry \<Rightarrow> LbServicePairEntry \<Rightarrow> (nat \<times> string \<times> string) list" where
  "pair_returns e sp =
     (if se_InRange sp then [(ce_IPPool e, se_ExternalIP sp, se_IdentIPAM sp)] else []) @
     map (\<lambda>(ip, p). (p, ip, se_IdentIPAM sp)) (zip (ce_SecIPs e) (ce_SIPPools e))"

lemma return_secondaries_returns:
  "return_secondaries env ips ps ident m =
   go_fold (\<lambda>(p, ip, ident). pool_Return env p ip ident) (map (\<lambda>(ip, p). (p, ip, ident)) (zip ips ps)) m"
  by (simp add: return_secondaries_def go_fold_map split_def)

lemma release_pair_returns:
  "release_pair env e sp m = go_fold (\<lambda>(p, ip, ident). pool_Return env p ip ident) (pair_returns e sp) m"
proof (cases "se_InRange sp")
  case True
  then show ?thesis
    by (cases "pool_Return env (ce_IPPool e) (se_ExternalIP sp) (se_IdentIPAM sp) m")
      (simp_all add: release_pair_def pair_returns_def return_secondaries_returns go_fold_append)
qed (simp add: release_pair_def pair_returns_def return_secondaries_returns)

text \<open>What an entry holds in the pools, as it is given back.\<close>

definition entry_returns :: "LbCacheEntry \<Rightarrow> (nat \<times> string \<times> string) list" where
  "entry_returns e = concat (map (pair_returns e) (map snd (ce_LbServicePairs e)))"

lemma entry_returns_wf:
  assumes "wf_entry m e" and "(p, ip, ident) \<in> set (entry_returns e)"
  shows "p < length (poolStore m)"
  using assms set_zip_rightD[of _ p "ce_SecIPs e" "ce_SIPPools e"]
  by (auto simp: entry_returns_def pair_returns_def wf_entry_def split: if_splits)

text \<open>The calls \<open>deleteLoadBalancer\<close> makes for an entry.\<close>

definition delete_calls :: "'a lb_env \<Rightarrow> LoxiClient list \<Rightarrow> LbCacheEntry \<Rightarrow> (string \<times> api_call) list" where
  "delete_calls env cs e =
     [(cl_Url c, delete_call env lb). sp \<leftarrow> map snd (ce_LbServicePairs e), lb \<leftarrow> se_LbModelList sp, c \<leftarrow> cs]"

lemma delete_rules_result:
  "delete_rules env sps m rErr = (m', err) \<Longrightarrow>
   (let calls = [(cl_Url c, delete_call env lb). sp \<leftarrow> sps, lb \<leftarrow> se_LbModelList sp, c \<leftarrow> LoxiClients m]
    in m' = m\<lparr>apiLog := apiLog m @ calls\<rparr> \<and>
       (err = None \<longleftrightarrow> rErr = None \<and> set (answers env (apiLog m) calls) \<subseteq> {None}))"
proof (induction sps arbitrary: m rErr)
  case (Cons sp sps)
  let ?out = "[(c, delete_call env lb). lb \<leftarrow> se_LbModelList sp, c \<leftarrow> LoxiClients m]"
  let ?calls = "[(cl_Url c, delete_call env lb). lb \<leftarrow> se_LbModelList sp, c \<leftarrow> LoxiClients m]"
  have calls: "map (\<lambda>(c, call). (cl_Url c, call)) ?out = ?calls"
    by (simp add: map_concat comp_def)
  show ?case
    using Cons.prems Cons.IH[of "m\<lparr>apiLog := apiLog m @ ?calls\<rparr>"]
      errors_of_empty[of "answers env (apiLog m) ?calls"]
    by (auto simp: Let_def sends.run_result calls answers_append split: list.splits)
qed simp

lemma release_entry_returns:
  "go_fold (release_pair env e) (map snd (ce_LbServicePairs e)) m =
   go_fold (\<lambda>(p, ip, ident). pool_Return env p ip ident) (entry_returns e) m"
  unfolding entry_returns_def go_fold_concat[symmetric] release_pair_returns[abs_def] ..

lemma deleteLoadBalancer_result:
  assumes "wf_manager m" and "ipam_contract (e_tk env) held"
    and "map_of (lbCache m) (GenKey ns name) = Some e"
  shows "\<exists>m' err. deleteLoadBalancer env ns name releaseAll m = Ret (m', err) \<and>
    apiLog m' = apiLog m @ delete_calls env (LoxiClients m) e \<and>
    (err = None \<longleftrightarrow> set (answers env (apiLog m) (delete_calls env (LoxiClients m) e)) \<subseteq> {None}) \<and>
    (err = None \<and> releaseAll \<longrightarrow>
       lbCache m' = AList.delete (GenKey ns name) (lbCache m) \<and>
       (\<forall>i<length (poolStore m). ledger held m' i = ledger held m i - returned env m (entry_returns e) i)) \<and>
    (err \<noteq> None \<or> \<not> releaseAll \<longrightarrow> lbCache m' = lbCache m \<and> poolStore m' = poolStore m)"
proof -
  let ?calls = "delete_calls env (LoxiClients m) e"
  let ?m1 = "m\<lparr>apiLog := apiLog m @ ?calls\<rparr>"
  obtain m1 rErr where d: "delete_rules env (map snd (ce_LbServicePairs e)) m None = (m1, rErr)"
    by (cases "delete_rules env (map snd (ce_LbServicePairs e)) m None")
  have m1: "m1 = ?m1" and ok: "rErr = None \<longleftrightarrow> set (answers env (apiLog m) ?calls) \<subseteq> {None}"
    using delete_rules_result[OF d] by (simp_all add: delete_calls_def Let_def)
  have "(GenKey ns name, e) \<in> set (lbCache m)" using assms(3) by (rule map_of_SomeD)
  then have "wf_pools ?m1" "wf_entry ?m1 e"
    using assms(1) by (auto simp: wf_manager_def wf_pools_def wf_entry_def)
  then obtain m2 where m2: "go_fold (release_pair env e) (map snd (ce_LbServicePairs e)) ?m1 = Ret m2"
    "pools_moved ?m1 m2"
    "\<forall>i<length (poolStore m). ledger held m2 i = ledger held ?m1 i - returned env ?m1 (entry_returns e) i"
    using pool_returns_ok[OF assms(2), of ?m1 "entry_returns e"] entry_returns_wf[of ?m1 e]
    by (auto simp: release_entry_returns)
  have "ledger held ?m1 = ledger held m" "returned env ?m1 = returned env m"
    by (auto simp: ledger_def returned_def takes_back_def fun_eq_iff)
  then show ?thesis
    using assms(3) d m1 ok m2 pools_moved_fields[OF m2(2)]
    by (cases rErr) (auto simp: deleteLoadBalancer_def Let_def ledger_def)
qed

text \<open>
  C1. Removing a service. \<open>deleteLoadBalancer\<close> sends one delete per cached rule and instance, in
  every case. If an instance reports an error, the error is returned and neither the cache nor a
  pool changes, so that the event can be retried. If all succeed and the service is released,
  its entry and no other leaves the cache, and the ledger of each pool loses exactly what the
  entry holds there: for each service pair its external address, if it came from the pool, and
  the secondary addresses, under the identifier of the pair. Nothing panics.
\<close>

theorem delete_releases_exactly:
  assumes "wf_manager m" and "ipam_contract (e_tk env) held"
    and "map_of (lbCache m) (GenKey ns name) = Some e"
  shows "\<exists>m' err. deleteLoadBalancer env ns name releaseAll m = Ret (m', err) \<and>
    apiLog m' = apiLog m @ delete_calls env (LoxiClients m) e \<and>
    (err = None \<longleftrightarrow> set (answers env (apiLog m) (delete_calls env (LoxiClients m) e)) \<subseteq> {None}) \<and>
    (err = None \<and> releaseAll \<longrightarrow>
       lbCache m' = AList.delete (GenKey ns name) (lbCache m) \<and>
       (\<forall>i<length (poolStore m). ledger held m' i = ledger held m i - returned env m (entry_returns e) i)) \<and>
    (err \<noteq> None \<or> \<not> releaseAll \<longrightarrow> lbCache m' = lbCache m \<and> poolStore m' = poolStore m)"
  by (rule deleteLoadBalancer_result[OF assms])

subsection \<open>Installing a rule\<close>

lemma endpoint_models_result:
  "endpoint_models env args svc port ips =
     (if ips = [] then Inr []
      else (case target_ports env args svc port of
              Inl e \<Rightarrow> Inl e
            | Inr ts \<Rightarrow> if ts = [] then Inl ''no endpoints to make lbmodel''
                        else Inr [mk_endpoint ip t. ip \<leftarrow> ips, t \<leftarrow> ts]))"
  by (induction ips) (auto split: sum.splits)

lemma rule_endpoints:
  assumes "makeLoxiLoadBalancerModel env args svc port = Inr lb" and "a_endpointIPs args \<noteq> []"
  obtains ts where "target_ports env args svc port = Inr ts" "ts \<noteq> []"
    "lb_Endpoints lb = [mk_endpoint ip t. ip \<leftarrow> a_endpointIPs args, t \<leftarrow> ts]"
  using assms
  by (auto simp: makeLoxiLoadBalancerModel_def Let_def endpoint_models_result split: sum.splits if_splits)

definition install_calls :: "LoxiClient list \<Rightarrow> LoadBalancerModel \<Rightarrow> bool \<Rightarrow> (string \<times> api_call) list" where
  "install_calls cs lb prefLocal = map (\<lambda>c. (cl_Url c, LbCreate (client_rule c lb prefLocal))) cs"

lemma install_pair_result:
  assumes "map_of (lbCache m) key = Some e"
    and "makeLoxiLoadBalancerModel env (mk_args opts e ips (getServicePrivateIP (e_cfg env) svc) pair) svc
           (K8sSvcPort pair) = Inr lb"
  shows "\<exists>m' err. install_pair env opts svc ips key pair m = Ret (m', err) \<and>
    m' = (m\<lparr>apiLog := apiLog m @ install_calls (LoxiClients m) lb (ce_PrefLocal e),
            lbCache := (if err = None then
               AList.update key (e\<lparr>ce_LbServicePairs :=
                 AList.update (pair_key pair) (pair_entry pair lb) (ce_LbServicePairs e)\<rparr>) (lbCache m)
               else lbCache m)\<rparr>) \<and>
    (err \<noteq> None \<longleftrightarrow> LoxiClients m \<noteq> [] \<and>
       (\<forall>r\<in>set (answers env (apiLog m) (install_calls (LoxiClients m) lb (ce_PrefLocal e))). refused r \<noteq> None))"
proof -
  obtain m1 errs where r: "install_all env (LoxiClients m) lb (ce_PrefLocal e) m = (m1, errs)"
    by (cases "install_all env (LoxiClients m) lb (ce_PrefLocal e) m")
  have m1: "m1 = m\<lparr>apiLog := apiLog m @ install_calls (LoxiClients m) lb (ce_PrefLocal e)\<rparr>"
    using r by (simp add: installs.run_result install_calls_def)
  have all: "length (LoxiClients m) \<le> length errs \<longleftrightarrow>
     (\<forall>r\<in>set (answers env (apiLog m) (install_calls (LoxiClients m) lb (ce_PrefLocal e))). refused r \<noteq> None)"
    using installs.run_all_refuse[of "LoxiClients m" env lb "ce_PrefLocal e" m] r
    unfolding install_calls_def by simp
  have "LoxiClients m = [] \<Longrightarrow> errs = []" using r by simp
  then show ?thesis
    using assms r all[symmetric] unfolding m1
    by (auto simp: install_pair_def Let_def set_entry_def simp del: not_None_eq)
qed

text \<open>
  C17. Installing one service pair. The rule goes to every instance, once each, and it is accepted
  unless every one of them refuses it; an instance that answers that the rule exists already
  has not refused it. If it is accepted, the pair is in the service's cache entry afterwards
  with exactly this rule, and nothing else of the cache changes; if not, the cache is as it
  was and the error is returned. The rule has an endpoint for each pair of an endpoint address
  and a target port.
\<close>

theorem install_pair_outcome:
  assumes "map_of (lbCache m) key = Some e" and "ips \<noteq> []"
    and "makeLoxiLoadBalancerModel env (mk_args opts e ips (getServicePrivateIP (e_cfg env) svc) pair) svc
           (K8sSvcPort pair) = Inr lb"
  shows "\<exists>m' err ts. install_pair env opts svc ips key pair m = Ret (m', err) \<and>
    (lb_Endpoints lb = [mk_endpoint ip t. ip \<leftarrow> ips, t \<leftarrow> ts] \<and> ts \<noteq> []) \<and>
    apiLog m' = apiLog m @ install_calls (LoxiClients m) lb (ce_PrefLocal e) \<and>
    (err \<noteq> None \<longleftrightarrow> LoxiClients m \<noteq> [] \<and>
       (\<forall>r\<in>set (answers env (apiLog m) (install_calls (LoxiClients m) lb (ce_PrefLocal e))). refused r \<noteq> None)) \<and>
    (err \<noteq> None \<longrightarrow> lbCache m' = lbCache m) \<and>
    (err = None \<longrightarrow>
       (\<forall>k. k \<noteq> key \<longrightarrow> map_of (lbCache m') k = map_of (lbCache m) k) \<and>
       (\<exists>e'. map_of (lbCache m') key = Some e' \<and>
          map_of (ce_LbServicePairs e') (pair_key pair) = Some (pair_entry pair lb) \<and>
          (\<forall>k. k \<noteq> pair_key pair \<longrightarrow> map_of (ce_LbServicePairs e') k = map_of (ce_LbServicePairs e) k)))"
proof -
  let ?args = "mk_args opts e ips (getServicePrivateIP (e_cfg env) svc) pair"
  have "a_endpointIPs ?args = ips" by (simp add: mk_args_def)
  then obtain ts where ts: "ts \<noteq> []" "lb_Endpoints lb = [mk_endpoint ip t. ip \<leftarrow> ips, t \<leftarrow> ts]"
    using rule_endpoints[OF assms(3)] assms(2) by metis
  let ?log = "install_calls (LoxiClients m) lb (ce_PrefLocal e)"
  let ?refused = "\<forall>r\<in>set (answers env (apiLog m) ?log). refused r \<noteq> None"
  obtain m' err where r: "install_pair env opts svc ips key pair m = Ret (m', err)"
    and m': "m' = (m\<lparr>apiLog := apiLog m @ ?log,
            lbCache := (if err = None then
               AList.update key (e\<lparr>ce_LbServicePairs :=
                 AList.update (pair_key pair) (pair_entry pair lb) (ce_LbServicePairs e)\<rparr>) (lbCache m)
               else lbCache m)\<rparr>)"
    and err: "err \<noteq> None \<longleftrightarrow> LoxiClients m \<noteq> [] \<and> ?refused"
    using install_pair_result[OF assms(1,3)] by metis
  have log: "apiLog m' = apiLog m @ ?log" by (simp add: m')
  have "err \<noteq> None \<Longrightarrow> lbCache m' = lbCache m" by (auto simp: m')
  moreover have "err = None \<Longrightarrow> map_of (lbCache m') = (map_of (lbCache m))(key \<mapsto> e\<lparr>ce_LbServicePairs :=
                 AList.update (pair_key pair) (pair_entry pair lb) (ce_LbServicePairs e)\<rparr>)"
    by (simp add: m' update_conv')
  ultimately show ?thesis
    using r log err ts by (intro exI[of _ m'] exI[of _ err] exI[of _ ts] conjI) (simp_all add: update_conv' del: not_None_eq)
qed

subsection \<open>Detecting changes\<close>

lemma takeWhile_length_iff: "length (takeWhile P xs) = length xs \<longleftrightarrow> (\<forall>x\<in>set xs. P x)"
  by (induction xs) auto

lemma endpoints_changed_iff:
  assumes "distinct ips"
  shows "\<not> endpoints_changed ips lb \<longleftrightarrow>
    length ips = length (lb_Endpoints lb) \<and> set ips = EndpointIP ` set (lb_Endpoints lb)"
proof -
  let ?E = "map EndpointIP (lb_Endpoints lb)"
  have "set ips = set ?E" if "length ips = length (lb_Endpoints lb)" "set ips \<subseteq> set ?E"
  proof (rule card_subset_eq[OF _ that(2)])
    have "card (set ?E) \<le> card (set ips)"
      using card_length[of ?E] that(1) distinct_card[OF assms] by simp
    then show "card (set ips) = card (set ?E)" using card_mono[OF _ that(2)] by simp
  qed simp
  moreover have "\<not> endpoints_changed ips lb \<longleftrightarrow> length ips = length (lb_Endpoints lb) \<and> set ips \<subseteq> set ?E"
    using takeWhile_length_iff[of "\<lambda>ep. \<exists>old\<in>set (lb_Endpoints lb). ep = EndpointIP old" ips]
    by (auto simp: endpoints_changed_def list_ex_iff)
  ultimately show ?thesis by auto
qed

lemma product_length: "length [mk_endpoint ip t. ip \<leftarrow> ips, t \<leftarrow> ts] = length ips * length ts"
  by (induction ips) auto

lemma product_targets: "ts \<noteq> [] \<Longrightarrow> EndpointIP ` set [mk_endpoint ip t. ip \<leftarrow> ips, t \<leftarrow> ts] = set ips"
  by (auto simp: mk_endpoint_def image_UN image_image image_constant_conv)

text \<open>
  C31. When the endpoints of a service are compared with those of its rule. For a rule made for
  the addresses \<open>ips\<close> and the target ports \<open>ts\<close>, and a list \<open>now\<close> of addresses without
  repetition, the comparison finds no difference exactly when both lists have the same
  addresses and there is one target port: every change of the addresses is noticed, but a
  rule with several target ports per address is found changed at every event.
\<close>

theorem endpoint_change_detected:
  assumes "distinct ips" and "distinct now" and "ips \<noteq> []" and "a_endpointIPs args = ips"
    and "target_ports env args svc port = Inr ts"
    and "makeLoxiLoadBalancerModel env args svc port = Inr lb"
  shows "\<not> endpoints_changed now lb \<longleftrightarrow> set now = set ips \<and> length ts = 1"
proof -
  have ts: "ts \<noteq> []" "lb_Endpoints lb = [mk_endpoint ip t. ip \<leftarrow> ips, t \<leftarrow> ts]"
    using rule_endpoints[OF assms(6)] assms(3-5) by auto
  have "set now = set ips \<Longrightarrow> length now = length ips"
    using assms(1,2) distinct_card by metis
  moreover have "length ips = length ips * length ts \<longleftrightarrow> length ts = 1" using assms(3) by auto
  ultimately show ?thesis
    unfolding endpoints_changed_iff[OF assms(2)] ts(2) product_length product_targets[OF ts(1)] by metis
qed

text \<open>The flags of a chain of comparisons: \<open>d\<close> says that an option differed so far.\<close>

definition flags :: "bool \<Rightarrow> bool \<Rightarrow> bool \<Rightarrow> bool \<times> bool" where
  "flags added u d = (u \<or> d, added \<and> d)"

lemma chg_flags:
  assumes "assign e = e \<or> differs e"
  shows "chg added differs assign (e, flags added u d) = (assign e, flags added u (d \<or> differs e))"
  using assms by (auto simp: chg_def flags_def)

lemma bool_agrees: "(b = c) \<or> (b = (\<not> c))"
  by blast

lemma u16_agrees: "u16 i = w \<or> i \<noteq> uint w"
  by (auto simp: u16_def)

lemma u16_roundtrip: "int (unat (u16 i)) = i \<longleftrightarrow> 0 \<le> i \<and> i < 65536"
  by (auto simp: u16_def uint_word_of_int_eq take_bit_eq_mod unat_eq_nat_uint dest: sym)

text \<open>The cached options after a comparison, and whether one of them differed.\<close>

definition with_opts :: "LbOpts \<Rightarrow> LbCacheEntry \<Rightarrow> LbCacheEntry" where
  "with_opts opts e =
     e\<lparr>ce_Addr := o_addrType opts, ce_NodeLabel := o_matchNodeLabel opts, ce_Timeout := o_timeout opts,
       ce_ActCheck := o_livenessCheck opts, ce_LbMode := o_lbMode opts, ce_ProbeType := o_probeType opts,
       ce_ProbePort := u16 (o_probePort opts), ce_ProbeReq := o_probeReq opts, ce_ProbeResp := o_probeResp opts,
       ce_ProbeTimeo := o_probeTimeout opts, ce_ProbeRetries := o_probeRetries opts,
       ce_EpSelect := o_epSelect opts, ce_ppv2En := o_enProxyProtov2 opts, ce_egress := o_isEgress opts\<rparr>"

definition no_rules :: "LbCacheEntry \<Rightarrow> bool" where
  "no_rules e = (ce_LbServicePairs e = [] \<or> list_ex (\<lambda>(_, sp). se_LbModelList sp = []) (ce_LbServicePairs e))"

definition addr_differs :: "LbOpts \<Rightarrow> LbCacheEntry \<Rightarrow> bool" where
  "addr_differs opts e \<longleftrightarrow>
     o_addrType opts \<noteq> ce_Addr e \<or> o_matchNodeLabel opts \<noteq> ce_NodeLabel e \<or> o_timeout opts \<noteq> ce_Timeout e \<or>
     o_livenessCheck opts \<noteq> ce_ActCheck e \<or> o_lbMode opts \<noteq> ce_LbMode e"

definition probe_differs :: "LbOpts \<Rightarrow> LbCacheEntry \<Rightarrow> bool" where
  "probe_differs opts e \<longleftrightarrow>
     o_probeType opts \<noteq> ce_ProbeType e \<or> o_probePort opts \<noteq> int (unat (ce_ProbePort e)) \<or>
     o_probeReq opts \<noteq> ce_ProbeReq e \<or> o_probeResp opts \<noteq> ce_ProbeResp e \<or>
     o_probeTimeout opts \<noteq> ce_ProbeTimeo e \<or> o_probeRetries opts \<noteq> ce_ProbeRetries e \<or>
     o_epSelect opts \<noteq> ce_EpSelect e \<or> o_enProxyProtov2 opts \<noteq> ce_ppv2En e \<or> o_isEgress opts \<noteq> ce_egress e"

lemma sync_addr_fields_eq:
  "sync_addr_fields added opts (e, flags added u d) =
     (e\<lparr>ce_Addr := o_addrType opts, ce_NodeLabel := o_matchNodeLabel opts, ce_Timeout := o_timeout opts,
       ce_ActCheck := o_livenessCheck opts, ce_LbMode := o_lbMode opts\<rparr>, flags added u (d \<or> addr_differs opts e))"
  by (cases e) (simp add: sync_addr_fields_def Let_def chg_flags bool_agrees addr_differs_def,
      rule arg_cong[where f = "flags added u"], blast)

lemma sync_probe_fields_eq:
  "sync_probe_fields added opts (e, flags added u d) =
     (e\<lparr>ce_ProbeType := o_probeType opts, ce_ProbePort := u16 (o_probePort opts), ce_ProbeReq := o_probeReq opts,
       ce_ProbeResp := o_probeResp opts, ce_ProbeTimeo := o_probeTimeout opts,
       ce_ProbeRetries := o_probeRetries opts, ce_EpSelect := o_epSelect opts,
       ce_ppv2En := o_enProxyProtov2 opts, ce_egress := o_isEgress opts\<rparr>,
      flags added u (d \<or> probe_differs opts e))"
  by (cases e) (simp add: sync_probe_fields_def Let_def chg_flags bool_agrees u16_agrees probe_differs_def,
      rule arg_cong[where f = "flags added u"], blast)

lemma sync_fields_eq:
  "sync_fields added opts e =
     (with_opts opts e, flags added (no_rules e) (addr_differs opts e \<or> probe_differs opts e))"
proof -
  have "flags added (no_rules e) False = (no_rules e, False)" by (simp add: flags_def)
  then have "sync_fields added opts e =
    sync_probe_fields added opts (sync_addr_fields added opts (e, flags added (no_rules e) False))"
    by (simp add: sync_fields_def no_rules_def)
  then show ?thesis
    by (simp add: sync_addr_fields_eq sync_probe_fields_eq with_opts_def probe_differs_def)
qed

text \<open>
  After the options of a service were compared with the cached ones, the cache holds the
  options, and a second comparison with the same options asks for nothing more than the rules
  that are missing, provided the probe port fits in 16 bits. A probe port outside of
  \<open>0..65535\<close> is cut to 16 bits when it is stored, so that it differs again every time: the
  rules of the service are deleted and installed again at every event.
\<close>

theorem options_converge:
  assumes "sync_fields added opts e = (e', update, needDelete)"
  shows "sync_fields True opts e' =
    (e', no_rules e \<or> \<not> (0 \<le> o_probePort opts \<and> o_probePort opts < 65536),
     \<not> (0 \<le> o_probePort opts \<and> o_probePort opts < 65536))"
proof -
  have e': "e' = with_opts opts e" using assms by (simp add: sync_fields_eq)
  have "\<not> addr_differs opts e'" "no_rules e' = no_rules e" "with_opts opts e' = e'"
    by (simp_all add: e' with_opts_def addr_differs_def no_rules_def)
  moreover have "probe_differs opts e' \<longleftrightarrow> \<not> (0 \<le> o_probePort opts \<and> o_probePort opts < 65536)"
    using u16_roundtrip[of "o_probePort opts"] by (auto simp: e' with_opts_def probe_differs_def)
  ultimately show ?thesis by (simp add: sync_fields_eq flags_def)
qed

subsection \<open>A service without external address\<close>

definition new_pair :: "IP \<Rightarrow> string \<Rightarrow> bool \<Rightarrow> ServicePort \<Rightarrow> SvcPair" where
  "new_pair ip ident fresh port =
     \<lparr>IPString = IP_String ip, pr_Port = sp_Port port, pr_Protocol = to_lower (sp_Protocol port),
      pr_InRange = True, pr_StaticIP = False, pr_IdentIPAM = ident, IPAllocd = fresh, K8sSvcPort = port\<rparr>"

lemma new_pair_fields:
  "IPString (new_pair ip ident b p) = IP_String ip" "pr_InRange (new_pair ip ident b p)"
  "pr_IdentIPAM (new_pair ip ident b p) = ident" "IPAllocd (new_pair ip ident b p) = b"
  "K8sSvcPort (new_pair ip ident b p) = p"
  by (simp_all add: new_pair_def)

definition port_ident :: "'a lb_env \<Rightarrow> 'a Manager \<Rightarrow> nat \<Rightarrow> ServicePort \<Rightarrow> string" where
  "port_ident env m p port = shared_ident env m p (sp_Port port) (to_lower (sp_Protocol port))"

lemma new_loop_rest:
  assumes "ce_LbServicePairs e = []"
  shows "new_loop env key e ports (Some ip) sPairs m =
    Ret (m, sPairs @ map (\<lambda>port. new_pair ip (port_ident env m (ce_IPPool e) port) False port) ports)"
  by (induction ports arbitrary: sPairs) (simp_all add: assms Let_def new_pair_def port_ident_def)

lemma pairs_of_new_service:
  assumes "ce_LbServicePairs e = []" and "getLBIngressSvcPairs (e_cfg env) svc = []"
    and "ce_IPPool e < length (poolStore m)" and "sv_Ports svc = port # ports"
    and "GetNewIPAddr (e_tk env) (poolStore m ! ce_IPPool e) (GenKey (sv_Namespace svc) (sv_Name svc))
           (u32 (sp_Port port)) (to_lower (sp_Protocol port)) = (q, ip, ident)"
  shows "getIngressSvcPairs env svc e m =
    (if ip = [] then Exit ''kube-loxilb cant run optimally anymore''
     else Ret (m\<lparr>poolStore := (poolStore m)[ce_IPPool e := q]\<rparr>,
               new_pair ip ident True port #
                 map (\<lambda>port. new_pair ip (port_ident env m (ce_IPPool e) port) False port) ports, False))"
proof -
  have "same_pool (poolStore m ! ce_IPPool e) q"
    using GetNewIPAddr_same[of "poolStore m ! ce_IPPool e"] assms(5) by (metis fst_conv)
  then have "port_ident env (m\<lparr>poolStore := (poolStore m)[ce_IPPool e := q]\<rparr>) (ce_IPPool e) =
      port_ident env m (ce_IPPool e)"
    using assms(3) by (simp add: port_ident_def shared_ident_def same_pool_fields fun_eq_iff)
  then show ?thesis
    using assms
    by (simp add: getIngressSvcPairs_def Let_def pool_GetNew_def with_pool_Ret new_loop_rest new_pair_def)
qed

text \<open>The addresses the allocator hands out for a pool are addresses the pool takes back.\<close>

definition allocates_inside :: "'a loxilib \<Rightarrow> 'a IPPool \<Rightarrow> bool" where
  "allocates_inside tk q =
     (\<forall>al ident al' ip. AllocateNewIP tk al (IPClusterDefault tk) (CIDR q) ident = (al', ip, None) \<longrightarrow>
        ParseIP (IP_String ip) \<noteq> [] \<and> in_pool tk q (ParseIP (IP_String ip)))"

lemma GetNewIPAddr_inside:
  assumes "allocates_inside tk q" and "GetNewIPAddr tk q name s proto = (q', ip, ident)" and "ip \<noteq> []"
  shows "ParseIP (IP_String ip) \<noteq> []" "in_pool tk q (ParseIP (IP_String ip))"
  using assms unfolding allocates_inside_def
  by (auto simp: GetNewIPAddr_def Let_def split: prod.splits if_splits)

text \<open>
  When a pool has no address for a service: the allocator refuses one for the identifier of the port,
  and then, if this is an identifier of its own, also one without identifier.
\<close>

definition alloc_refuses :: "'a loxilib \<Rightarrow> 'a \<Rightarrow> string \<Rightarrow> string \<Rightarrow> bool" where
  "alloc_refuses tk al cidr ident = (snd (snd (AllocateNewIP tk al (IPClusterDefault tk) cidr ident)) \<noteq> None)"

definition no_address_left :: "'a loxilib \<Rightarrow> 'a IPPool \<Rightarrow> 32 word \<Rightarrow> string \<Rightarrow> bool" where
  "no_address_left tk q s proto \<longleftrightarrow>
     (let ident = pool_ident tk q s proto in
      alloc_refuses tk (IPAlloc q) (CIDR q) ident \<and>
      (ident = IPAMNoIdent tk \<or>
       alloc_refuses tk (fst (AllocateNewIP tk (IPAlloc q) (IPClusterDefault tk) (CIDR q) ident)) (CIDR q) (IPAMNoIdent tk)))"

lemma GetNewIPAddr_empty_iff:
  assumes "allocates_inside tk q" and "GetNewIPAddr tk q name s proto = (q', ip, ident)"
  shows "ip = [] \<longleftrightarrow> no_address_left tk q s proto"
proof -
  have nil: "ParseIP (IP_String []) = []" by code_simp
  have some: "ip' \<noteq> []" if "AllocateNewIP tk al (IPClusterDefault tk) (CIDR q) ident' = (al', ip', None)" for al ident' al' ip'
    using that assms(1) nil unfolding allocates_inside_def by blast
  show ?thesis
    using assms(2)
    by (auto simp: GetNewIPAddr_def no_address_left_def alloc_refuses_def Let_def split: prod.splits if_splits dest: some)
qed

text \<open>
  C19. The addresses of a new service. When the pool of a service that has no external address has an
  address left for its first port, the service gets one service pair per port, all with the same
  address, and one allocation is made for it: the ledger of the pool of the service gains the pair of
  this address and the identifier of the first port, which was free, and no other ledger changes. For
  the further ports nothing is recorded, even when the pool is shared and their pairs carry
  identifiers of their own. The process exits exactly when the pool has no address left.
\<close>

theorem new_service_addresses:
  assumes "ipam_contract (e_tk env) held" and "allocates_inside (e_tk env) (poolStore m ! ce_IPPool e)"
    and "ce_LbServicePairs e = []" and "getLBIngressSvcPairs (e_cfg env) svc = []"
    and "ce_IPPool e < length (poolStore m)" and "sv_Ports svc = port # ports"
  shows "if no_address_left (e_tk env) (poolStore m ! ce_IPPool e) (u32 (sp_Port port)) (to_lower (sp_Protocol port))
    then getIngressSvcPairs env svc e m = Exit ''kube-loxilb cant run optimally anymore''
    else \<exists>m' ip pairs. getIngressSvcPairs env svc e m = Ret (m', pairs, False) \<and>
       map IPString pairs = replicate (length (sv_Ports svc)) (IP_String ip) \<and> ParseIP (IP_String ip) \<noteq> [] \<and>
       map K8sSvcPort pairs = sv_Ports svc \<and>
       map IPAllocd pairs = True # replicate (length (sv_Ports svc) - 1) False \<and>
       pools_moved m m' \<and>
       (pr_IdentIPAM (hd pairs), IP_String ip) \<notin> ledger held m (ce_IPPool e) \<and>
       (\<forall>i<length (poolStore m). ledger held m' i =
          ledger held m i \<union> (if i = ce_IPPool e then {(pr_IdentIPAM (hd pairs), IP_String ip)} else {}))"
proof -
  obtain q ip ident where g: "GetNewIPAddr (e_tk env) (poolStore m ! ce_IPPool e)
      (GenKey (sv_Namespace svc) (sv_Name svc)) (u32 (sp_Port port)) (to_lower (sp_Protocol port)) = (q, ip, ident)"
    by (rule prod_cases3)
  have "pools_moved m (m\<lparr>poolStore := (poolStore m)[ce_IPPool e := q]\<rparr>)"
    using pools_moved_upd[OF assms(5)] GetNewIPAddr_same[of "poolStore m ! ce_IPPool e"] g by (metis fst_conv)
  moreover note pairs_of_new_service[OF assms(3-6) g] GetNewIPAddr_ledger[OF assms(1) g]
    GetNewIPAddr_empty_iff[OF assms(2) g] GetNewIPAddr_inside(1)[OF assms(2) g]
  ultimately show ?thesis
    using assms(5)
    by (cases "ip = []")
      (auto simp: assms(6) new_pair_def comp_def map_replicate_const ledger_def nth_list_update intro!: exI[of _ ip])
qed

subsection \<open>A service that cannot be installed\<close>

definition secIPs_at :: "string \<Rightarrow> 'a Manager \<Rightarrow> string list option" where
  "secIPs_at key m = map_option ce_SecIPs (map_of (lbCache m) key)"

lemma install_pair_frame:
  assumes "install_pair env opts svc ips key p m = Ret (m', r)"
  shows "poolStore m' = poolStore m \<and> secIPs_at key m' = secIPs_at key m"
  using assms
  by (auto simp: install_pair_def Let_def installs.run_result secIPs_at_def set_entry_def update_conv'
      split: option.splits sum.splits if_splits)

lemma install_pairs_frame:
  "install_pairs env opts svc ips key ps m = Ret (m', r) \<Longrightarrow>
   poolStore m' = poolStore m \<and> secIPs_at key m' = secIPs_at key m"
proof (induction ps arbitrary: m)
  case (Cons p ps)
  then obtain m1 r1 where "install_pair env opts svc ips key p m = Ret (m1, r1)" by auto
  with Cons install_pair_frame[OF this] show ?case by (auto split: option.splits)
qed simp

lemma deallocate_rest:
  assumes "\<forall>(i, sp)\<in>set xs. i \<noteq> 0 \<and> \<not> IPAllocd sp"
  shows "go_fold (\<lambda>(i, sp) m.
       go_bind (if pr_InRange sp \<and> IPAllocd sp then pool_Return env p (IPString sp) (pr_IdentIPAM sp) m
                else Ret m) (\<lambda>m.
       if i = (0 :: nat) then
         (case map_of (lbCache m) key of
            None \<Rightarrow> Panic ''nil pointer dereference''
          | Some e \<Rightarrow> return_secondaries env (ce_SecIPs e) sp' (pr_IdentIPAM sp) m)
       else Ret m)) xs m = Ret m"
  using assms by (induction xs) auto

lemma deallocate_new_service:
  assumes "secIPs_at key m \<noteq> None" and "o_sipPools opts = []"
    and "pool_Return env (o_ipPool opts) (IP_String ip) ident m = Ret m'" and "pools_moved m m'"
  shows "deallocate_on_failure env opts key (new_pair ip ident True port # map (\<lambda>p. new_pair ip (f p) False p) ports) m
    = Ret m'"
proof -
  have "secIPs_at key m' = secIPs_at key m"
    using pools_moved_fields(2)[OF assms(4)] by (simp add: secIPs_at_def)
  moreover have "\<forall>(i, sp)\<in>set (enumerate (Suc 0) (map (\<lambda>p. new_pair ip (f p) False p) ports)). i \<noteq> 0 \<and> \<not> IPAllocd sp"
    by (auto simp: in_set_enumerate_eq new_pair_def)
  ultimately show ?thesis
    using assms by (auto simp: deallocate_on_failure_def secIPs_at_def return_secondaries_def deallocate_rest new_pair_fields)
qed

lemma parse_opts_pools:
  assumes "parse_opts env m svc = Ret (Inr opts)" and "wf_manager m"
  shows "o_ipPool opts < length (poolStore m)"
    "annot svc ''loxilb.io/poolSelectSecondary'' = [] \<Longrightarrow> o_sipPools opts = [] \<and> o_numSecondarySvc opts = 0"
proof -
  have tbl: "map_of (pool_tbl m a) n = Some p \<Longrightarrow> p < length (poolStore m)" for a n p
    using assms(2) map_of_SomeD[of "pool_tbl m a" n p] by (auto simp: wf_manager_def pool_tbl_def split: if_splits)
  obtain p where "select_pool m svc = Inr (Some p)" "o_ipPool opts = p"
    using assms(1) by (auto simp: parse_opts_def Let_def split: sum.splits option.splits if_splits)
  then show "o_ipPool opts < length (poolStore m)"
    using tbl by (auto simp: select_pool_def Let_def split: option.splits if_splits)
  obtain ps where "select_sec_pools m svc = Inr ps" "o_sipPools opts = ps" "o_numSecondarySvc opts = length ps"
    using assms(1) by (auto simp: parse_opts_def Let_def split: sum.splits option.splits if_splits)
  then show "annot svc ''loxilb.io/poolSelectSecondary'' = [] \<Longrightarrow> o_sipPools opts = [] \<and> o_numSecondarySvc opts = 0"
    by (auto simp: select_sec_pools_def Let_def)
qed

lemma new_entry_fields:
  "new_entry env opts m = Ret e \<Longrightarrow>
   ce_LbServicePairs e = [] \<and> ce_SecIPs e = [] \<and> ce_IPPool e = o_ipPool opts \<and> ce_SIPPools e = o_sipPools opts"
  by (auto simp: new_entry_def go_map_eq_Ret)

text \<open>Nothing but the cache changes.\<close>

definition steady_pools :: "'a Manager \<Rightarrow> 'a Manager \<Rightarrow> bool" where
  "steady_pools m m' \<longleftrightarrow> m' = m\<lparr>lbCache := lbCache m'\<rparr>"

lemma steady_pools_fields:
  assumes "steady_pools m m'"
  shows "poolStore m' = poolStore m \<and> statusLog m' = statusLog m \<and> apiLog m' = apiLog m \<and> LoxiClients m' = LoxiClients m"
  using assms unfolding steady_pools_def by (metis (no_types, lifting) Manager.select_convs Manager.surjective Manager.update_convs)

lemma add_entry_new:
  assumes "ce_LbServicePairs e = []" "ce_SecIPs e = []" "o_numSecondarySvc opts = 0"
    and "key = GenKey (sv_Namespace svc) (sv_Name svc)"
    and "getIngressSvcPairs env svc e m = Ret (m1, pairs, b)"
  obtains m2 where "add_entry env opts svc ips key False e m = add_installed env opts svc ips key False False pairs m2"
    "steady_pools m1 m2" "map_of (lbCache m2) = (map_of (lbCache m1))(key \<mapsto> (with_opts opts e)\<lparr>ce_SecIPs := o_secIPs opts\<rparr>)"
proof -
  let ?e = "with_opts opts e"
  have "no_rules e" and e: "ce_SecIPs ?e = []" "ce_LbServicePairs ?e = []" "ce_IPPool ?e = ce_IPPool e" "ce_SIPPools ?e = ce_SIPPools e"
    using assms(1,2) by (simp_all add: no_rules_def with_opts_def)
  moreover have "return_for_all_pairs env [] ps sps m = Ret m" for ps sps and m :: "'a Manager"
    by (simp add: return_for_all_pairs_def)
  ultimately have "add_entry env opts svc ips key False e m = add_installed env opts svc ips key False False pairs
      (if o_secIPs opts = [] then set_entry key ?e m1 else set_entry key (?e\<lparr>ce_SecIPs := o_secIPs opts\<rparr>) (set_entry key ?e m1))"
    using assms(3-5) by (simp add: add_entry_def sync_fields_eq flags_def sync_secondaries_def returnSecondaryIPs_def split: option.split)
  moreover have "?e\<lparr>ce_SecIPs := []\<rparr> = ?e" using e(1) by (cases ?e) simp
  ultimately show ?thesis using that by (simp add: set_entry_def update_conv' steady_pools_def split: if_splits)
qed

lemma pools_of_set_entry [simp]: "poolStore (set_entry k e m) = poolStore m"
  by (simp add: set_entry_def)

lemma new_loop_no_ports: "getLBIngressSvcPairs (e_cfg env) svc = [] \<Longrightarrow> sv_Ports svc = [] \<Longrightarrow>
  getIngressSvcPairs env svc e m = Ret (m, [], False)"
  by (simp add: getIngressSvcPairs_def)

lemma return_undoes_alloc:
  assumes "ipam_contract (e_tk env) held" and "wf_pools m" and "\<forall>q\<in>set (poolStore m). allocates_inside (e_tk env) q"
    and p: "p < length (poolStore m)"
    and "GetNewIPAddr (e_tk env) (poolStore m ! p) name s proto = (q, ip, ident)" and "ip \<noteq> []"
    and m': "poolStore m' = (poolStore m)[p := q]"
  shows "\<exists>m''. pool_Return env p (IP_String ip) ident m' = Ret m'' \<and> pools_moved m' m'' \<and>
    (\<forall>i<length (poolStore m). ledger held m'' i = ledger held m i)"
proof -
  let ?q0 = "poolStore m ! p" and ?m1 = "m\<lparr>poolStore := (poolStore m)[p := q]\<rparr>"
  have moved: "pools_moved m ?m1" using pools_moved_upd[OF p] GetNewIPAddr_same[of ?q0] assms(5) by (metis fst_conv)
  have led: "ledger held m' i = ledger held m i \<union> (if i = p then {(ident, IP_String ip)} else {})"
    "i = p \<Longrightarrow> (ident, IP_String ip) \<notin> ledger held m i" if "i < length (poolStore m)" for i
    using GetNewIPAddr_ledger[OF assms(1,5)] assms(6) that p by (auto simp: m' ledger_def nth_list_update)
  have "?q0 \<in> set (poolStore m)" using p by simp
  then have "takes_back env ?m1 p (IP_String ip)"
    using assms(3) GetNewIPAddr_inside[OF _ assms(5,6)] takes_back_moved[OF moved p] by (auto simp: takes_back_def)
  then have "takes_back env m' p (IP_String ip)" "wf_pools m'" "p < length (poolStore m')"
    using wf_pools_moved[OF moved] assms(2) p by (auto simp: m' wf_pools_def takes_back_def)
  with pool_Return_ok[OF assms(1), of m' p "IP_String ip" ident]
  obtain m'' where "pool_Return env p (IP_String ip) ident m' = Ret m''" "pools_moved m' m''"
    "\<forall>i<length (poolStore m). ledger held m'' i = ledger held m' i - (if i = p then {(ident, IP_String ip)} else {})"
    by (auto simp: m')
  with led show ?thesis by (auto split: if_splits)
qed

text \<open>From the new cache entry to the end of \<open>addLoadBalancer\<close>: where an error comes from, and that it gives the address back.\<close>

lemma failed_new_pairs:
  assumes "o_numSecondarySvc opts = 0" and "new_entry env opts m0 = Ret e" and "key = GenKey (sv_Namespace svc) (sv_Name svc)"
    and "go_bind (add_entry env opts svc ips key False e m) (finish env opts key) = Ret (m', Some err)"
  obtains m1 pairs b m2 m3 where "getIngressSvcPairs env svc e m = Ret (m1, pairs, b)" "steady_pools m1 m2"
    "map_of (lbCache m2) = (map_of (lbCache m1))(key \<mapsto> (with_opts opts e)\<lparr>ce_SecIPs := o_secIPs opts\<rparr>)"
    "install_pairs env opts svc ips key pairs m2 = Ret (m3, Some (Some err))" "deallocate_on_failure env opts key pairs m3 = Ret m'"
proof -
  note e = new_entry_fields[OF assms(2)]
  obtain r where r: "add_entry env opts svc ips key False e m = Ret r" and f: "finish env opts key r = Ret (m', Some err)"
    using assms(4) by auto
  obtain m1 pairs b where g: "getIngressSvcPairs env svc e m = Ret (m1, pairs, b)"
    using r by (auto simp: add_entry_def)
  obtain m2 where m2: "add_installed env opts svc ips key False False pairs m2 = Ret r" "steady_pools m1 m2"
    "map_of (lbCache m2) = (map_of (lbCache m1))(key \<mapsto> (with_opts opts e)\<lparr>ce_SecIPs := o_secIPs opts\<rparr>)"
    by (rule add_entry_new[OF _ _ assms(1,3) g, where ips = ips]) (use e r in auto)
  obtain m3 x where i: "install_pairs env opts svc ips key pairs m2 = Ret (m3, x)"
    using m2(1,3) by (auto simp: add_installed_def)
  then have "x = Some (Some err) \<and> deallocate_on_failure env opts key pairs m3 = Ret m'"
    using m2(1,3) f by (cases x) (auto simp: add_installed_def finish_def go_map_eq_Ret)
  then show ?thesis using that g m2(2,3) i by blast
qed

lemma failed_new_entry:
  assumes "ipam_contract (e_tk env) held" and "wf_pools m" and "\<forall>q\<in>set (poolStore m). allocates_inside (e_tk env) q"
    and "getLBIngressSvcPairs (e_cfg env) svc = []" and "o_sipPools opts = []" "o_numSecondarySvc opts = 0"
    and "o_ipPool opts < length (poolStore m)" and "new_entry env opts m0 = Ret e"
    and "key = GenKey (sv_Namespace svc) (sv_Name svc)"
    and "go_bind (add_entry env opts svc ips key False e m) (finish env opts key) = Ret (m', Some err)"
  shows "\<forall>i<length (poolStore m). ledger held m' i = ledger held m i"
proof -
  note e = new_entry_fields[OF assms(8)]
  obtain m1 pairs b m2 m3 where g: "getIngressSvcPairs env svc e m = Ret (m1, pairs, b)" and m2: "steady_pools m1 m2"
    "map_of (lbCache m2) = (map_of (lbCache m1))(key \<mapsto> (with_opts opts e)\<lparr>ce_SecIPs := o_secIPs opts\<rparr>)"
    and i: "install_pairs env opts svc ips key pairs m2 = Ret (m3, Some (Some err))"
    and f: "deallocate_on_failure env opts key pairs m3 = Ret m'"
    by (rule failed_new_pairs[OF assms(6,8-10)])
  have ret: "poolStore m3 = poolStore m1" "secIPs_at key m3 \<noteq> None"
    using install_pairs_frame[OF i] steady_pools_fields[OF m2(1)] m2(2) by (auto simp: secIPs_at_def)
  show ?thesis
  proof (cases "sv_Ports svc")
    case Nil
    then show ?thesis
      using f ret g new_loop_no_ports[OF assms(4)] by (auto simp: deallocate_on_failure_def ledger_def)
  next
    case (Cons port ports)
    obtain q ip ident where q: "GetNewIPAddr (e_tk env) (poolStore m ! o_ipPool opts)
        (GenKey (sv_Namespace svc) (sv_Name svc)) (u32 (sp_Port port)) (to_lower (sp_Protocol port)) = (q, ip, ident)"
      by (rule prod_cases3)
    have ip: "ip \<noteq> []" and m1: "poolStore m1 = (poolStore m)[o_ipPool opts := q]"
      and pairs: "pairs = new_pair ip ident True port #
        map (\<lambda>port. new_pair ip (port_ident env m (o_ipPool opts) port) False port) ports"
      using g pairs_of_new_service[of e env svc m port ports q ip ident] e assms(4,7) Cons q
      by (auto split: if_splits)
    obtain m4 where m4: "pool_Return env (o_ipPool opts) (IP_String ip) ident m3 = Ret m4" "pools_moved m3 m4"
      "\<forall>i<length (poolStore m). ledger held m4 i = ledger held m i"
      using return_undoes_alloc[OF assms(1-3,7) q ip, of m3] ret(1) m1 by auto
    have "m' = m4"
      using f deallocate_new_service[OF ret(2) assms(5) m4(1,2)] by (simp add: pairs)
    with m4 show ?thesis by simp
  qed
qed

lemma add_new_cases:
  assumes "addLoadBalancer env svc m = Ret (m', err)"
    and "map_of (lbCache m) (GenKey (sv_Namespace svc) (sv_Name svc)) = None"
  obtains "m' = m"
  | opts ips e where "parse_opts env m svc = Ret (Inr opts)" "new_entry env opts m = Ret e" "ips \<noteq> []"
    "go_bind (add_entry env opts svc ips (GenKey (sv_Namespace svc) (sv_Name svc)) False e
        ((set_entry (GenKey (sv_Namespace svc) (sv_Name svc)) e m)\<lparr>zoneInstSelHint := zoneInstSelHint m + 1\<rparr>))
       (finish env opts (GenKey (sv_Namespace svc) (sv_Name svc))) = Ret (m', err)"
    "admit env m svc = Admit" "getEndpoints (e_tk env) (e_kube env) svc (o_usePodNet opts) (o_useExternalEndpoint opts)
       (o_needMultusEP opts) (o_epAddrType opts) (o_matchNodeLabel opts) = (ips, None)"
proof (cases "admit env m svc")
  case Admit
  then obtain r where r: "parse_opts env m svc = Ret r" using assms(1) by (auto simp: addLoadBalancer_def)
  show ?thesis
  proof (cases r)
    case (Inl x)
    then show ?thesis using that(1) assms(1) Admit r by (simp add: addLoadBalancer_def)
  next
    case (Inr opts)
    obtain ips eerr where g: "getEndpoints (e_tk env) (e_kube env) svc (o_usePodNet opts)
        (o_useExternalEndpoint opts) (o_needMultusEP opts) (o_epAddrType opts) (o_matchNodeLabel opts) = (ips, eerr)"
      by (cases "getEndpoints (e_tk env) (e_kube env) svc (o_usePodNet opts)
        (o_useExternalEndpoint opts) (o_needMultusEP opts) (o_epAddrType opts) (o_matchNodeLabel opts)")
    show ?thesis
    proof (cases "eerr = None \<and> ips \<noteq> []")
      case True
      then obtain e where "new_entry env opts m = Ret e"
        using assms Admit r Inr g by (auto simp: addLoadBalancer_def Let_def)
      then show ?thesis
        using that(2)[of opts e ips] assms Admit r Inr g True by (simp add: addLoadBalancer_def Let_def)
    next
      case False
      then show ?thesis
        using that(1) assms Admit r Inr g by (auto simp: addLoadBalancer_def Let_def split: option.splits if_splits)
    qed
  qed
qed (use that(1) assms(1) in \<open>simp_all add: addLoadBalancer_def\<close>)

text \<open>The ledgers after a failed addition, from the start of the handler.\<close>

lemma failed_add_ledgers:
  assumes "wf_manager m" and "ipam_contract (e_tk env) held"
    and "\<forall>q\<in>set (poolStore m). allocates_inside (e_tk env) q"
    and "map_of (lbCache m) (GenKey (sv_Namespace svc) (sv_Name svc)) = None"
    and "getLBIngressSvcPairs (e_cfg env) svc = []" and "annot svc ''loxilb.io/poolSelectSecondary'' = []"
    and "addLoadBalancer env svc m = Ret (m', Some err)"
  shows "\<forall>i<length (poolStore m). ledger held m' i = ledger held m i"
proof -
  let ?key = "GenKey (sv_Namespace svc) (sv_Name svc)"
  show ?thesis
    using assms(7,4)
  proof (cases rule: add_new_cases)
    case (2 opts ips e)
    let ?m = "(set_entry ?key e m)\<lparr>zoneInstSelHint := zoneInstSelHint m + 1\<rparr>"
    note opts = parse_opts_pools[OF 2(1) assms(1)]
    have "wf_pools ?m" using assms(1) by (simp add: wf_manager_def wf_pools_def set_entry_def)
    then have "\<forall>i<length (poolStore ?m). ledger held m' i = ledger held ?m i"
      using opts(2)[OF assms(6)] opts(1) assms(3) 2(2,4)
      by (intro failed_new_entry[OF assms(2) _ _ assms(5), where opts = opts and key = ?key and e = e]) simp_all
    then show ?thesis by (simp add: ledger_def)
  qed simp
qed

text \<open>
  C2. A new service that cannot be installed leaves no address behind. When \<open>addLoadBalancer\<close>
  returns an error for a service that is not in the cache and has no external address and no
  secondary pools, the ledgers of all pools are as before: every address that was taken for
  it was given back.
\<close>

theorem failed_add_leaks_nothing:
  assumes "wf_manager m" and "ipam_contract (e_tk env) held"
    and "\<forall>q\<in>set (poolStore m). allocates_inside (e_tk env) q"
    and "map_of (lbCache m) (GenKey (sv_Namespace svc) (sv_Name svc)) = None"
    and "getLBIngressSvcPairs (e_cfg env) svc = []" and "annot svc ''loxilb.io/poolSelectSecondary'' = []"
    and "addLoadBalancer env svc m = Ret (m', Some err)"
  shows "\<forall>i<length (poolStore m). ledger held m' i = ledger held m i"
  by (rule failed_add_ledgers[OF assms])

subsection \<open>A concrete manager\<close>

definition demo_cfg :: NetworkConfig where
  "demo_cfg = \<lparr>cfg_LoxilbURLs = [], cfg_LoxilbLoadBalancerClass = ''loxilb.io/loxilb'', cfg_LoxilbGatewayClass = [],
     cfg_ExternalCIDRPoolDefs = [''defaultPool=10.0.0.0/24''], cfg_ExternalCIDR6PoolDefs = [], cfg_SetBGP = 0,
     cfg_ListenBGPPort = 0, cfg_EBGPMultiHop = False, cfg_ExtBGPPeers = [], cfg_SetLBMode = 0,
     cfg_Monitor = False, cfg_AppendEPs = False, cfg_SetRoles = [], cfg_Zone = ''llb'', cfg_PrivateCIDR = [],
     cfg_ExclIPAM = False, cfg_NumZoneInst = 1, cfg_UsePodNetwork = False, cfg_UseExternalEndpoint = False\<rparr>"

definition demo_env ::
  "((string \<times> api_call) list \<Rightarrow> string \<Rightarrow> api_call \<Rightarrow> error option) \<Rightarrow> (string \<times> string) list lb_env" where
  "demo_env answer = \<lparr>e_tk = list_ipam, e_kube = demo_kube, e_cfg = demo_cfg,
     e_Wrap = (\<lambda>e s. map_option (\<lambda>x. s @ '': '' @ x) e), e_answer = answer\<rparr>"

definition demo_manager :: "(string \<times> string) list Manager" where
  "demo_manager = \<lparr>LoxiClients = [demo_client], LoxiPeerClients = [], ElectionRunOnce = False, lbCache = [],
     poolStore = [demo_pool], ipPoolTbl = [(''defaultPool'', 0)], ip6PoolTbl = [],
     zoneInstRoleMap = [(''llb-inst0'', 0)], loxiInstAddrMap = [], zoneInstSelHint = 0, apiLog = [], statusLog = []\<rparr>"

lemma demo_manager_wf: "wf_manager demo_manager"
  using demo_pool_wf by (simp add: wf_manager_def wf_pools_def demo_manager_def)

definition two_ports :: Service where
  "two_ports = demo_svc\<lparr>sv_Name := ''duo'', sv_Ports := [demo_port, demo_port\<lparr>sp_Port := 443, sp_NodePort := 30443\<rparr>]\<rparr>"

text \<open>The instance refuses every rule for port 443.\<close>

definition refuse_443 :: "(string \<times> api_call) list \<Rightarrow> string \<Rightarrow> api_call \<Rightarrow> error option" where
  "refuse_443 log u c =
     (case c of LbCreate lb \<Rightarrow> if svc_Port (lb_Service lb) = 443 then Some ''denied'' else None | _ \<Rightarrow> None)"

definition cached_keys :: "'a Manager \<Rightarrow> (string \<times> string list) list" where
  "cached_keys m = map (\<lambda>(k, e). (k, map fst (ce_LbServicePairs e))) (lbCache m)"

definition accept :: "(string \<times> api_call) list \<Rightarrow> string \<Rightarrow> api_call \<Rightarrow> error option" where
  "accept log u c = None"

definition https_svc :: Service where
  "https_svc = demo_svc\<lparr>sv_Name := ''https'', sv_Ports := [demo_port\<lparr>sp_Port := 443, sp_NodePort := 30444\<rparr>]\<rparr>"

text \<open>
  Two services of a shared pool on one address and port. Only the first port of \<open>duo\<close> is
  recorded in the pool, so that the service that asks for port 443 next is given the address
  of \<open>duo\<close>, on which port 443 is taken.
\<close>

lemma further_port_not_recorded:
  "(case addLoadBalancer (demo_env accept) two_ports demo_manager of
      Ret (m, err) \<Rightarrow>
        (case addLoadBalancer (demo_env accept) https_svc m of
           Ret (m', err') \<Rightarrow>
             err = None \<and> err' = None \<and>
             cached_keys m' = [(''default/duo'', [GenSPKey ''10.0.0.1'' 80 ''tcp'', GenSPKey ''10.0.0.1'' 443 ''tcp'']),
                               (''default/https'', [GenSPKey ''10.0.0.1'' 443 ''tcp''])]
         | _ \<Rightarrow> False)
    | _ \<Rightarrow> False)"
  by code_simp

subsection \<open>Witnesses\<close>

definition demo_rule :: LoadBalancerModel where
  "demo_rule = demo_lb\<lparr>lb_Endpoints := [mk_endpoint ''192.168.0.11'' 30080]\<rparr>"

definition demo_pair_entry :: LbServicePairEntry where
  "demo_pair_entry = \<lparr>se_ExternalIP = ''10.0.0.1'', se_Port = 80, se_Protocol = ''tcp'', se_StaticIP = False,
     se_InRange = True, se_IdentIPAM = ''80/tcp'', se_LbModelList = [demo_rule]\<rparr>"

definition demo_entry :: LbCacheEntry where
  "demo_entry = \<lparr>ce_LbMode = -1, ce_Timeout = 1800, ce_ActCheck = False, ce_PrefLocal = False, ce_ppv2En = False,
     ce_egress = False, ce_Inst = ''llb-inst0'', ce_Addr = ''ipv4'', ce_State = ''Added'', ce_NodeLabel = [],
     ce_ProbeType = [], ce_ProbePort = 0, ce_ProbeReq = [], ce_ProbeResp = [], ce_ProbeTimeo = 0,
     ce_ProbeRetries = 0, ce_EpSelect = 0, ce_IPPool = 0, ce_SIPPools = [], ce_SecIPs = [],
     ce_LbServicePairs = [(GenSPKey ''10.0.0.1'' 80 ''tcp'', demo_pair_entry)]\<rparr>"

definition loaded_manager :: "(string \<times> string) list Manager" where
  "loaded_manager = demo_manager\<lparr>lbCache := [(''default/web'', demo_entry)],
     poolStore := [demo_pool\<lparr>IPAlloc := [(''80/tcp'', ''10.0.0.1''), (''90/tcp'', ''10.0.0.1'')]\<rparr>]\<rparr>"

lemma loaded_manager_wf: "wf_manager loaded_manager"
  by (simp add: wf_manager_def wf_pools_def wf_entry_def wf_pool_def loaded_manager_def demo_manager_def
      demo_pool_def demo_entry_def)

lemma env_tk [simp]: "e_tk (demo_env answer) = list_ipam" "e_cfg (demo_env answer) = demo_cfg"
  "e_answer (demo_env answer) = answer" "e_kube (demo_env answer) = demo_kube"
  by (simp_all add: demo_env_def)

theorem delete_releases_exactly_witness:
  "\<exists>m' err. deleteLoadBalancer (demo_env accept) ''default'' ''web'' True loaded_manager = Ret (m', err) \<and>
     err = None \<and> lbCache m' = [] \<and> ledger set m' 0 = {(''90/tcp'', ''10.0.0.1'')}"
proof -
  have key: "GenKey ''default'' ''web'' = ''default/web''" by code_simp
  have e: "map_of (lbCache loaded_manager) (GenKey ''default'' ''web'') = Some demo_entry"
    unfolding key by (simp add: loaded_manager_def)
  have ok: "set (answers (demo_env accept) (apiLog loaded_manager)
      (delete_calls (demo_env accept) (LoxiClients loaded_manager) demo_entry)) \<subseteq> {None}"
    by code_simp
  have taken: "takes_back (demo_env accept) loaded_manager 0 ''10.0.0.1''"
    unfolding takes_back_def in_pool_def by code_simp
  have "returned (demo_env accept) loaded_manager (entry_returns demo_entry) 0 = {(''80/tcp'', ''10.0.0.1'')}"
    using taken by (auto simp: returned_def entry_returns_def pair_returns_def demo_entry_def demo_pair_entry_def)
  moreover have "AList.delete (GenKey ''default'' ''web'') (lbCache loaded_manager) = []"
    unfolding key by (simp add: loaded_manager_def)
  moreover have "ledger set loaded_manager 0 = {(''80/tcp'', ''10.0.0.1''), (''90/tcp'', ''10.0.0.1'')}"
    "0 < length (poolStore loaded_manager)"
    by (auto simp: ledger_def loaded_manager_def)
  ultimately show ?thesis
    using delete_releases_exactly[OF loaded_manager_wf _ e, of "demo_env accept" set True] ok list_ipam_contract by auto
qed

definition demo_opts :: LbOpts where
  "demo_opts = \<lparr>o_needMultusEP = False, o_addrType = ''ipv4'', o_epAddrType = ''ipv4'', o_ipPool = 0, o_sipPools = [],
     o_hasSharedPool = True, o_numSecondarySvc = 0, o_secIPs = [], o_usePodNet = False,
     o_useExternalEndpoint = False, o_enProxyProtov2 = False, o_isEgress = False, o_mtlsFrontend = None,
     o_mtlsBackend = None, o_overrideZoneInst = [], o_matchNodeLabel = [], o_prefLocal = False,
     o_timeout = 1800, o_lbMode = -1, o_livenessCheck = False, o_probeType = ''tcp'', o_probePort = 70000,
     o_probeReq = [], o_probeResp = [], o_probeTimeout = 0, o_probeRetries = 0, o_epSelect = 0\<rparr>"

definition demo_args :: LbArgs where
  "demo_args = mk_args demo_opts demo_entry [''192.168.0.11'', ''192.168.0.12''] [] (new_pair [10, 0, 0, 1] [] True demo_port)"

theorem endpoint_change_detected_witness:
  "\<exists>lb. makeLoxiLoadBalancerModel (demo_env accept) demo_args demo_svc demo_port = Inr lb \<and>
     \<not> endpoints_changed [''192.168.0.12'', ''192.168.0.11''] lb \<and>
     endpoints_changed [''192.168.0.11'', ''192.168.0.13''] lb"
proof -
  obtain lb where lb: "makeLoxiLoadBalancerModel (demo_env accept) demo_args demo_svc demo_port = Inr lb"
    by (cases "makeLoxiLoadBalancerModel (demo_env accept) demo_args demo_svc demo_port") (code_simp, blast)
  have ips: "a_endpointIPs demo_args = [''192.168.0.11'', ''192.168.0.12'']"
    and ts: "target_ports (demo_env accept) demo_args demo_svc demo_port = Inr [30080]"
    by (code_simp, code_simp)
  have c: "distinct [''192.168.0.11'', ''192.168.0.12'']" "distinct [''192.168.0.12'', ''192.168.0.11'']"
    "distinct [''192.168.0.11'', ''192.168.0.13'']"
    "set [''192.168.0.12'', ''192.168.0.11''] = set [''192.168.0.11'', ''192.168.0.12'']"
    "set [''192.168.0.11'', ''192.168.0.13''] \<noteq> set [''192.168.0.11'', ''192.168.0.12'']"
    by code_simp+
  from endpoint_change_detected[OF c(1,2) _ ips ts lb] endpoint_change_detected[OF c(1,3) _ ips ts lb] lb c(4,5)
  show ?thesis by (intro exI[of _ lb]) (simp del: list.set)
qed

theorem options_converge_witness:
  "\<exists>e'. fst (sync_fields True demo_opts demo_entry) = e' \<and> snd (sync_fields True demo_opts e') = (True, True)"
proof -
  obtain e' u d where s: "sync_fields True demo_opts demo_entry = (e', u, d)" by (rule prod_cases3)
  from options_converge[OF s] s show ?thesis by (simp add: demo_opts_def)
qed

theorem install_pair_outcome_witness:
  "\<exists>m' err. install_pair (demo_env refuse_443) demo_opts demo_svc [''192.168.0.11''] ''default/web''
      (new_pair [10, 0, 0, 1] ''80/tcp'' True demo_port) loaded_manager = Ret (m', err) \<and>
     err = None \<and> length (apiLog m') = 1 \<and>
     (\<exists>e'. map_of (lbCache m') ''default/web'' = Some e' \<and> has_key (ce_LbServicePairs e') (GenSPKey ''10.0.0.1'' 80 ''tcp''))"
proof -
  let ?env = "demo_env refuse_443" and ?pair = "new_pair [10, 0, 0, 1] ''80/tcp'' True demo_port"
  have e: "map_of (lbCache loaded_manager) ''default/web'' = Some demo_entry" by (simp add: loaded_manager_def)
  obtain lb where lb: "makeLoxiLoadBalancerModel ?env (mk_args demo_opts demo_entry [''192.168.0.11'']
      (getServicePrivateIP (e_cfg ?env) demo_svc) ?pair) demo_svc (K8sSvcPort ?pair) = Inr lb"
    by (cases "makeLoxiLoadBalancerModel ?env (mk_args demo_opts demo_entry [''192.168.0.11'']
      (getServicePrivateIP (e_cfg ?env) demo_svc) ?pair) demo_svc (K8sSvcPort ?pair)") (code_simp, blast)
  then have port: "svc_Port (lb_Service lb) = u16 80"
    by (auto simp: makeLoxiLoadBalancerModel_def Let_def new_pair_def demo_port_def split: sum.splits)
  have log: "apiLog loaded_manager = []" "LoxiClients loaded_manager = [demo_client]"
    by (simp_all add: loaded_manager_def demo_manager_def)
  have "answers ?env [] (install_calls [demo_client] lb (ce_PrefLocal demo_entry)) = [None]"
    using port by (simp add: install_calls_def client_rule_def refuse_443_def u16_def demo_entry_def)
  moreover have "pair_key ?pair = GenSPKey ''10.0.0.1'' 80 ''tcp''" by code_simp
  ultimately show ?thesis
    using install_pair_outcome[OF e _ lb] log
    by (auto simp: refused_def install_calls_def has_key_def)
qed

lemma list_ipam_inside: "allocates_inside list_ipam (demo_pool\<lparr>IPAlloc := al\<rparr>)"
proof -
  have "ParseIP (IP_String (v4InV6Prefix @ [10, 0, 0, d])) \<noteq> [] \<and>
      in_pool list_ipam (demo_pool\<lparr>IPAlloc := al\<rparr>) (ParseIP (IP_String (v4InV6Prefix @ [10, 0, 0, d])))"
    if "d \<in> {1, 2, 3}" for d
    using that unfolding in_pool_def by (elim insertE emptyE) (simp_all only: simp_thms, code_simp+)
  then show ?thesis
    by (auto simp: allocates_inside_def list_ipam_def split: option.splits dest!: find_Some_iff[THEN iffD1])
qed

text \<open>The pool of the demonstration has three addresses; in the second state all pairs of port 80 are taken.\<close>

definition used_up_manager :: "(string \<times> string) list Manager" where
  "used_up_manager = demo_manager\<lparr>poolStore := [demo_pool\<lparr>IPAlloc :=
     [(ident, ip). ident \<leftarrow> [''80/tcp'', ''none''], ip \<leftarrow> [''10.0.0.1'', ''10.0.0.2'', ''10.0.0.3'']]\<rparr>]\<rparr>"

theorem new_service_addresses_witness:
  "(\<exists>m' pairs. getIngressSvcPairs (demo_env accept) two_ports (demo_entry\<lparr>ce_LbServicePairs := []\<rparr>) demo_manager = Ret (m', pairs, False) \<and>
      map IPAllocd pairs = [True, False] \<and> card (ledger set m' 0) = 1) \<and>
   getIngressSvcPairs (demo_env accept) two_ports (demo_entry\<lparr>ce_LbServicePairs := []\<rparr>) used_up_manager =
     Exit ''kube-loxilb cant run optimally anymore''"
proof -
  let ?e = "demo_entry\<lparr>ce_LbServicePairs := []\<rparr>" and ?rest = "[demo_port\<lparr>sp_Port := 443, sp_NodePort := 30443\<rparr>]"
  have pre: "getLBIngressSvcPairs (e_cfg (demo_env accept)) two_ports = []" "sv_Ports two_ports = demo_port # ?rest"
    "ce_LbServicePairs ?e = []" "ce_IPPool ?e = 0"
    by code_simp (simp_all add: two_ports_def demo_entry_def)
  have pools: "poolStore demo_manager = [demo_pool\<lparr>IPAlloc := []\<rparr>]"
    "\<exists>al. poolStore used_up_manager = [demo_pool\<lparr>IPAlloc := al\<rparr>]"
    by (simp_all add: used_up_manager_def demo_manager_def demo_pool_def)
  have in_pools: "allocates_inside (e_tk (demo_env accept)) (poolStore m ! ce_IPPool ?e)" "ce_IPPool ?e < length (poolStore m)"
    if "m \<in> {demo_manager, used_up_manager}" for m
    using that pools list_ipam_inside by (auto simp: pre(4))
  have left: "\<not> no_address_left (e_tk (demo_env accept)) (poolStore demo_manager ! ce_IPPool ?e) (u32 (sp_Port demo_port)) (to_lower (sp_Protocol demo_port))"
    "no_address_left (e_tk (demo_env accept)) (poolStore used_up_manager ! ce_IPPool ?e) (u32 (sp_Port demo_port)) (to_lower (sp_Protocol demo_port))"
    by code_simp+
  note new = new_service_addresses[where env = "demo_env accept" and held = set and e = ?e, OF _ _ pre(3,1) _ pre(2)]
  have led: "ledger set demo_manager 0 = {}" by (simp add: ledger_def demo_manager_def demo_pool_def)
  have c: "ipam_contract (e_tk (demo_env accept)) set" using list_ipam_contract by simp
  have "\<exists>m' pairs. getIngressSvcPairs (demo_env accept) two_ports ?e demo_manager = Ret (m', pairs, False) \<and>
      map IPAllocd pairs = [True, False] \<and> card (ledger set m' 0) = 1"
    using new[OF c in_pools(1), of demo_manager] in_pools(2)[of demo_manager] left(1) led pools(1) by (auto simp: pre(2,4))
  then show ?thesis using new[OF c in_pools, of used_up_manager] left(2) by simp
qed

theorem failed_add_leaks_nothing_witness:
  "\<exists>m' err. addLoadBalancer (demo_env refuse_443) https_svc demo_manager = Ret (m', Some err) \<and>
     ledger set m' 0 = {}"
proof -
  let ?r = "addLoadBalancer (demo_env refuse_443) https_svc demo_manager"
  have "case ?r of Ret (m', Some err) \<Rightarrow> True | _ \<Rightarrow> False" by code_simp
  then obtain m' err where r: "?r = Ret (m', Some err)" by (auto split: go.splits option.splits)
  have "map_of (lbCache demo_manager) (GenKey (sv_Namespace https_svc) (sv_Name https_svc)) = None"
    "getLBIngressSvcPairs (e_cfg (demo_env refuse_443)) https_svc = []"
    "annot https_svc ''loxilb.io/poolSelectSecondary'' = []"
    by code_simp+
  note pre = this
  have "allocates_inside list_ipam demo_pool" using list_ipam_inside[of "IPAlloc demo_pool"] by simp
  then have "\<forall>q\<in>set (poolStore demo_manager). allocates_inside (e_tk (demo_env refuse_443)) q"
    by (simp add: demo_manager_def)
  from failed_add_leaks_nothing[OF demo_manager_wf _ this pre r, of set] list_ipam_contract
  have "ledger set m' 0 = ledger set demo_manager 0" by (simp add: demo_manager_def)
  with r show ?thesis by (simp add: ledger_def demo_manager_def demo_pool_def)
qed

end
