(* ===== verification/Lb_Invariant.thy ===== *)
theory Lb_Invariant
  imports Lb_Correct
begin

text \<open>
  The invariant \<open>wf_manager\<close> under the handlers of service events, and the round trip of a service.

  \<open>steady m m'\<close> is what every handler keeps: the pools stay the same up to what is allocated, the
  tables of the pools, the clients and the table of the instances stay, and the entries of the cache
  refer to pools that exist.
\<close>

subsection \<open>What handlers keep\<close>

definition wf_cache :: "'a Manager \<Rightarrow> bool" where
  "wf_cache m \<longleftrightarrow> (\<forall>(k, e)\<in>set (lbCache m). wf_entry m e)"

definition steady :: "'a Manager \<Rightarrow> 'a Manager \<Rightarrow> bool" where
  "steady m m' \<longleftrightarrow>
     list_all2 same_pool (poolStore m) (poolStore m') \<and>
     (ipPoolTbl m', ip6PoolTbl m', LoxiClients m', LoxiPeerClients m', ElectionRunOnce m') =
     (ipPoolTbl m, ip6PoolTbl m, LoxiClients m, LoxiPeerClients m, ElectionRunOnce m) \<and>
     (zoneInstRoleMap m', loxiInstAddrMap m') = (zoneInstRoleMap m, loxiInstAddrMap m) \<and>
     (wf_cache m \<longrightarrow> wf_cache m')"

lemma steady_refl [simp]: "steady m m"
  by (simp add: steady_def)

lemma steady_trans [trans]:
  assumes "steady m m'" and "steady m' m''"
  shows "steady m m''"
proof -
  have "list_all2 same_pool (poolStore m) (poolStore m'')"
  proof (rule list_all2_trans[of same_pool same_pool same_pool])
    show "same_pool a c" if "same_pool a b" "same_pool b c" for a b c :: "'a IPPool" using that by (rule same_pool_trans)
    show "list_all2 same_pool (poolStore m) (poolStore m')" "list_all2 same_pool (poolStore m') (poolStore m'')"
      using assms by (simp_all add: steady_def)
  qed
  then show ?thesis using assms by (simp add: steady_def)
qed

lemma wf_entry_steady: "steady m m' \<Longrightarrow> wf_entry m' e = wf_entry m e"
  by (auto simp: steady_def wf_entry_def dest: list_all2_lengthD)

lemma wf_entry_pools: "ce_IPPool e' = ce_IPPool e \<Longrightarrow> ce_SIPPools e' = ce_SIPPools e \<Longrightarrow> wf_entry m e' = wf_entry m e"
  by (simp add: wf_entry_def)

lemma wf_manager_cache: "wf_manager m \<Longrightarrow> wf_cache m"
  by (simp add: wf_manager_def wf_cache_def)

lemma wf_cache_entry: "wf_cache m \<Longrightarrow> map_of (lbCache m) k = Some e \<Longrightarrow> wf_entry m e"
  by (auto simp: wf_cache_def dest!: map_of_SomeD)

lemma steady_wf:
  assumes "steady m m'" and "wf_manager m"
  shows "wf_manager m'"
proof -
  have len: "length (poolStore m') = length (poolStore m)" using assms(1) by (auto simp: steady_def dest: list_all2_lengthD)
  have "wf_pools m'"
    using assms by (auto simp: steady_def wf_manager_def wf_pools_def list_all_length list_all2_conv_all_nth wf_pool_same)
  moreover have "wf_cache m'" using assms wf_manager_cache by (auto simp: steady_def)
  ultimately show ?thesis using assms by (auto simp: steady_def wf_manager_def wf_cache_def len)
qed

lemma steady_logs:
  "steady m (m\<lparr>apiLog := a\<rparr>)" "steady m (m\<lparr>statusLog := b\<rparr>)" "steady m (m\<lparr>zoneInstSelHint := h\<rparr>)"
  by (simp_all add: steady_def wf_cache_def wf_entry_def)

lemma pools_moved_steady:
  assumes "pools_moved m m'"
  shows "steady m m'"
proof -
  obtain ps where ps: "list_all2 same_pool (poolStore m) ps" "m' = m\<lparr>poolStore := ps\<rparr>"
    using assms by (auto simp: pools_moved_def)
  then show ?thesis using list_all2_lengthD[OF ps(1)] by (simp add: steady_def wf_cache_def wf_entry_def)
qed

lemma steady_set_entry: "wf_entry m e \<Longrightarrow> steady m (set_entry k e m)"
  by (auto simp: steady_def set_entry_def wf_cache_def wf_entry_def dest!: set_AList_update)

lemma steady_lookup:
  assumes "map_of (lbCache m) k = Some e" and "ce_IPPool e' = ce_IPPool e" and "ce_SIPPools e' = ce_SIPPools e"
  shows "steady m (set_entry k e' m)"
proof (cases "wf_cache m")
  case True
  then have "wf_entry m e'" using wf_cache_entry[OF True assms(1)] wf_entry_pools[OF assms(2,3)] by blast
  then show ?thesis by (rule steady_set_entry)
qed (simp add: steady_def set_entry_def)

lemma steady_delete: "steady m (m\<lparr>lbCache := AList.delete k (lbCache m)\<rparr>)"
  by (auto simp: steady_def wf_cache_def wf_entry_def dest!: set_AList_delete)

subsection \<open>Operations on the pools\<close>

lemma with_pool_moved:
  assumes "with_pool p f m = Ret (m', r)" and "\<And>q q' r. f q = Ret (q', r) \<Longrightarrow> same_pool q q'"
  shows "pools_moved m m'"
  using assms pools_moved_upd[of p m] by (auto simp: with_pool_def go_map_eq_Ret split: if_splits)

lemma pool_Return_moved: "pool_Return env p ip ident m = Ret m' \<Longrightarrow> pools_moved m m'"
  by (auto simp: pool_Return_def go_map_eq_Ret dest!: with_pool_moved intro: ReturnIPAddr_same)

lemma pool_GetNew_moved: "pool_GetNew env p name port proto m = Ret (m', r) \<Longrightarrow> pools_moved m m'"
  unfolding pool_GetNew_def by (erule with_pool_moved) (metis GetNewIPAddr_same fst_conv go.inject(1))

lemma pool_CheckAndReserve_moved: "pool_CheckAndReserve env p ip name port proto m = Ret (m', r) \<Longrightarrow> pools_moved m m'"
  unfolding pool_CheckAndReserve_def by (erule with_pool_moved) (rule CheckAndReserveIP_same)

lemma go_fold_moved:
  assumes "go_fold f xs m = Ret m'" and "\<And>x t t'. f x t = Ret t' \<Longrightarrow> pools_moved t t'"
  shows "pools_moved m m'"
  using assms(1) by (rule go_fold_inv[where P = "pools_moved m"]) (auto intro: pools_moved_trans assms(2))

lemma return_secondaries_moved: "return_secondaries env ips ps ident m = Ret m' \<Longrightarrow> pools_moved m m'"
  unfolding return_secondaries_def by (erule go_fold_moved) (auto intro: pool_Return_moved)

lemma release_pair_moved: "release_pair env e sp m = Ret m' \<Longrightarrow> pools_moved m m'"
  by (auto simp: release_pair_def split: if_splits
      intro: pools_moved_trans pool_Return_moved return_secondaries_moved)

lemma return_for_all_pairs_moved: "return_for_all_pairs env ips ps sps m = Ret m' \<Longrightarrow> pools_moved m m'"
  unfolding return_for_all_pairs_def by (erule go_fold_moved) (auto intro: pool_Return_moved)

lemma returnSecondaryIPs_moved: "returnSecondaryIPs env svc ips ps m = Ret m' \<Longrightarrow> pools_moved m m'"
  by (auto simp: returnSecondaryIPs_def split: option.splits if_splits intro: return_for_all_pairs_moved)

lemma existing_loop_moved: "existing_loop env key e ps res sps m = Ret (m', r) \<Longrightarrow> pools_moved m m'"
  by (induction env key e ps res sps m rule: existing_loop.induct)
     (auto simp: go_map_eq_Ret split: option.splits if_splits intro: pools_moved_trans dest: pool_CheckAndReserve_moved)

lemma new_loop_moved: "new_loop env key e ports ip sps m = Ret (m', r) \<Longrightarrow> pools_moved m m'"
  by (induction env key e ports ip sps m rule: new_loop.induct)
     (auto simp: Let_def split: option.splits if_splits intro: pools_moved_trans dest: pool_GetNew_moved)

lemma getIngressSvcPairs_moved: "getIngressSvcPairs env svc e m = Ret (m', r) \<Longrightarrow> pools_moved m m'"
  by (auto simp: getIngressSvcPairs_def Let_def go_map_eq_Ret split: if_splits dest: existing_loop_moved new_loop_moved)

lemma sec_loop_moved: "sec_loop env key ports ps sps m = Ret (m', r) \<Longrightarrow> pools_moved m m'"
  by (induction env key ports ps sps m rule: sec_loop.induct)
     (auto split: list.splits if_splits intro: pools_moved_trans dest: pool_GetNew_moved)

lemma getIngressSecSvcPairs_moved: "getIngressSecSvcPairs env svc n e m = Ret (m', r) \<Longrightarrow> pools_moved m m'"
  by (auto simp: getIngressSecSvcPairs_def go_map_eq_Ret split: if_splits dest: sec_loop_moved)

lemma deallocate_moved: "deallocate_on_failure env opts key pairs m = Ret m' \<Longrightarrow> pools_moved m m'"
  unfolding deallocate_on_failure_def
proof (erule go_fold_moved, goal_cases)
  case (1 x t t')
  obtain i sp where x: "x = (i, sp)" by (cases x)
  obtain t1 where t1: "(if pr_InRange sp \<and> IPAllocd sp then pool_Return env (o_ipPool opts) (IPString sp) (pr_IdentIPAM sp) t
      else Ret t) = Ret t1" and t': "t' = t1 \<or> (\<exists>ips ps ident. return_secondaries env ips ps ident t1 = Ret t')"
    using 1 by (auto simp: x split: if_splits option.splits)
  have "pools_moved t t1" using t1 pool_Return_moved by (auto split: if_splits)
  then show ?case using t' pools_moved_trans return_secondaries_moved by blast
qed

subsection \<open>Operations on the cache\<close>

lemma deleteLoadBalancer_steady:
  assumes "deleteLoadBalancer env ns name rel m = Ret (m', err)"
  shows "steady m m'"
proof (cases "map_of (lbCache m) (GenKey ns name)")
  case (Some e)
  obtain m1 rErr where d: "delete_rules env (map snd (ce_LbServicePairs e)) m None = (m1, rErr)"
    by (cases "delete_rules env (map snd (ce_LbServicePairs e)) m None")
  have s1: "steady m m1" using delete_rules_result[OF d] steady_logs(1) by (auto simp: Let_def)
  show ?thesis
  proof (cases "rErr = None \<and> rel")
    case True
    then obtain m2 where m2: "go_fold (release_pair env e) (map snd (ce_LbServicePairs e)) m1 = Ret m2"
      and m': "m' = m2\<lparr>lbCache := AList.delete (GenKey ns name) (lbCache m2)\<rparr>"
      using assms Some d by (auto simp: deleteLoadBalancer_def Let_def go_map_eq_Ret)
    have "steady m1 m2" by (rule pools_moved_steady[OF go_fold_moved[OF m2]]) (rule release_pair_moved)
    from steady_trans[OF steady_trans[OF s1 this] steady_delete] show ?thesis unfolding m' .
  next
    case False
    then have "m' = m1" using assms Some d by (auto simp: deleteLoadBalancer_def Let_def split: option.splits if_splits)
    then show ?thesis using s1 by simp
  qed
qed (use assms in \<open>simp add: deleteLoadBalancer_def\<close>)

lemma install_pair_steady:
  assumes "install_pair env opts svc ips key p m = Ret (m', r)"
  shows "steady m m'"
proof -
  obtain e where e: "map_of (lbCache m) key = Some e" using assms by (auto simp: install_pair_def split: option.splits)
  show ?thesis
  proof (cases "makeLoxiLoadBalancerModel env (mk_args opts e ips (getServicePrivateIP (e_cfg env) svc) p) svc (K8sSvcPort p)")
    case (Inl err)
    then show ?thesis using assms e by (simp add: install_pair_def Let_def)
  next
    case (Inr lb)
    let ?m = "m\<lparr>apiLog := apiLog m @ install_calls (LoxiClients m) lb (ce_PrefLocal e)\<rparr>"
    let ?e = "e\<lparr>ce_LbServicePairs := AList.update (pair_key p) (pair_entry p lb) (ce_LbServicePairs e)\<rparr>"
    have "m' = ?m \<or> m' = set_entry key ?e ?m"
      using install_pair_result[OF e Inr] assms by (auto simp: set_entry_def)
    moreover have "steady ?m (set_entry key ?e ?m)" by (rule steady_lookup[of _ _ e]) (simp_all add: e)
    ultimately show ?thesis using steady_trans[OF steady_logs(1)] steady_logs(1) by blast
  qed
qed

lemma install_pairs_steady: "install_pairs env opts svc ips key ps m = Ret (m', r) \<Longrightarrow> steady m m'"
proof (induction ps arbitrary: m)
  case (Cons p ps)
  then obtain m1 r1 where m1: "install_pair env opts svc ips key p m = Ret (m1, r1)" by auto
  with Cons show ?case by (auto split: option.splits intro: steady_trans dest: install_pair_steady)
qed simp

lemma updateService_steady: "steady m (fst (updateService env ns name pairs m))"
  by (auto simp: updateService_def Let_def split: sum.splits intro: steady_logs)

lemma update_retry_steady: "steady m (update_retry env n ns name pairs m)"
proof (induction n arbitrary: m)
  case (Suc n)
  then show ?case
    using steady_trans[OF updateService_steady[of m env ns name pairs]] updateService_steady[of m env ns name pairs]
    by (auto split: prod.splits)
qed simp

lemma removeAllCacheEndpoints_steady: "steady m (removeAllCacheEndpoints key m)"
  by (auto simp: removeAllCacheEndpoints_def split: option.splits intro: steady_lookup)

subsection \<open>The handlers\<close>

lemma select_pools_wf:
  assumes "wf_manager m" and "parse_opts env m svc = Ret (Inr opts)"
  shows "\<forall>p\<in>set (o_sipPools opts). p < length (poolStore m)"
proof -
  have tbl: "p < length (poolStore m)" if "(n, p) \<in> set (pool_tbl m a)" for a n p
    using assms(1) that by (auto simp: wf_manager_def pool_tbl_def split: if_splits)
  have found: "\<forall>p\<in>set ps. p < length (poolStore m)" if "find_pools (pool_tbl m a) ns = Inr ps" for a ns ps
    using that by (induction ns arbitrary: ps) (auto split: option.splits sum.splits dest!: map_of_SomeD tbl simp: map_sum_def)
  obtain ps where "select_sec_pools m svc = Inr ps" "o_sipPools opts = ps"
    using assms(2) by (auto simp: parse_opts_def Let_def split: sum.splits option.splits if_splits)
  then show ?thesis using found by (auto simp: select_sec_pools_def Let_def split: if_splits)
qed

lemma sync_secondaries_steady:
  assumes "sync_secondaries env opts svc key added e m = Ret (m', r)" and "wf_entry m e"
  shows "steady m m'"
proof -
  have set: "steady m (set_entry key (e\<lparr>ce_SecIPs := ips\<rparr>) m1)" if "steady m m1" for m1 ips
  proof -
    have "wf_entry m1 (e\<lparr>ce_SecIPs := ips\<rparr>)" using assms(2) wf_entry_steady[OF that] by (simp add: wf_entry_def)
    then show ?thesis using steady_trans[OF that steady_set_entry] by blast
  qed
  show ?thesis
  proof (cases "o_secIPs opts = []")
    case True
    show ?thesis
    proof (cases "length (ce_SecIPs e) = o_numSecondarySvc opts")
      case False
      then obtain m1 x where g: "getIngressSecSvcPairs env svc (o_numSecondarySvc opts) e m = Ret (m1, x)"
        using assms(1) True by (auto simp: sync_secondaries_def)
      have m1: "steady m m1" by (rule pools_moved_steady[OF getIngressSecSvcPairs_moved[OF g]])
      show ?thesis
        using assms(1) True False g m1
        by (auto simp: sync_secondaries_def go_map_eq_Ret split: sum.splits
            dest!: return_for_all_pairs_moved pools_moved_steady intro!: set intro: steady_trans)
    qed (use assms(1) True in \<open>simp add: sync_secondaries_def\<close>)
  next
    case False
    then show ?thesis
      using assms(1) by (auto simp: sync_secondaries_def go_map_eq_Ret split: if_splits
          dest!: returnSecondaryIPs_moved pools_moved_steady intro!: set)
  qed
qed

lemma add_installed_steady:
  assumes "add_installed env opts svc ips key added nd pairs m = Ret (m', r)"
  shows "steady m m'"
proof -
  obtain m1 where m1: "(if nd then go_map fst (deleteLoadBalancer env (sv_Namespace svc) (sv_Name svc) False m) else Ret m) = Ret m1"
    using assms by (auto simp: add_installed_def)
  have s1: "steady m m1" using m1 by (auto simp: go_map_eq_Ret split: if_splits dest: deleteLoadBalancer_steady)
  obtain e where e: "map_of (lbCache m1) key = Some e"
    using assms m1 by (auto simp: add_installed_def split: option.splits)
  define m2 where "m2 = (if added then set_entry key (e\<lparr>ce_LbServicePairs := []\<rparr>) m1 else m1)"
  define ps where "ps = (if added then fold (\<lambda>sp. map (copy_cached sp)) (map snd (ce_LbServicePairs e)) pairs else pairs)"
  have s2: "steady m1 m2" using steady_lookup[OF e] by (simp add: m2_def)
  have "go_bind (install_pairs env opts svc ips key ps m2) (\<lambda>(m, err).
      case err of Some r \<Rightarrow> Ret (m, r, True, ps)
      | None \<Rightarrow> Ret (update_retry env 5 (sv_Namespace svc) (sv_Name svc) ps m, None, False, ps)) = Ret (m', r)"
    using assms m1 e by (simp add: add_installed_def m2_def ps_def Let_def)
  then obtain m3 err where i: "install_pairs env opts svc ips key ps m2 = Ret (m3, err)"
    and m': "m' = m3 \<or> m' = update_retry env 5 (sv_Namespace svc) (sv_Name svc) ps m3"
    by (auto split: option.splits)
  note s3 = steady_trans[OF steady_trans[OF s1 s2] install_pairs_steady[OF i]]
  show ?thesis using m' s3 steady_trans[OF s3 update_retry_steady] by blast
qed

lemma add_entry_steady:
  assumes "add_entry env opts svc ips key added e m = Ret (m', r)" and "wf_entry m e"
  shows "steady m m'"
proof -
  obtain m1 pairs b where g: "getIngressSvcPairs env svc e m = Ret (m1, pairs, b)" using assms(1) by (auto simp: add_entry_def)
  have s1: "steady m m1" by (rule pools_moved_steady[OF getIngressSvcPairs_moved[OF g]])
  define e' where "e' = with_opts opts e"
  have e': "wf_entry m1 e'" using assms(2) wf_entry_steady[OF s1] by (simp add: e'_def wf_entry_def with_opts_def)
  note s2 = steady_trans[OF s1 steady_set_entry[OF e', of key]]
  obtain m3 u err where y: "sync_secondaries env opts svc key added e' (set_entry key e' m1) = Ret (m3, u, err)"
    using assms(1) g by (auto simp: add_entry_def sync_fields_eq flags_def e'_def)
  have "wf_entry (set_entry key e' m1) e'" using e' by (simp add: wf_entry_def)
  from steady_trans[OF s2 sync_secondaries_steady[OF y this]] have s3: "steady m m3" .
  then show ?thesis
    using assms(1) g y steady_trans[OF s3 add_installed_steady]
    by (auto simp: add_entry_def sync_fields_eq flags_def e'_def split: option.splits if_splits)
qed

lemma finish_steady:
  "finish env opts key (m, err, ret, pairs) = Ret (m', e) \<Longrightarrow> steady m m'"
  by (auto simp: finish_def go_map_eq_Ret split: if_splits intro: pools_moved_steady deallocate_moved)

lemma add_finish_steady:
  assumes "go_bind (add_entry env opts svc ips key added e m) (finish env opts key) = Ret (m', err)" and "wf_entry m e"
  shows "steady m m'"
proof -
  obtain m1 r where a: "add_entry env opts svc ips key added e m = Ret (m1, r)" and f: "finish env opts key (m1, r) = Ret (m', err)"
    using assms(1) by auto
  show ?thesis using steady_trans[OF add_entry_steady[OF a assms(2)]] finish_steady f by (cases r) blast
qed

lemma add_cached_cases:
  assumes "addLoadBalancer env svc m = Ret (m', err)"
    and "map_of (lbCache m) (GenKey (sv_Namespace svc) (sv_Name svc)) = Some e"
  obtains "m' = m"
  | m1 err1 where "deleteLoadBalancer env (sv_Namespace svc) (sv_Name svc) False m = Ret (m1, err1)"
      "m' = m1 \<or> m' = removeAllCacheEndpoints (GenKey (sv_Namespace svc) (sv_Name svc)) m1"
  | opts ips where "parse_opts env m svc = Ret (Inr opts)"
      "go_bind (add_entry env opts svc ips (GenKey (sv_Namespace svc) (sv_Name svc)) True e m)
         (finish env opts (GenKey (sv_Namespace svc) (sv_Name svc))) = Ret (m', err)"
proof (cases "admit env m svc")
  case Admit
  then obtain r where r: "parse_opts env m svc = Ret r" using assms(1) by (auto simp: addLoadBalancer_def)
  show ?thesis
  proof (cases r)
    case (Inl x)
    then show ?thesis using that(1) assms(1) Admit r by (simp add: addLoadBalancer_def)
  next
    case (Inr opts)
    obtain ips eerr where g: "getEndpoints (e_tk env) (e_kube env) svc (o_usePodNet opts)
        (o_useExternalEndpoint opts) (o_needMultusEP opts) (o_epAddrType opts) (o_matchNodeLabel opts) = (ips, eerr)"
      by (cases "getEndpoints (e_tk env) (e_kube env) svc (o_usePodNet opts)
        (o_useExternalEndpoint opts) (o_needMultusEP opts) (o_epAddrType opts) (o_matchNodeLabel opts)")
    show ?thesis
    proof (cases "ips = []")
      case True
      then show ?thesis
        using that(2) assms Admit r Inr g by (auto simp: addLoadBalancer_def Let_def go_map_eq_Ret split: if_splits)
    next
      case False
      then show ?thesis
        using that(3)[of opts ips] assms Admit r Inr g by (simp add: addLoadBalancer_def Let_def)
    qed
  qed
qed (use that(1) assms(1) in \<open>simp_all add: addLoadBalancer_def\<close>)

lemma addLoadBalancer_steady:
  assumes "addLoadBalancer env svc m = Ret (m', err)" and "wf_manager m"
  shows "steady m m'"
proof (cases "map_of (lbCache m) (GenKey (sv_Namespace svc) (sv_Name svc))")
  case None
  let ?key = "GenKey (sv_Namespace svc) (sv_Name svc)"
  from assms(1) None show ?thesis
  proof (cases rule: add_new_cases)
    case (2 opts ips e)
    let ?m = "(set_entry ?key e m)\<lparr>zoneInstSelHint := zoneInstSelHint m + 1\<rparr>"
    have e: "wf_entry m e"
      using new_entry_fields[OF 2(2)] parse_opts_pools(1)[OF 2(1) assms(2)] select_pools_wf[OF assms(2) 2(1)]
      by (simp add: wf_entry_def)
    then have "wf_entry ?m e" by (simp add: wf_entry_def)
    from add_finish_steady[OF 2(4) this] show ?thesis
      by (rule steady_trans[OF steady_trans[OF steady_set_entry[OF e] steady_logs(3)]])
  qed simp
next
  case (Some e)
  have e: "wf_entry m e" by (rule wf_cache_entry[OF wf_manager_cache[OF assms(2)] Some])
  from assms(1) Some show ?thesis
  proof (cases rule: add_cached_cases)
    case (2 m1 err1)
    have m1: "steady m m1" by (rule deleteLoadBalancer_steady[OF 2(1)])
    then show ?thesis using 2(2) steady_trans[OF m1 removeAllCacheEndpoints_steady] by blast
  qed (use add_finish_steady[OF _ e] in simp_all)
qed

lemma syncLoadBalancer_steady:
  assumes "syncLoadBalancer env ns name m = Ret (m', err)" and "wf_manager m"
  shows "steady m m'"
  using assms addLoadBalancer_steady deleteLoadBalancer_steady
  by (auto simp: syncLoadBalancer_def split: sum.splits)

subsection \<open>Adding and deleting a service\<close>

lemma GenSPKey_same_address: "GenSPKey ip port p = GenSPKey ip port' p' \<longleftrightarrow> port = port' \<and> p = p'"
  using cut_colon_eq[of "dec_of_nat (unat port)" "dec_of_nat (unat port')" p p'] colon_notin_dec
  by (auto simp: GenSPKey_def word_unat_eq_iff)

lemma AList_update_new: "k \<notin> fst ` set al \<Longrightarrow> AList.update k v al = al @ [(k, v)]"
  by (induction al) auto

text \<open>All pairs were installed: the entry has them in their order, each with its rule.\<close>

lemma install_pairs_entry:
  assumes "install_pairs env opts svc ips key ps m = Ret (m', None)" and "map_of (lbCache m) key = Some e"
    and "distinct (map fst (ce_LbServicePairs e) @ map pair_key ps)"
  shows "\<exists>lbs. map_of (lbCache m') = (map_of (lbCache m))(key \<mapsto> e\<lparr>ce_LbServicePairs :=
      ce_LbServicePairs e @ map2 (\<lambda>p lb. (pair_key p, pair_entry p lb)) ps lbs\<rparr>) \<and> poolStore m' = poolStore m \<and>
    list_all2 (\<lambda>p lb. makeLoxiLoadBalancerModel env (mk_args opts e ips (getServicePrivateIP (e_cfg env) svc) p) svc
      (K8sSvcPort p) = Inr lb) ps lbs \<and>
    apiLog m' = apiLog m @ concat (map (\<lambda>lb. install_calls (LoxiClients m) lb (ce_PrefLocal e)) lbs)"
  using assms
proof (induction ps arbitrary: m e)
  case Nil
  then show ?case by (auto simp: fun_eq_iff)
next
  case (Cons p ps)
  obtain m1 where m1: "install_pair env opts svc ips key p m = Ret (m1, None)" "install_pairs env opts svc ips key ps m1 = Ret (m', None)"
    using Cons.prems(1) by (auto split: option.splits)
  obtain lb where lb: "makeLoxiLoadBalancerModel env (mk_args opts e ips (getServicePrivateIP (e_cfg env) svc) p) svc (K8sSvcPort p) = Inr lb"
    using m1(1) Cons.prems(2) by (auto simp: install_pair_def Let_def split: sum.splits)
  let ?e = "e\<lparr>ce_LbServicePairs := ce_LbServicePairs e @ [(pair_key p, pair_entry p lb)]\<rparr>"
  have "pair_key p \<notin> fst ` set (ce_LbServicePairs e)" using Cons.prems(3) by auto
  then have m: "map_of (lbCache m1) = (map_of (lbCache m))(key \<mapsto> ?e)" "poolStore m1 = poolStore m"
    "apiLog m1 = apiLog m @ install_calls (LoxiClients m) lb (ce_PrefLocal e)" "LoxiClients m1 = LoxiClients m"
    using install_pair_result[OF Cons.prems(2) lb] m1(1) by (auto simp: update_conv' AList_update_new)
  have look: "map_of (lbCache m1) key = Some ?e" using m(1) by simp
  have d: "distinct (map fst (ce_LbServicePairs ?e) @ map pair_key ps)" using Cons.prems(3) by auto
  have args: "mk_args opts ?e ips pr q = mk_args opts e ips pr q" for pr q by (simp add: mk_args_def)
  obtain lbs where "map_of (lbCache m') = (map_of (lbCache m1))(key \<mapsto> ?e\<lparr>ce_LbServicePairs :=
      ce_LbServicePairs ?e @ map2 (\<lambda>p lb. (pair_key p, pair_entry p lb)) ps lbs\<rparr>)" "poolStore m' = poolStore m1"
    "list_all2 (\<lambda>p lb. makeLoxiLoadBalancerModel env (mk_args opts e ips (getServicePrivateIP (e_cfg env) svc) p) svc
      (K8sSvcPort p) = Inr lb) ps lbs"
    "apiLog m' = apiLog m1 @ concat (map (\<lambda>lb. install_calls (LoxiClients m1) lb (ce_PrefLocal ?e)) lbs)"
    using Cons.IH[OF m1(2) look d] unfolding args by blast
  then show ?case using m lb by (intro exI[of _ "lb # lbs"]) simp
qed

lemma install_pair_status:
  assumes "install_pair env opts svc ips key p m = Ret (m', r)"
  shows "statusLog m' = statusLog m"
  using assms
  by (auto simp: install_pair_def Let_def installs.run_result set_entry_def split: option.splits sum.splits if_splits)

lemma install_pairs_status: "install_pairs env opts svc ips key ps m = Ret (m', r) \<Longrightarrow> statusLog m' = statusLog m"
proof (induction ps arbitrary: m)
  case (Cons p ps)
  then obtain m1 r1 where "install_pair env opts svc ips key p m = Ret (m1, r1)" by auto
  with Cons install_pair_status[OF this] show ?case by (auto split: option.splits)
qed simp

lemma update_retry_fields:
  "lbCache (update_retry env n ns name pairs m) = lbCache m \<and> poolStore (update_retry env n ns name pairs m) = poolStore m \<and>
   apiLog (update_retry env n ns name pairs m) = apiLog m"
proof (induction n arbitrary: m)
  case (Suc n)
  have "lbCache (fst (updateService env ns name pairs m)) = lbCache m \<and> poolStore (fst (updateService env ns name pairs m)) = poolStore m \<and>
    apiLog (fst (updateService env ns name pairs m)) = apiLog m"
    by (auto simp: updateService_def Let_def split: sum.split)
  then show ?case using Suc.IH by (auto split: prod.split)
qed simp

text \<open>\<open>errors.Wrap\<close> of an error is an error.\<close>

definition wraps_errors :: "'a lb_env \<Rightarrow> bool" where
  "wraps_errors env \<longleftrightarrow> (\<forall>err msg. e_Wrap env (Some err) msg \<noteq> None)"

lemma install_pairs_error:
  "wraps_errors env \<Longrightarrow> install_pairs env opts svc ips key ps m = Ret (m', Some r) \<Longrightarrow> r \<noteq> None"
proof (induction ps arbitrary: m)
  case (Cons p ps)
  then obtain m1 r1 where m1: "install_pair env opts svc ips key p m = Ret (m1, r1)" by auto
  show ?case
  proof (cases r1)
    case None
    then show ?thesis using Cons m1 by auto
  next
    case (Some r2)
    then have "r2 \<noteq> None" using m1 Cons.prems(1)
      by (auto simp: install_pair_def Let_def wraps_errors_def split: option.splits sum.splits prod.splits if_splits)
    then show ?thesis using Cons.prems(2) m1 Some by simp
  qed
qed simp

text \<open>The pairs of a new service, and what its entry gives back when it is deleted.\<close>

definition new_pairs :: "'a lb_env \<Rightarrow> 'a Manager \<Rightarrow> nat \<Rightarrow> IP \<Rightarrow> string \<Rightarrow> ServicePort list \<Rightarrow> SvcPair list" where
  "new_pairs env m p ip ident ports =
     new_pair ip ident True (hd ports) # map (\<lambda>port. new_pair ip (port_ident env m p port) False port) (tl ports)"

definition distinct_ports :: "ServicePort list \<Rightarrow> bool" where
  "distinct_ports ports \<longleftrightarrow> distinct (map (\<lambda>p. (u16 (sp_Port p), to_lower (sp_Protocol p))) ports)"

lemma new_pairs_keys:
  assumes "distinct_ports ports" and "ports \<noteq> []"
  shows "distinct (map pair_key (new_pairs env m p ip ident ports))"
proof -
  have "pair_key (new_pair ip x b q) = GenSPKey (IP_String ip) (u16 (sp_Port q)) (to_lower (sp_Protocol q))" for x b q
    by (simp add: pair_key_def new_pair_def)
  then have "map pair_key (new_pairs env m p ip ident ports) =
      map ((\<lambda>(a, b). GenSPKey (IP_String ip) a b) \<circ> (\<lambda>q. (u16 (sp_Port q), to_lower (sp_Protocol q)))) ports"
    using assms(2) by (cases ports) (simp_all add: new_pairs_def)
  moreover have "inj_on (\<lambda>(a, b). GenSPKey (IP_String ip) a b) A" for A
    by (auto simp: inj_on_def GenSPKey_same_address)
  ultimately show ?thesis using assms(1) by (simp add: distinct_ports_def distinct_map comp_inj_on)
qed

lemma entry_returns_of_pairs:
  assumes "ce_SIPPools e = []" and "length lbs = length ps" and "\<forall>p\<in>set ps. pr_InRange p"
    and "ce_LbServicePairs e = map2 (\<lambda>p lb. (pair_key p, pair_entry p lb)) ps lbs"
  shows "entry_returns e = map (\<lambda>p. (ce_IPPool e, IPString p, pr_IdentIPAM p)) ps"
proof -
  have "map snd (ce_LbServicePairs e) = map2 pair_entry ps lbs" by (simp add: assms(4) split_def)
  moreover have "concat (map (pair_returns e) (map2 pair_entry ps lbs)) = map (\<lambda>p. (ce_IPPool e, IPString p, pr_IdentIPAM p)) ps"
    using assms(2,3)
    by (induction ps lbs rule: list_induct2') (simp_all add: pair_returns_def pair_entry_def assms(1))
  ultimately show ?thesis by (simp add: entry_returns_def)
qed

text \<open>The entry of a new service once all its pairs are installed.\<close>

definition installed_entry :: "LbOpts \<Rightarrow> LbCacheEntry \<Rightarrow> SvcPair list \<Rightarrow> LoadBalancerModel list \<Rightarrow> LbCacheEntry" where
  "installed_entry opts e ps lbs = (with_opts opts e)\<lparr>ce_SecIPs := o_secIPs opts,
     ce_LbServicePairs := map2 (\<lambda>p lb. (pair_key p, pair_entry p lb)) ps lbs\<rparr>"

lemma add_new_success:
  assumes "wraps_errors env" and "getLBIngressSvcPairs (e_cfg env) svc = []" and "o_sipPools opts = []" "o_numSecondarySvc opts = 0"
    and "o_ipPool opts < length (poolStore m)" and "new_entry env opts m0 = Ret e"
    and "key = GenKey (sv_Namespace svc) (sv_Name svc)" and "sv_Ports svc \<noteq> []" and "distinct_ports (sv_Ports svc)"
    and "go_bind (add_entry env opts svc ips key False e m) (finish env opts key) = Ret (m', None)"
  obtains q ip ident ps lbs where
    "GetNewIPAddr (e_tk env) (poolStore m ! o_ipPool opts) key (u32 (sp_Port (hd (sv_Ports svc))))
       (to_lower (sp_Protocol (hd (sv_Ports svc)))) = (q, ip, ident)"
    "ip \<noteq> []" "poolStore m' = (poolStore m)[o_ipPool opts := q]"
    "map_of (lbCache m') = (map_of (lbCache m))(key \<mapsto> installed_entry opts e ps lbs)"
    "ps = new_pairs env m (o_ipPool opts) ip ident (sv_Ports svc)"
    "list_all2 (\<lambda>p lb. makeLoxiLoadBalancerModel env (mk_args opts ((with_opts opts e)\<lparr>ce_SecIPs := o_secIPs opts\<rparr>) ips
       (getServicePrivateIP (e_cfg env) svc) p) svc (K8sSvcPort p) = Inr lb) ps lbs"
    "\<exists>m3. m' = update_retry env 5 (sv_Namespace svc) (sv_Name svc) ps m3 \<and> statusLog m3 = statusLog m"
    "apiLog m' = apiLog m @ concat (map (\<lambda>lb. install_calls (LoxiClients m) lb (ce_PrefLocal e)) lbs)"
proof -
  note e = new_entry_fields[OF assms(6)]
  obtain r where r: "add_entry env opts svc ips key False e m = Ret r" and f: "finish env opts key r = Ret (m', None)"
    using assms(10) by auto
  obtain q ip ident where q: "GetNewIPAddr (e_tk env) (poolStore m ! o_ipPool opts) key
      (u32 (sp_Port (hd (sv_Ports svc)))) (to_lower (sp_Protocol (hd (sv_Ports svc)))) = (q, ip, ident)"
    by (rule prod_cases3)
  let ?ps = "new_pairs env m (o_ipPool opts) ip ident (sv_Ports svc)" and ?m1 = "m\<lparr>poolStore := (poolStore m)[o_ipPool opts := q]\<rparr>"
  let ?e = "(with_opts opts e)\<lparr>ce_SecIPs := o_secIPs opts\<rparr>"
  have "getIngressSvcPairs env svc e m = (if ip = [] then Exit ''kube-loxilb cant run optimally anymore'' else Ret (?m1, ?ps, False))"
    using pairs_of_new_service[of e env svc m "hd (sv_Ports svc)" "tl (sv_Ports svc)" q ip ident] e assms(2,5,7,8) q
    by (simp add: new_pairs_def)
  with r have ip: "ip \<noteq> []" and g: "getIngressSvcPairs env svc e m = Ret (?m1, ?ps, False)"
    by (auto simp: add_entry_def split: if_splits)
  obtain m2 where m2: "add_installed env opts svc ips key False False ?ps m2 = Ret r" "poolStore m2 = poolStore ?m1"
    "map_of (lbCache m2) = (map_of (lbCache ?m1))(key \<mapsto> ?e)" "statusLog m2 = statusLog m"
    "apiLog m2 = apiLog m" "LoxiClients m2 = LoxiClients m"
    by (rule add_entry_new[OF _ _ assms(4,7) g, where ips = ips]) (use e r in \<open>auto dest: steady_pools_fields\<close>)
  have e2: "map_of (lbCache m2) key = Some ?e" "ce_LbServicePairs ?e = []" using m2(3) e by (simp_all add: with_opts_def)
  obtain m3 err where i: "install_pairs env opts svc ips key ?ps m2 = Ret (m3, err)"
    using m2(1) e2(1) by (auto simp: add_installed_def Let_def)
  have "err \<noteq> Some None" using install_pairs_error[OF assms(1)] i by blast
  then have err: "err = None" and m': "m' = update_retry env 5 (sv_Namespace svc) (sv_Name svc) ?ps m3"
    using i m2(1) e2(1) f
    by (auto simp: add_installed_def finish_def go_map_eq_Ret Let_def split: option.splits)
  have "distinct (map fst (ce_LbServicePairs ?e) @ map pair_key ?ps)" using new_pairs_keys[OF assms(9,8)] e2(2) by simp
  from install_pairs_entry[OF i[unfolded err] e2(1) this] obtain lbs where
    "map_of (lbCache m3) = (map_of (lbCache m2))(key \<mapsto> installed_entry opts e ?ps lbs)" "poolStore m3 = poolStore m2"
    "list_all2 (\<lambda>p lb. makeLoxiLoadBalancerModel env (mk_args opts ?e ips (getServicePrivateIP (e_cfg env) svc) p) svc
      (K8sSvcPort p) = Inr lb) ?ps lbs"
    "apiLog m3 = apiLog m2 @ concat (map (\<lambda>lb. install_calls (LoxiClients m2) lb (ce_PrefLocal ?e)) lbs)"
    unfolding e2(2) by (auto simp: installed_entry_def)
  moreover have "statusLog m3 = statusLog m" using install_pairs_status[OF i] m2(4) by simp
  moreover have "ce_PrefLocal ?e = ce_PrefLocal e" by (simp add: with_opts_def)
  ultimately show ?thesis
    using that[OF q ip, of ?ps lbs] update_retry_fields[of env 5 "sv_Namespace svc" "sv_Name svc" ?ps m3] m2(2,3,5,6) m' by auto
qed

lemma installed_entry_returns:
  assumes "new_entry env opts m0 = Ret e" and "o_sipPools opts = []" and "list_all2 P ps lbs" and "\<forall>p\<in>set ps. pr_InRange p"
  shows "entry_returns (installed_entry opts e ps lbs) = map (\<lambda>p. (o_ipPool opts, IPString p, pr_IdentIPAM p)) ps"
  using new_entry_fields[OF assms(1)] list_all2_lengthD[OF assms(3)] assms(2,4)
    entry_returns_of_pairs[of "installed_entry opts e ps lbs" lbs ps]
  by (simp add: installed_entry_def with_opts_def)

lemma roundtrip_ledger:
  assumes "wf_manager m" and "ipam_contract (e_tk env) held" and "\<forall>q\<in>set (poolStore m). allocates_inside (e_tk env) q"
    and "p < length (poolStore m)" and "GetNewIPAddr (e_tk env) (poolStore m ! p) name s proto = (q, ip, ident)" and "ip \<noteq> []"
    and "poolStore m1 = (poolStore m)[p := q]"
    and "rs = map (\<lambda>pr. (p, IPString pr, pr_IdentIPAM pr)) (new_pairs env m0 p ip ident ports)" and "i < length (poolStore m)"
    and "poolStore m0 = poolStore m"
  shows "ledger held m1 i - returned env m1 rs i =
    ledger held m i - (if i = p then {(port_ident env m p port, IP_String ip) | port. port \<in> set (tl ports)} else {})"
proof -
  let ?q = "poolStore m ! p"
  have moved: "same_pool ?q q" using GetNewIPAddr_same[of ?q] assms(5) by (metis fst_conv)
  have tb: "takes_back env m1 p (IP_String ip)"
    using GetNewIPAddr_inside[OF _ assms(5,6)] assms(3,4,7) pool_Contains_same[OF moved]
    by (simp add: takes_back_def in_pool_def)
  have led: "ledger held m1 i = ledger held m i \<union> (if i = p then {(ident, IP_String ip)} else {})"
    "i = p \<Longrightarrow> (ident, IP_String ip) \<notin> ledger held m i"
    using GetNewIPAddr_ledger[OF assms(2,5)] assms(4,6,7,9) by (auto simp: ledger_def nth_list_update)
  have id: "port_ident env m0 p = port_ident env m p" using assms(10) by (simp add: port_ident_def shared_ident_def fun_eq_iff)
  have "returned env m1 rs i = (if i = p then
      insert (ident, IP_String ip) {(port_ident env m p port, IP_String ip) | port. port \<in> set (tl ports)} else {})"
    using tb by (auto simp: returned_def assms(8) new_pairs_def new_pair_fields id)
  then show ?thesis using led by auto
qed

text \<open>
  C3. A service comes and goes. When a service without external address and without secondary pools
  was added without an error and then deleted without an error, the cache is as before, and so are
  the ledgers of all pools, except that the pairs of its further ports (the service's address with
  the identifier of the port) are gone: these were never recorded for the service, so that another
  service which holds one of them loses it. For a service with one port nothing has changed.
\<close>

theorem add_delete_roundtrip:
  assumes "wf_manager m" and "ipam_contract (e_tk env) held"
    and "\<forall>q\<in>set (poolStore m). allocates_inside (e_tk env) q" and "wraps_errors env"
    and "map_of (lbCache m) (GenKey (sv_Namespace svc) (sv_Name svc)) = None"
    and "getLBIngressSvcPairs (e_cfg env) svc = []" and "annot svc ''loxilb.io/poolSelectSecondary'' = []"
    and "sv_Ports svc \<noteq> []" and "distinct_ports (sv_Ports svc)"
    and "addLoadBalancer env svc m = Ret (m1, None)"
    and "deleteLoadBalancer env (sv_Namespace svc) (sv_Name svc) True m1 = Ret (m2, None)"
  shows "map_of (lbCache m2) = map_of (lbCache m) \<and>
    (\<exists>p ip. \<forall>i<length (poolStore m). ledger held m2 i =
       ledger held m i - (if i = p then {(port_ident env m p port, ip) | port. port \<in> set (tl (sv_Ports svc))} else {}))"
proof -
  let ?key = "GenKey (sv_Namespace svc) (sv_Name svc)"
  from assms(10,5) show ?thesis
  proof (cases rule: add_new_cases)
    case 1
    then have "m2 = m" using assms(5,11) by (simp add: deleteLoadBalancer_def)
    then show ?thesis by (auto intro!: exI[of _ "length (poolStore m)"])
  next
    case (2 opts ips e)
    let ?m = "(set_entry ?key e m)\<lparr>zoneInstSelHint := zoneInstSelHint m + 1\<rparr>" and ?p = "o_ipPool opts"
    have p: "?p < length (poolStore m)" and sec: "o_sipPools opts = []" "o_numSecondarySvc opts = 0"
      using parse_opts_pools[OF 2(1) assms(1)] assms(7) by simp_all
    obtain q ip ident ps lbs where q: "GetNewIPAddr (e_tk env) (poolStore m ! ?p) ?key (u32 (sp_Port (hd (sv_Ports svc))))
        (to_lower (sp_Protocol (hd (sv_Ports svc)))) = (q, ip, ident)" "ip \<noteq> []"
      and m1: "poolStore m1 = (poolStore m)[?p := q]" "map_of (lbCache m1) = (map_of (lbCache ?m))(?key \<mapsto> installed_entry opts e ps lbs)"
      and ps: "ps = new_pairs env ?m ?p ip ident (sv_Ports svc)" "list_all2 (\<lambda>p lb. makeLoxiLoadBalancerModel env
        (mk_args opts ((with_opts opts e)\<lparr>ce_SecIPs := o_secIPs opts\<rparr>) ips (getServicePrivateIP (e_cfg env) svc) p) svc
        (K8sSvcPort p) = Inr lb) ps lbs"
      by (rule add_new_success[OF assms(4,6) sec _ 2(2) refl assms(8,9) 2(4)]) (use p in simp_all)
    define e' where "e' = installed_entry opts e ps lbs"
    have ret: "entry_returns e' = map (\<lambda>pr. (?p, IPString pr, pr_IdentIPAM pr)) (new_pairs env ?m ?p ip ident (sv_Ports svc))"
      using installed_entry_returns[OF 2(2) sec(1) ps(2)] by (simp add: e'_def ps(1) new_pairs_def new_pair_fields)
    have e': "map_of (lbCache m1) ?key = Some e'" using m1(2) by (simp add: e'_def)
    have wf1: "wf_manager m1" by (rule steady_wf[OF addLoadBalancer_steady[OF assms(10,1)] assms(1)])
    have del: "lbCache m2 = AList.delete ?key (lbCache m1)"
      "\<forall>i<length (poolStore m). ledger held m2 i = ledger held m1 i - returned env m1 (entry_returns e') i"
      using deleteLoadBalancer_result[OF wf1 assms(2) e', of True] assms(11) m1(1) by auto
    have "map_of (lbCache m2) = map_of (lbCache m)"
      using assms(5) by (auto simp: del(1) delete_conv' m1(2) set_entry_def update_conv' fun_eq_iff)
    moreover have "ledger held m2 i = ledger held m i - (if i = ?p then
        {(port_ident env m ?p port, IP_String ip) | port. port \<in> set (tl (sv_Ports svc))} else {})" if i: "i < length (poolStore m)" for i
      using roundtrip_ledger[OF assms(1-3) p q m1(1) ret i] del(2) i by simp
    ultimately show ?thesis by blast
  qed
qed

theorem add_delete_roundtrip_witness:
  "\<exists>m1 m2. addLoadBalancer (demo_env accept) https_svc demo_manager = Ret (m1, None) \<and> lbCache m1 \<noteq> [] \<and>
     deleteLoadBalancer (demo_env accept) ''default'' ''https'' True m1 = Ret (m2, None) \<and>
     map_of (lbCache m2) = Map.empty \<and> ledger set m2 0 = {}"
proof -
  let ?add = "addLoadBalancer (demo_env accept) https_svc demo_manager"
  have "case ?add of Ret (m1, None) \<Rightarrow> lbCache m1 \<noteq> [] \<and>
      (case deleteLoadBalancer (demo_env accept) (sv_Namespace https_svc) (sv_Name https_svc) True m1 of Ret (m2, None) \<Rightarrow> True | _ \<Rightarrow> False)
    | _ \<Rightarrow> False" by code_simp
  then obtain m1 m2 where r: "?add = Ret (m1, None)" "lbCache m1 \<noteq> []"
    "deleteLoadBalancer (demo_env accept) (sv_Namespace https_svc) (sv_Name https_svc) True m1 = Ret (m2, None)"
    by (auto split: go.splits option.splits)
  have pre: "map_of (lbCache demo_manager) (GenKey (sv_Namespace https_svc) (sv_Name https_svc)) = None"
    "getLBIngressSvcPairs (e_cfg (demo_env accept)) https_svc = []" "annot https_svc ''loxilb.io/poolSelectSecondary'' = []"
    by code_simp+
  have names: "sv_Namespace https_svc = ''default''" "sv_Name https_svc = ''https''" by code_simp+
  have ports: "sv_Ports https_svc \<noteq> []" "distinct_ports (sv_Ports https_svc)" "tl (sv_Ports https_svc) = []"
    by (simp_all add: https_svc_def distinct_ports_def)
  have "allocates_inside list_ipam demo_pool" using list_ipam_inside[of "IPAlloc demo_pool"] by simp
  then have inside: "\<forall>q\<in>set (poolStore demo_manager). allocates_inside (e_tk (demo_env accept)) q"
    by (simp add: demo_manager_def)
  have wraps: "wraps_errors (demo_env accept)" by (simp add: wraps_errors_def demo_env_def)
  have "ledger set demo_manager 0 = {}" "lbCache demo_manager = []" "length (poolStore demo_manager) = 1"
    by (simp_all add: ledger_def demo_manager_def demo_pool_def)
  with add_delete_roundtrip[OF demo_manager_wf _ inside wraps pre ports(1,2) r(1,3), of set] list_ipam_contract
  show ?thesis using r ports(3) by (auto simp: names)
qed

end
