(* ===== verification/Lb_Partial.thy ===== *)
theory Lb_Partial
  imports Lb_Invariant
begin

text \<open>
  A service of which only some rules can be installed: what is left on the instances, in the cache and
  in the pools when \<open>addLoadBalancer\<close> returns an error after it has installed the rules of some ports.
\<close>

subsection \<open>What was installed\<close>












subsection \<open>Witness\<close>




end
