(* ===== verification/Lb_Resync.thy ===== *)
theory Lb_Resync
  imports Lb_Invariant
begin

text \<open>
  A service that was installed and is seen again. The informers hand every service to the work queue
  again and again; \<open>addLoadBalancer\<close> then compares what it reads with its cache entry. \<open>settled\<close>
  collects what it compares, and a settled service is left alone: no call to an instance, no
  allocation and no update of the status. The status that was written is read back as the address
  that was given, so that a service is settled once it is installed. The last section says what the
  instances were told when it was installed.
\<close>

subsection \<open>A settled service\<close>

definition endpoints_of :: "'a lb_env \<Rightarrow> LbOpts \<Rightarrow> Service \<Rightarrow> string list \<times> error option" where
  "endpoints_of env opts svc = getEndpoints (e_tk env) (e_kube env) svc (o_usePodNet opts) (o_useExternalEndpoint opts)
     (o_needMultusEP opts) (o_epAddrType opts) (o_matchNodeLabel opts)"

definition entry_pairs :: "LbCacheEntry \<Rightarrow> LbServicePairEntry list" where
  "entry_pairs e = map snd (ce_LbServicePairs e)"

text \<open>The status of the service names the external addresses of the entry.\<close>

definition status_shows :: "'a lb_env \<Rightarrow> 'a Manager \<Rightarrow> Service \<Rightarrow> LbCacheEntry \<Rightarrow> bool" where
  "status_shows env m svc e \<longleftrightarrow>
     list_all (\<lambda>sp. list_all (checkServiceIngressIPExists svc) (genExtIPName env m (se_ExternalIP sp))) (entry_pairs e)"

text \<open>Every address and port of the service is one of a cached pair.\<close>

definition pairs_cached :: "LbCacheEntry \<Rightarrow> SvcPair list \<Rightarrow> bool" where
  "pairs_cached e ps \<longleftrightarrow>
     list_all (\<lambda>p. list_ex (\<lambda>sp. pair_key p = GenSPKey (se_ExternalIP sp) (se_Port sp) (se_Protocol sp)) (entry_pairs e)) ps"

definition in_step :: "'a lb_env \<Rightarrow> LbOpts \<Rightarrow> Service \<Rightarrow> LbCacheEntry \<Rightarrow> 'a Manager \<Rightarrow> bool" where
  "in_step env opts svc e m \<longleftrightarrow>
     getLBIngressSvcPairs (e_cfg env) svc \<noteq> [] \<and> pairs_cached e (getLBIngressSvcPairs (e_cfg env) svc) \<and>
     status_shows env m svc e \<and> \<not> no_rules e \<and> with_opts opts e = e \<and>
     0 \<le> o_probePort opts \<and> o_probePort opts < 65536 \<and>
     (o_secIPs opts \<noteq> [] \<or> length (ce_SecIPs e) = o_numSecondarySvc opts)"

definition settled :: "'a lb_env \<Rightarrow> LbOpts \<Rightarrow> string list \<Rightarrow> Service \<Rightarrow> LbCacheEntry \<Rightarrow> 'a Manager \<Rightarrow> bool" where
  "settled env opts ips svc e m \<longleftrightarrow>
     in_step env opts svc e m \<and> \<not> checkUpdateEndpoints env svc e ips (o_useExternalEndpoint opts)"

text \<open>A pair that was read from the cache for a pair of the service.\<close>

definition cached_for :: "LbCacheEntry \<Rightarrow> SvcPair \<Rightarrow> SvcPair \<Rightarrow> bool" where
  "cached_for e p r \<longleftrightarrow> K8sSvcPort r = K8sSvcPort p \<and> pair_key r = pair_key p \<and>
     (\<exists>sp\<in>set (entry_pairs e). IPString r = se_ExternalIP sp)"

lemma u16_uint: "u16 (uint w) = w"
  by (simp add: u16_def)

lemma existing_loop_cached:
  assumes "pairs_cached e ps"
  shows "\<exists>rs. existing_loop env key e ps b acc m = Ret (m, acc @ rs) \<and> list_all2 (cached_for e) ps rs"
  using assms
proof (induction ps arbitrary: acc)
  case (Cons p ps)
  let ?P = "\<lambda>sp. GenSPKey (IPString p) (u16 (pr_Port p)) (pr_Protocol p) =
    GenSPKey (se_ExternalIP sp) (se_Port sp) (se_Protocol sp)"
  have "find ?P (entry_pairs e) \<noteq> None"
    using Cons.prems by (auto simp: pairs_cached_def find_None_iff list_ex_iff pair_key_def)
  then obtain sp where sp: "find ?P (entry_pairs e) = Some sp" by auto
  then have "sp \<in> set (entry_pairs e)" "?P sp" by (auto simp: find_Some_iff)
  then have for_p: "cached_for e p (cached_pair sp (K8sSvcPort p))"
    by (auto simp: cached_for_def cached_pair_def pair_key_def u16_uint)
  have "pairs_cached e ps" using Cons.prems by (simp add: pairs_cached_def)
  from Cons.IH[OF this, of "acc @ [cached_pair sp (K8sSvcPort p)]"] obtain rs where
    "existing_loop env key e ps b (acc @ [cached_pair sp (K8sSvcPort p)]) m = Ret (m, (acc @ [cached_pair sp (K8sSvcPort p)]) @ rs)"
    "list_all2 (cached_for e) ps rs" by blast
  with sp for_p show ?case
    by (intro exI[of _ "cached_pair sp (K8sSvcPort p) # rs"]) (simp add: entry_pairs_def)
qed simp

lemma cached_for_address:
  "list_all2 (cached_for e) ps rs \<Longrightarrow> r \<in> set rs \<Longrightarrow> \<exists>sp\<in>set (entry_pairs e). IPString r = se_ExternalIP sp"
  by (auto simp: cached_for_def list_all2_conv_all_nth in_set_conv_nth)

lemma set_entry_same: "map_of (lbCache m) key = Some e \<Longrightarrow> set_entry key e m = m"
proof -
  have "map_of al key = Some e \<Longrightarrow> AList.update key e al = al" for al :: "(string \<times> LbCacheEntry) list"
    by (induction al) (auto split: if_splits)
  then show "map_of (lbCache m) key = Some e \<Longrightarrow> set_entry key e m = m" by (simp add: set_entry_def)
qed

lemma with_opts_differs:
  assumes "with_opts opts e = e" and "0 \<le> o_probePort opts" "o_probePort opts < 65536"
  shows "\<not> addr_differs opts e" "\<not> probe_differs opts e"
proof -
  have "\<not> addr_differs opts (with_opts opts e)" by (simp add: addr_differs_def with_opts_def)
  then show "\<not> addr_differs opts e" by (simp add: assms(1))
  have "\<not> probe_differs opts (with_opts opts e)"
    using u16_roundtrip[of "o_probePort opts"] assms(2,3) by (simp add: probe_differs_def with_opts_def)
  then show "\<not> probe_differs opts e" by (simp add: assms(1))
qed

text \<open>The service has the addresses and ports of its entry; its options and endpoints may have changed.\<close>

definition same_service :: "'a lb_env \<Rightarrow> LbOpts \<Rightarrow> Service \<Rightarrow> LbCacheEntry \<Rightarrow> 'a Manager \<Rightarrow> bool" where
  "same_service env opts svc e m \<longleftrightarrow>
     getLBIngressSvcPairs (e_cfg env) svc \<noteq> [] \<and> pairs_cached e (getLBIngressSvcPairs (e_cfg env) svc) \<and> status_shows env m svc e \<and>
     (o_secIPs opts \<noteq> [] \<or> length (ce_SecIPs e) = o_numSecondarySvc opts)"

definition opts_differ :: "LbOpts \<Rightarrow> LbCacheEntry \<Rightarrow> bool" where
  "opts_differ opts e \<longleftrightarrow> addr_differs opts e \<or> probe_differs opts e"

lemma opts_agree: "\<not> opts_differ opts e \<Longrightarrow> with_opts opts e = e"
  by (cases e) (simp add: opts_differ_def addr_differs_def probe_differs_def with_opts_def u16_def)

lemma with_opts_pairs [simp]:
  "entry_pairs (with_opts opts e) = entry_pairs e" "entry_models (with_opts opts e) = entry_models e"
  "ce_LbServicePairs (with_opts opts e) = ce_LbServicePairs e" "ce_PrefLocal (with_opts opts e) = ce_PrefLocal e"
  "ce_SecIPs (with_opts opts e) = ce_SecIPs e" "cached_for (with_opts opts e) = cached_for e"
  by (simp_all add: entry_pairs_def entry_models_def with_opts_def cached_for_def fun_eq_iff)

lemma with_opts_calls [simp]:
  "checkUpdateEndpoints env svc (with_opts opts e) ips b = checkUpdateEndpoints env svc e ips b"
  "delete_calls env cs (with_opts opts e) = delete_calls env cs e"
  by (simp_all add: checkUpdateEndpoints_def delete_calls_def cong: sum.case_cong)

lemma seen_add_entry:
  assumes "same_service env opts svc e m" and "map_of (lbCache m) key = Some e"
  obtains rs where "list_all2 (cached_for e) (getLBIngressSvcPairs (e_cfg env) svc) rs"
    "add_entry env opts svc ips key True e m =
       (if no_rules e \<or> opts_differ opts e \<or> checkUpdateEndpoints env svc e ips (o_useExternalEndpoint opts)
        then add_installed env opts svc ips key True (opts_differ opts e) rs (set_entry key (with_opts opts e) m)
        else Ret (m, None, False, []))"
proof -
  note s = assms(1)[unfolded same_service_def]
  obtain rs where rs: "getIngressSvcPairs env svc e m = Ret (m, rs, True)" "list_all2 (cached_for e) (getLBIngressSvcPairs (e_cfg env) svc) rs"
    using existing_loop_cached[of e "getLBIngressSvcPairs (e_cfg env) svc" env "GenKey (sv_Namespace svc) (sv_Name svc)" False "[]" m] s
    by (auto simp: getIngressSvcPairs_def Let_def)
  have "\<forall>r\<in>set rs. \<exists>sp\<in>set (entry_pairs e). IPString r = se_ExternalIP sp" using cached_for_address[OF rs(2)] by blast
  then have "\<not> checkUpdateExternalIP env (set_entry key (with_opts opts e) m) rs svc"
    using s by (fastforce simp: checkUpdateExternalIP_def status_shows_def list_all_iff list_ex_iff genExtIPName_def set_entry_def)
  moreover have "sync_fields True opts e = (with_opts opts e, no_rules e \<or> opts_differ opts e, opts_differ opts e)"
    by (simp add: sync_fields_eq flags_def opts_differ_def)
  moreover have "sync_secondaries env opts svc key True (with_opts opts e) m' = Ret (m', False, None)" for m'
    using s by (auto simp: sync_secondaries_def)
  moreover have "\<not> opts_differ opts e \<Longrightarrow> set_entry key (with_opts opts e) m = m"
    using opts_agree set_entry_same[OF assms(2)] by metis
  ultimately show ?thesis using that[OF rs(2)] rs(1) by (auto simp: add_entry_def)
qed

lemma in_step_same:
  assumes "in_step env opts svc e m"
  shows "same_service env opts svc e m" "with_opts opts e = e" "\<not> opts_differ opts e" "\<not> no_rules e"
  using assms with_opts_differs[of opts e] by (simp_all add: in_step_def same_service_def opts_differ_def)

lemma settled_add_entry:
  assumes "settled env opts ips svc e m" and "map_of (lbCache m) key = Some e"
  shows "add_entry env opts svc ips key True e m = Ret (m, None, False, [])"
proof -
  have s: "in_step env opts svc e m" "\<not> checkUpdateEndpoints env svc e ips (o_useExternalEndpoint opts)"
    using assms(1) by (simp_all add: settled_def)
  obtain rs where "add_entry env opts svc ips key True e m =
      (if no_rules e \<or> opts_differ opts e \<or> checkUpdateEndpoints env svc e ips (o_useExternalEndpoint opts)
       then add_installed env opts svc ips key True (opts_differ opts e) rs (set_entry key (with_opts opts e) m)
       else Ret (m, None, False, []))"
    by (rule seen_add_entry[OF in_step_same(1)[OF s(1)] assms(2)])
  then show ?thesis using s(2) in_step_same[OF s(1)] by simp
qed

lemma settled_quiet:
  assumes "admit env m svc = Admit" and "parse_opts env m svc = Ret (Inr opts)" and "endpoints_of env opts svc = (ips, eerr)"
    and "ips \<noteq> []" and "map_of (lbCache m) (GenKey (sv_Namespace svc) (sv_Name svc)) = Some e" and "settled env opts ips svc e m"
  shows "addLoadBalancer env svc m = Ret (m, None)"
  using assms settled_add_entry[OF assms(6,5)] by (simp add: addLoadBalancer_def endpoints_of_def finish_def)

subsection \<open>The status of a service and its options\<close>

lemma annot_status [simp]: "annot (svc\<lparr>sv_Ingress := st\<rparr>) k = annot svc k"
  by (simp add: annot_def)

lemma admit_clients: "LoxiClients m' = LoxiClients m \<Longrightarrow> admit env m' svc = admit env m svc"
  by (simp add: admit_def)

lemma admit_status: "LoxiClients m' = LoxiClients m \<Longrightarrow> admit env m' (svc\<lparr>sv_Ingress := st\<rparr>) = admit env m svc"
  by (simp add: admit_def)

lemma endpoints_status: "endpoints_of env opts (svc\<lparr>sv_Ingress := st\<rparr>) = endpoints_of env opts svc"
  by (simp add: endpoints_of_def getEndpoints_def getMultusEndpoints_def GetServiceEndPointsWithLister_def
      GetServiceLocalEndpoints_def annot_def cong: sum.case_cong option.case_cong)

lemma parse_opts_status: "parse_opts env m (svc\<lparr>sv_Ingress := st\<rparr>) = parse_opts env m svc"
  by (simp add: parse_opts_def addr_type_def select_pool_def select_sec_pools_def sec_ips_def getMtlsFrontendConfig_def
      getMtlsBackendConfig_def opt_timeout_def opt_lbMode_def opt_probeType_def opt_probePort_def opt_probeMsg_def
      opt_probeTimeout_def opt_probeRetries_def opt_epSelect_def Let_def cong: if_cong sum.case_cong option.case_cong)

lemma parse_opts_steady:
  assumes "steady m m'" and "wf_manager m" and "parse_opts env m svc = Ret (Inr opts)"
  shows "parse_opts env m' svc = Ret (Inr opts)"
proof -
  have same: "Shared (poolStore m' ! p) = Shared (poolStore m ! p)" if "p < length (poolStore m)" for p
    using assms(1) that by (auto simp: steady_def list_all2_conv_all_nth same_pool_fields)
  obtain p ps where p: "select_pool m svc = Inr (Some p)" "select_sec_pools m svc = Inr ps" "o_ipPool opts = p" "o_sipPools opts = ps"
    using assms(3) by (auto simp: parse_opts_def Let_def split: sum.splits option.splits if_splits)
  have "list_ex (\<lambda>p. Shared (poolStore m' ! p)) (p # ps) = list_ex (\<lambda>p. Shared (poolStore m ! p)) (p # ps)"
    using parse_opts_pools(1)[OF assms(3,2)] select_pools_wf[OF assms(2,3)] same p(3,4) by (auto simp: list_ex_iff)
  moreover have "select_pool m' svc = select_pool m svc" "select_sec_pools m' svc = select_sec_pools m svc"
    "zoneInstRoleMap m' = zoneInstRoleMap m"
    using assms(1) by (simp_all add: steady_def select_pool_def select_sec_pools_def pool_tbl_def Let_def)
  ultimately have "parse_opts env m' svc = parse_opts env m svc"
    unfolding parse_opts_def Let_def p(1,2) by (simp only: p(1,2) sum.case option.case)
  then show ?thesis using assms(3) by simp
qed

text \<open>The service of a cache entry is seen again, with another status.\<close>

lemma status_seen_again:
  assumes "steady m m'" and "wf_manager m" and "parse_opts env m svc = Ret (Inr opts)" and "admit env m svc = Admit"
    and "getEndpoints (e_tk env) (e_kube env) svc (o_usePodNet opts) (o_useExternalEndpoint opts)
       (o_needMultusEP opts) (o_epAddrType opts) (o_matchNodeLabel opts) = (ips, None)" and "ips \<noteq> []"
    and "map_of (lbCache m') (GenKey (sv_Namespace svc) (sv_Name svc)) = Some e" and "settled env opts ips (svc\<lparr>sv_Ingress := st\<rparr>) e m'"
  shows "addLoadBalancer env (svc\<lparr>sv_Ingress := st\<rparr>) m' = Ret (m', None)"
proof (rule settled_quiet)
  have "LoxiClients m' = LoxiClients m" using assms(1) by (simp add: steady_def)
  then show "admit env m' (svc\<lparr>sv_Ingress := st\<rparr>) = Admit" using assms(4) admit_status by metis
  show "parse_opts env m' (svc\<lparr>sv_Ingress := st\<rparr>) = Ret (Inr opts)"
    unfolding parse_opts_status by (rule parse_opts_steady[OF assms(1-3)])
  show "endpoints_of env opts (svc\<lparr>sv_Ingress := st\<rparr>) = (ips, None)"
    unfolding endpoints_status unfolding endpoints_of_def by (rule assms(5))
qed (use assms(6-8) in simp_all)

subsection \<open>A service that was just installed\<close>

text \<open>A rule for the node ports of a service has one target per endpoint address.\<close>

lemma rule_unchanged:
  assumes "makeLoxiLoadBalancerModel env args svc port = Inr lb" and "a_endpointIPs args = ips" and "ips \<noteq> []"
    and "\<not> a_needMultusEP args" "\<not> a_usePodNetwork args" "\<not> a_useExternalEndpoint args"
  shows "\<not> endpoints_changed ips lb"
proof -
  have "lb_Endpoints lb = map (\<lambda>ip. mk_endpoint ip (sp_NodePort port)) ips"
    using rule_endpoints[OF assms(1)] assms(2-6) by (auto simp: target_ports_def)
  then have "\<forall>ep\<in>set ips. list_ex (\<lambda>old. ep = EndpointIP old) (lb_Endpoints lb)" "length (lb_Endpoints lb) = length ips"
    by (auto simp: list_ex_iff mk_endpoint_def)
  then show ?thesis by (simp add: endpoints_changed_def takeWhile_eq_all_conv[THEN iffD2])
qed

text \<open>The entry once all its pairs are installed.\<close>

definition updated_entry :: "LbCacheEntry \<Rightarrow> SvcPair list \<Rightarrow> LoadBalancerModel list \<Rightarrow> LbCacheEntry" where
  "updated_entry e ps lbs = e\<lparr>ce_LbServicePairs := map2 (\<lambda>p lb. (pair_key p, pair_entry p lb)) ps lbs\<rparr>"

lemma installed_updated: "installed_entry opts e ps lbs = updated_entry ((with_opts opts e)\<lparr>ce_SecIPs := o_secIPs opts\<rparr>) ps lbs"
  by (simp add: installed_entry_def updated_entry_def)

lemma updated_pairs:
  assumes "length lbs = length ps"
  shows "entry_pairs (updated_entry e ps lbs) = map2 pair_entry ps lbs" "entry_models (updated_entry e ps lbs) = lbs"
  using assms by (induction ps lbs rule: list_induct2')
    (simp_all add: entry_pairs_def entry_models_def updated_entry_def pair_entry_def split_def)

lemma updated_fields:
  assumes "length lbs = length ps"
  shows "map se_LbModelList (entry_pairs (updated_entry e ps lbs)) = map (\<lambda>lb. [lb]) lbs"
    "map se_ExternalIP (entry_pairs (updated_entry e ps lbs)) = map IPString ps"
  unfolding updated_pairs[OF assms] using assms
  by (induction ps lbs rule: list_induct2') (simp_all add: pair_entry_def)

lemma updated_has_rules: "length lbs = length ps \<Longrightarrow> ps \<noteq> [] \<Longrightarrow> \<not> no_rules (updated_entry e ps lbs)"
  by (cases ps; cases lbs) (auto simp: no_rules_def updated_entry_def list_ex_iff pair_entry_def dest: set_zip_leftD)

lemma updated_opts: "with_opts opts e = e \<Longrightarrow> with_opts opts (updated_entry e ps lbs) = updated_entry e ps lbs"
proof -
  have "with_opts opts (updated_entry e ps lbs) = updated_entry (with_opts opts e) ps lbs" by (simp add: with_opts_def updated_entry_def)
  then show "with_opts opts e = e \<Longrightarrow> ?thesis" by simp
qed

lemma updated_cached:
  assumes "length lbs = length ps" and "pair_key ` set qs \<subseteq> pair_key ` set ps"
  shows "pairs_cached (updated_entry e ps lbs) qs"
proof -
  have "\<exists>sp\<in>set (map2 pair_entry ps lbs). pair_key q = GenSPKey (se_ExternalIP sp) (se_Port sp) (se_Protocol sp)"
    if q: "q \<in> set qs" for q
  proof -
    obtain i where i: "i < length ps" "pair_key q = pair_key (ps ! i)"
      using assms(2) q by (auto simp: in_set_conv_nth image_iff subset_iff) (metis in_set_conv_nth)
    then have "pair_entry (ps ! i) (lbs ! i) \<in> set (map2 pair_entry ps lbs)"
      using assms(1) by (auto simp: set_zip)
    then show ?thesis using i(2) by (intro bexI) (auto simp: pair_key_def pair_entry_def)
  qed
  then show ?thesis by (simp add: pairs_cached_def updated_pairs[OF assms(1)] list_all_iff list_ex_iff)
qed

lemma list_all2_mono_in:
  assumes "list_all2 P xs ys" and "\<And>x y. x \<in> set xs \<Longrightarrow> P x y \<Longrightarrow> Q x y"
  shows "list_all2 Q xs ys"
  using assms by (auto simp: list_all2_conv_all_nth)

text \<open>
  A service whose pairs are all installed for its node ports and the endpoints \<open>ips\<close>, and whose status
  shows their addresses, is settled.
\<close>

lemma updated_settled:
  assumes "ps \<noteq> []" and "ips \<noteq> []"
    and "list_all2 (\<lambda>p lb. makeLoxiLoadBalancerModel env (mk_args opts e ips priv p) svc (K8sSvcPort p) = Inr lb) ps lbs"
    and "\<not> o_needMultusEP opts" "\<not> o_usePodNet opts" "\<not> o_useExternalEndpoint opts"
    and "0 \<le> o_probePort opts" "o_probePort opts < 65536"
    and "o_secIPs opts \<noteq> [] \<or> length (ce_SecIPs e) = o_numSecondarySvc opts" and "with_opts opts e = e"
    and "getLBIngressSvcPairs (e_cfg env) svc' \<noteq> []" and "pair_key ` set (getLBIngressSvcPairs (e_cfg env) svc') \<subseteq> pair_key ` set ps"
    and "\<forall>p\<in>set ps. list_all (checkServiceIngressIPExists svc') (genExtIPName env m (IPString p))"
  shows "settled env opts ips svc' (updated_entry e ps lbs) m"
proof -
  let ?e = "updated_entry e ps lbs"
  note len = list_all2_lengthD[OF assms(3), symmetric]
  have "status_shows env m svc' ?e \<longleftrightarrow> list_all (\<lambda>a. list_all (checkServiceIngressIPExists svc') (genExtIPName env m a))
      (map se_ExternalIP (entry_pairs ?e))" by (simp add: status_shows_def list_all_iff)
  then have "status_shows env m svc' ?e" using assms(13) unfolding updated_fields[OF len] by (simp add: list_all_iff)
  moreover have "\<not> endpoints_changed ips lb" if lb: "lb \<in> set lbs" for lb
  proof -
    obtain i where i: "i < length lbs" "lb = lbs ! i" using lb by (auto simp: in_set_conv_nth)
    show ?thesis
      by (rule rule_unchanged[OF list_all2_nthD2[OF assms(3) i(1), folded i(2)]]) (use assms(2,4-6) in \<open>simp_all add: mk_args_def\<close>)
  qed
  then have "\<not> checkUpdateEndpoints env svc' ?e ips (o_useExternalEndpoint opts)"
    using assms(6) by (simp add: checkUpdateEndpoints_def updated_pairs[OF len] list_ex_iff)
  moreover have "o_secIPs opts \<noteq> [] \<or> length (ce_SecIPs ?e) = o_numSecondarySvc opts"
    using assms(9) by (simp add: updated_entry_def)
  ultimately show ?thesis
    unfolding settled_def in_step_def
    using updated_has_rules[OF len assms(1)] updated_opts[OF assms(10)] updated_cached[OF len assms(12)] assms(7,8,11) by blast
qed

lemma new_pairs_fields:
  assumes "ports \<noteq> []"
  shows "map K8sSvcPort (new_pairs env m p ip ident ports) = ports"
    "q \<in> set (new_pairs env m p ip ident ports) \<Longrightarrow> IPString q = IP_String ip \<and> pr_InRange q \<and>
       pr_Port q = sp_Port (K8sSvcPort q) \<and> pr_Protocol q = to_lower (sp_Protocol (K8sSvcPort q))"
    "new_pairs env m p ip ident ports \<noteq> []"
  using assms by (cases ports) (auto simp: new_pairs_def new_pair_def comp_def)

text \<open>A new service that was installed for its node ports, and whose status now shows the external address.\<close>

lemma installed_settled:
  assumes "ps = new_pairs env m0 (o_ipPool opts) ip ident (sv_Ports svc)" and "sv_Ports svc \<noteq> []" and "ips \<noteq> []"
    and "list_all2 (\<lambda>p lb. makeLoxiLoadBalancerModel env (mk_args opts ((with_opts opts e)\<lparr>ce_SecIPs := o_secIPs opts\<rparr>) ips
       (getServicePrivateIP (e_cfg env) svc) p) svc (K8sSvcPort p) = Inr lb) ps lbs"
    and "\<not> o_needMultusEP opts" "\<not> o_usePodNet opts" "\<not> o_useExternalEndpoint opts"
    and "0 \<le> o_probePort opts" "o_probePort opts < 65536" and "o_numSecondarySvc opts = 0"
    and "set (getLBServiceExternalIPs (e_cfg env) svc') = {IP_String ip}" and "sv_Ports svc' = sv_Ports svc"
    and "list_all (checkServiceIngressIPExists svc') (genExtIPName env m (IP_String ip))"
  shows "settled env opts ips svc' (installed_entry opts e ps lbs) m"
  unfolding installed_updated
proof (rule updated_settled[OF _ assms(3,4,5-9)])
  note ps = new_pairs_fields[OF assms(2), where env = env and m = m0 and p = "o_ipPool opts" and ip = ip and ident = ident, folded assms(1)]
  have "getLBServiceExternalIPs (e_cfg env) svc' \<noteq> []" using assms(11) by (metis insert_not_empty list.set(1))
  then show "getLBIngressSvcPairs (e_cfg env) svc' \<noteq> []"
    using assms(2,12) by (cases "getLBServiceExternalIPs (e_cfg env) svc'") (simp_all add: getLBIngressSvcPairs_def)
  show "pair_key ` set (getLBIngressSvcPairs (e_cfg env) svc') \<subseteq> pair_key ` set ps"
  proof (intro image_subsetI)
    fix q assume "q \<in> set (getLBIngressSvcPairs (e_cfg env) svc')"
    then obtain port where port: "port \<in> set (sv_Ports svc)" "IPString q = IP_String ip" "pr_Port q = sp_Port port"
      "pr_Protocol q = to_lower (sp_Protocol port)" using assms(11,12) by (auto simp: getLBIngressSvcPairs_def)
    then obtain p where "p \<in> set ps" "K8sSvcPort p = port" using ps(1) by (metis image_iff list.set_map)
    with ps(2)[of p] port show "pair_key q \<in> pair_key ` set ps" by (auto simp: pair_key_def image_iff intro!: bexI[of _ p])
  qed
  show "\<forall>p\<in>set ps. list_all (checkServiceIngressIPExists svc') (genExtIPName env m (IPString p))" using ps(2) assms(13) by simp
  show "ps \<noteq> []" by (rule ps(3))
qed (use assms(10) in \<open>auto simp: with_opts_def\<close>)

subsection \<open>The status that is written\<close>

lemma update_retry_log:
  assumes "get_service (e_kube env) ns name = Inr cur"
  shows "\<exists>k. (0 < n \<longrightarrow> 0 < k) \<and> k \<le> n \<and> statusLog (update_retry env n ns name pairs m) =
    statusLog m @ replicate k (fold add_ingress (status_names env m pairs) cur)"
proof (induction n arbitrary: m)
  case (Suc n)
  let ?cur = "fold add_ingress (status_names env m pairs) cur"
  let ?m = "m\<lparr>statusLog := statusLog m @ [?cur]\<rparr>"
  have names: "status_names env ?m pairs = status_names env m pairs" by (simp add: status_names_def genExtIPName_def cong: if_cong)
  obtain k where k: "k \<le> n" "statusLog (update_retry env n ns name pairs ?m) = statusLog ?m @ replicate k ?cur"
    using Suc.IH[of ?m] unfolding names by blast
  have "update_retry env (Suc n) ns name pairs m = ?m \<or> update_retry env (Suc n) ns name pairs m = update_retry env n ns name pairs ?m"
    by (simp add: updateService_def assms Let_def)
  then show ?case
  proof
    assume "update_retry env (Suc n) ns name pairs m = ?m"
    then show ?thesis by (intro exI[of _ 1]) simp
  next
    assume "update_retry env (Suc n) ns name pairs m = update_retry env n ns name pairs ?m"
    then show ?thesis using k by (intro exI[of _ "Suc k"]) simp
  qed
qed simp

lemma status_names_same:
  assumes "\<forall>p\<in>set ps. pr_InRange p \<and> genExtIPName env m (IPString p) = [h]"
  shows "status_names env m ps = replicate (length ps) h"
  using assms by (induction ps) (simp_all add: status_names_def)

lemma genExtIPName_plain:
  "\<not> IsUnspecified (ParseIP s) \<Longrightarrow> genExtIPName env m s = genExtIPName env m' s"
  by (simp add: genExtIPName_def GenExtIPName_def)

lemma add_ingress_shows: "h \<noteq> [] \<Longrightarrow> checkServiceIngressIPExists (add_ingress h svc) h"
  by (auto simp: add_ingress_def checkServiceIngressIPExists_def)

lemma add_ingress_again: "h \<noteq> [] \<Longrightarrow> fold add_ingress (replicate n h) (add_ingress h svc) = add_ingress h svc"
  by (induction n) (simp_all add: add_ingress_def[of h "add_ingress h svc"] add_ingress_shows)

lemma add_ingress_status: "\<exists>st. add_ingress h svc = svc\<lparr>sv_Ingress := st\<rparr>"
proof -
  have "svc = svc\<lparr>sv_Ingress := sv_Ingress svc\<rparr>" by simp
  then show ?thesis unfolding add_ingress_def by metis
qed

text \<open>The address that an entry of the status stands for, when the pool is not the zero CIDR.\<close>

definition ingress_addr :: "string \<Rightarrow> Ingress \<Rightarrow> string" where
  "ingress_addr zone i = (if ing_IP i \<noteq> [] then ing_IP i
     else if ing_Hostname i \<noteq> [] then ParseIngressHostname (ing_Hostname i) zone else [])"

lemma ingress_addrs:
  assumes "\<not> serviceHasZeroCIDRPool cfg svc"
  shows "getServiceIngressIPs cfg svc = filter (\<lambda>ip. ip \<noteq> []) (map (ingress_addr (cfg_Zone cfg)) (sv_Ingress svc))"
  using assms by (simp add: getServiceIngressIPs_def ingress_addr_def[abs_def] cong: if_cong)

lemma zero_cidr_status: "serviceHasZeroCIDRPool cfg (svc\<lparr>sv_Ingress := st\<rparr>) = serviceHasZeroCIDRPool cfg svc"
proof -
  have "zero_cidr_loop (svc\<lparr>sv_Ingress := st\<rparr>) n ps b = zero_cidr_loop svc n ps b" for n ps b
    by (induction svc n ps b rule: zero_cidr_loop.induct) (simp_all add: Let_def split: option.splits)
  then show ?thesis by (simp add: serviceHasZeroCIDRPool_def)
qed

text \<open>The host name or address that is written for an address leads back to it.\<close>

lemma ingress_leads_back:
  assumes "family_recognised (e_tk env)" and "CHR ''-'' \<notin> set (cfg_Zone (e_cfg env))" and "\<not> serviceHasZeroCIDRPool (e_cfg env) svc"
    and "ParseIP addr \<noteq> []" and "\<not> IsUnspecified (ParseIP addr)" and "getServiceIngressIPs (e_cfg env) svc = []"
  obtains h where "genExtIPName env m addr = [h]" "h \<noteq> []" "getServiceIngressIPs (e_cfg env) (add_ingress h svc) = [addr]"
proof -
  let ?zone = "cfg_Zone (e_cfg env)"
  obtain h where h: "genExtIPName env m addr = [h]" "ParseIngressHostname h ?zone = addr"
    using ext_ip_name_back[OF assms(1,2,4,5)] by (auto simp: genExtIPName_def)
  have addr: "addr \<noteq> []" using assms(4) by (auto simp: ParseIP_plain)
  have plain: "h = addr" if "ParseIP h \<noteq> []"
    using ext_ip_name_address[OF assms(4,5) _ that assms(1)] h(1) by (simp add: genExtIPName_def)
  have ne: "h \<noteq> []" using h(2) addr by (auto simp: ParseIngressHostname_def split: if_splits)
  let ?i = "if ParseIP h = [] then \<lparr>ing_IP = [], ing_Hostname = h\<rparr> else \<lparr>ing_IP = h, ing_Hostname = []\<rparr>"
  have none: "\<forall>i\<in>set (sv_Ingress svc). ingress_addr ?zone i = []"
    using assms(6) unfolding ingress_addrs[OF assms(3)] by (simp add: filter_empty_conv)
  have "\<not> checkServiceIngressIPExists svc h"
  proof
    assume "checkServiceIngressIPExists svc h"
    then obtain i where i: "i \<in> set (sv_Ingress svc)" "ing_IP i \<noteq> [] \<or> ing_Hostname i = h"
      by (auto simp: checkServiceIngressIPExists_def list_ex_iff)
    then show False using none h(2) ne addr by (auto simp: ingress_addr_def split: if_splits)
  qed
  then have new: "add_ingress h svc = svc\<lparr>sv_Ingress := sv_Ingress svc @ [?i]\<rparr>" by (simp add: add_ingress_def)
  have "ingress_addr ?zone ?i = addr" using h(2) ne plain by (simp add: ingress_addr_def)
  moreover have "\<not> serviceHasZeroCIDRPool (e_cfg env) (add_ingress h svc)"
    unfolding new zero_cidr_status by (rule assms(3))
  note ingress_addrs[OF this]
  moreover have "filter (\<lambda>ip. ip \<noteq> []) (map (ingress_addr ?zone) (sv_Ingress svc)) = []" using none by (simp add: filter_empty_conv)
  ultimately have "getServiceIngressIPs (e_cfg env) (add_ingress h svc) = [addr]"
    using addr by (simp add: new del: if_split)
  then show ?thesis using that[OF h(1) ne] by blast
qed

text \<open>What \<open>updateService\<close> writes for the pairs of one address, however often it has to write it.\<close>

lemma status_written:
  assumes "family_recognised (e_tk env)" "CHR ''-'' \<notin> set (cfg_Zone (e_cfg env))" "\<not> serviceHasZeroCIDRPool (e_cfg env) svc"
    and "ParseIP a \<noteq> []" "\<not> IsUnspecified (ParseIP a)" "getServiceIngressIPs (e_cfg env) svc = []"
    and "get_service (e_kube env) (sv_Namespace svc) (sv_Name svc) = Inr svc"
    and "ps \<noteq> []" and "\<forall>p\<in>set ps. IPString p = a \<and> pr_InRange p" and "m' = update_retry env 5 (sv_Namespace svc) (sv_Name svc) ps m"
  obtains n st where "n \<in> {1..5}" "statusLog m' = statusLog m @ replicate n (svc\<lparr>sv_Ingress := st\<rparr>)"
    "getServiceIngressIPs (e_cfg env) (svc\<lparr>sv_Ingress := st\<rparr>) = [a]"
    "list_all (checkServiceIngressIPExists (svc\<lparr>sv_Ingress := st\<rparr>)) (genExtIPName env m' a)"
proof -
  obtain h where h: "genExtIPName env m a = [h]" "h \<noteq> []" "getServiceIngressIPs (e_cfg env) (add_ingress h svc) = [a]"
    by (rule ingress_leads_back[OF assms(1-6)])
  have h': "genExtIPName env m' a = [h]" using genExtIPName_plain[OF assms(5)] h(1) by metis
  obtain st where st: "add_ingress h svc = svc\<lparr>sv_Ingress := st\<rparr>" using add_ingress_status by blast
  have "status_names env m ps = replicate (length ps) h" by (rule status_names_same) (use assms(9) h(1) in auto)
  then have "fold add_ingress (status_names env m ps) svc = add_ingress h svc"
    using add_ingress_again[OF h(2), of "length ps - 1" svc] assms(8) by (cases ps) simp_all
  with update_retry_log[OF assms(7), of 5 ps m] obtain n where
    n: "0 < n" "n \<le> 5" "statusLog m' = statusLog m @ replicate n (add_ingress h svc)"
    unfolding assms(10) by auto
  show ?thesis
    by (rule that[of n st]) (use n h(3) h' add_ingress_shows[OF h(2), of svc] in \<open>simp_all add: st Suc_le_eq\<close>)
qed

subsection \<open>Reconciliation is idempotent\<close>

definition plain_addresses :: "LbCacheEntry \<Rightarrow> bool" where
  "plain_addresses e \<longleftrightarrow>
     list_all (\<lambda>sp. ParseIP (se_ExternalIP sp) \<noteq> [] \<and> \<not> IsUnspecified (ParseIP (se_ExternalIP sp))) (entry_pairs e)"

lemma plain_installed:
  assumes "length lbs = length ps" and "ps \<noteq> []" and "\<forall>q\<in>set ps. IPString q = a"
  shows "plain_addresses (installed_entry opts e ps lbs) \<longleftrightarrow> ParseIP a \<noteq> [] \<and> \<not> IsUnspecified (ParseIP a)"
proof -
  have "plain_addresses (installed_entry opts e ps lbs) \<longleftrightarrow> list_all (\<lambda>s. ParseIP s \<noteq> [] \<and> \<not> IsUnspecified (ParseIP s))
      (map se_ExternalIP (entry_pairs (installed_entry opts e ps lbs)))" by (simp add: plain_addresses_def list_all_iff)
  also have "map se_ExternalIP (entry_pairs (installed_entry opts e ps lbs)) = replicate (length ps) a"
    unfolding installed_updated updated_fields[OF assms(1)] using assms(3) by (simp add: list_eq_iff_nth_eq)
  finally show ?thesis using assms(2) by (simp add: list_all_iff)
qed

text \<open>
  C4. A service is handled once. A new service without external address, to be reached at its node
  ports, was added without an error; the address it got is not the unspecified one, the zone has no
  dash in its name and the probe port is a port. Then the status was written between one and five
  times (again only after a conflict), always with the same content \<open>svc'\<close>, and when the service is
  seen again with this status, \<open>addLoadBalancer\<close> returns without an error and without any change of
  the manager: no call goes to an instance, no address is taken, and no status is written.
\<close>

theorem reconcile_idempotent:
  assumes "wf_manager m" and "wraps_errors env" and "family_recognised (e_tk env)" and "CHR ''-'' \<notin> set (cfg_Zone (e_cfg env))"
    and "map_of (lbCache m) (GenKey (sv_Namespace svc) (sv_Name svc)) = None"
    and "getLBIngressSvcPairs (e_cfg env) svc = []" and "annot svc ''loxilb.io/poolSelectSecondary'' = []"
    and "\<not> serviceHasZeroCIDRPool (e_cfg env) svc" and "sv_Ports svc \<noteq> []" and "distinct_ports (sv_Ports svc)"
    and "get_service (e_kube env) (sv_Namespace svc) (sv_Name svc) = Inr svc"
    and "parse_opts env m svc = Ret (Inr opts)" and "\<not> o_needMultusEP opts" "\<not> o_usePodNet opts" "\<not> o_useExternalEndpoint opts"
    and "0 \<le> o_probePort opts" "o_probePort opts < 65536"
    and "addLoadBalancer env svc m = Ret (m1, None)"
    and "map_of (lbCache m1) (GenKey (sv_Namespace svc) (sv_Name svc)) = Some e1" and "plain_addresses e1"
  shows "\<exists>n svc'. n \<in> {1..5} \<and> statusLog m1 = statusLog m @ replicate n svc' \<and> addLoadBalancer env svc' m1 = Ret (m1, None)"
proof -
  let ?key = "GenKey (sv_Namespace svc) (sv_Name svc)"
  note p = parse_opts_pools(1)[OF assms(12,1)] and sec = parse_opts_pools(2)[OF assms(12,1,7)]
  have steady: "steady m m1" by (rule addLoadBalancer_steady[OF assms(18,1)])
  from assms(18,5) show ?thesis
  proof (cases rule: add_new_cases)
    case (2 opts' ips e)
    let ?m = "(set_entry ?key e m)\<lparr>zoneInstSelHint := zoneInstSelHint m + 1\<rparr>"
    have opts': "opts' = opts" using 2(1) assms(12) by simp
    obtain q ip ident ps lbs where m1: "map_of (lbCache m1) = (map_of (lbCache ?m))(?key \<mapsto> installed_entry opts e ps lbs)"
      and ps: "ps = new_pairs env ?m (o_ipPool opts) ip ident (sv_Ports svc)" "list_all2 (\<lambda>p lb. makeLoxiLoadBalancerModel env
        (mk_args opts ((with_opts opts e)\<lparr>ce_SecIPs := o_secIPs opts\<rparr>) ips (getServicePrivateIP (e_cfg env) svc) p) svc
        (K8sSvcPort p) = Inr lb) ps lbs"
      and w: "\<exists>m3. m1 = update_retry env 5 (sv_Namespace svc) (sv_Name svc) ps m3 \<and> statusLog m3 = statusLog ?m"
      by (rule add_new_success[OF assms(2,6) _ _ _ 2(2)[unfolded opts'] refl assms(9,10) 2(4)[unfolded opts']]) (use p sec in simp_all)
    have e1: "e1 = installed_entry opts e ps lbs" using m1 assms(19) by simp
    note fields = new_pairs_fields[OF assms(9), where env = env and m = ?m and p = "o_ipPool opts" and ip = ip and ident = ident, folded ps(1)]
    have ext: "getServiceIngressIPs (e_cfg env) svc = []" "sv_ExternalIPs svc = []" "getServiceLoxiStaticIP svc = []"
      using assms(6,9) by (auto simp: getLBIngressSvcPairs_def getLBServiceExternalIPs_def getServiceExternalIPs_def Let_def split: if_splits)
    have ip: "ParseIP (IP_String ip) \<noteq> []" "\<not> IsUnspecified (ParseIP (IP_String ip))"
      using assms(20) plain_installed[OF list_all2_lengthD[OF ps(2), symmetric] fields(3), of "IP_String ip"] fields(2)
      by (auto simp: e1)
    obtain m3 where m3: "m1 = update_retry env 5 (sv_Namespace svc) (sv_Name svc) ps m3" "statusLog m3 = statusLog m"
      using w by (auto simp: set_entry_def)
    obtain n st where n: "n \<in> {1..5}" "statusLog m1 = statusLog m3 @ replicate n (svc\<lparr>sv_Ingress := st\<rparr>)"
      and st: "getServiceIngressIPs (e_cfg env) (svc\<lparr>sv_Ingress := st\<rparr>) = [IP_String ip]"
        "list_all (checkServiceIngressIPExists (svc\<lparr>sv_Ingress := st\<rparr>)) (genExtIPName env m1 (IP_String ip))"
      by (rule status_written[OF assms(3,4,8) ip ext(1) assms(11) fields(3) _ m3(1)]) (use fields(2) in blast)+
    have "set (getLBServiceExternalIPs (e_cfg env) (svc\<lparr>sv_Ingress := st\<rparr>)) = {IP_String ip}"
      using st(1) ext(2,3) by (simp add: getLBServiceExternalIPs_def getServiceExternalIPs_def getServiceLoxiStaticIP_def)
    then have "settled env opts ips (svc\<lparr>sv_Ingress := st\<rparr>) e1 m1" unfolding e1
      by (rule installed_settled[OF ps(1) assms(9) 2(3) ps(2) assms(13-17) conjunct2[OF sec]]) (use st(2) in simp_all)
    then have "addLoadBalancer env (svc\<lparr>sv_Ingress := st\<rparr>) m1 = Ret (m1, None)"
      by (rule status_seen_again[OF steady assms(1,12) 2(5) 2(6)[unfolded opts'] 2(3) assms(19)])
    then show ?thesis using n m3(2) by auto
  qed (use assms(5,19) in simp)
qed

definition resync_env :: "(string \<times> string) list lb_env" where
  "resync_env = (demo_env accept)\<lparr>e_tk := demo_net_lib\<rparr>"

lemma resync_pre:
  "map_of (lbCache demo_manager) (GenKey (sv_Namespace demo_svc) (sv_Name demo_svc)) = None"
  "getLBIngressSvcPairs (e_cfg resync_env) demo_svc = []" "annot demo_svc ''loxilb.io/poolSelectSecondary'' = []"
  "\<not> serviceHasZeroCIDRPool (e_cfg resync_env) demo_svc"
  by code_simp+

lemma resync_ports: "sv_Ports demo_svc \<noteq> []" "distinct_ports (sv_Ports demo_svc)"
  by (simp_all add: demo_svc_def distinct_ports_def)

lemma resync_env:
  "wraps_errors resync_env" "family_recognised (e_tk resync_env)" "CHR ''-'' \<notin> set (cfg_Zone (e_cfg resync_env))"
  "get_service (e_kube resync_env) (sv_Namespace demo_svc) (sv_Name demo_svc) = Inr demo_svc"
  by (simp_all add: resync_env_def wraps_errors_def demo_env_def demo_net_lib_family demo_cfg_def demo_kube_def)

lemma resync_opts:
  obtains opts where "parse_opts resync_env demo_manager demo_svc = Ret (Inr opts)" "\<not> o_needMultusEP opts" "\<not> o_usePodNet opts"
    "\<not> o_useExternalEndpoint opts" "0 \<le> o_probePort opts" "o_probePort opts < 65536"
proof -
  have "case parse_opts resync_env demo_manager demo_svc of Ret (Inr opts) \<Rightarrow> \<not> o_needMultusEP opts \<and> \<not> o_usePodNet opts \<and>
      \<not> o_useExternalEndpoint opts \<and> 0 \<le> o_probePort opts \<and> o_probePort opts < 65536 | _ \<Rightarrow> False" by code_simp
  then show ?thesis using that by (auto split: go.splits sum.splits)
qed

lemma resync_added:
  obtains m1 e1 where "addLoadBalancer resync_env demo_svc demo_manager = Ret (m1, None)" "length (apiLog m1) = 1"
    "map_of (lbCache m1) (GenKey (sv_Namespace demo_svc) (sv_Name demo_svc)) = Some e1" "plain_addresses e1"
proof -
  have "case addLoadBalancer resync_env demo_svc demo_manager of Ret (m1, None) \<Rightarrow> length (apiLog m1) = 1 \<and>
      (case map_of (lbCache m1) (GenKey (sv_Namespace demo_svc) (sv_Name demo_svc)) of Some e1 \<Rightarrow> plain_addresses e1 | None \<Rightarrow> False)
    | _ \<Rightarrow> False" by code_simp
  then show ?thesis using that by (auto split: go.splits option.splits)
qed

theorem reconcile_idempotent_witness:
  "\<exists>m1 n svc'. addLoadBalancer resync_env demo_svc demo_manager = Ret (m1, None) \<and> length (apiLog m1) = 1 \<and> n \<in> {1..5} \<and>
     statusLog m1 = replicate n svc' \<and> addLoadBalancer resync_env svc' m1 = Ret (m1, None)"
proof -
  obtain m1 e1 where m1: "addLoadBalancer resync_env demo_svc demo_manager = Ret (m1, None)" "length (apiLog m1) = 1"
    "map_of (lbCache m1) (GenKey (sv_Namespace demo_svc) (sv_Name demo_svc)) = Some e1" "plain_addresses e1" by (rule resync_added)
  obtain opts where opts: "parse_opts resync_env demo_manager demo_svc = Ret (Inr opts)" "\<not> o_needMultusEP opts" "\<not> o_usePodNet opts"
    "\<not> o_useExternalEndpoint opts" "0 \<le> o_probePort opts" "o_probePort opts < 65536" by (rule resync_opts)
  have "statusLog demo_manager = []" by (simp add: demo_manager_def)
  with reconcile_idempotent[OF demo_manager_wf resync_env(1-3) resync_pre resync_ports resync_env(4) opts m1(1,3,4)] m1(1,2)
  show ?thesis by auto
qed

subsection \<open>What the instances are told\<close>

text \<open>The rule of a port of a service that has the address \<open>addr\<close> and the endpoints \<open>ips\<close>.\<close>

definition rule_of_port :: "Service \<Rightarrow> string \<Rightarrow> string list \<Rightarrow> ServicePort \<Rightarrow> LoadBalancerModel \<Rightarrow> bool" where
  "rule_of_port svc addr ips port lb \<longleftrightarrow>
     svc_ExternalIP (lb_Service lb) = addr \<and> svc_Port (lb_Service lb) = u16 (sp_Port port) \<and>
     svc_Protocol (lb_Service lb) = to_lower (sp_Protocol port) \<and> svc_Managed (lb_Service lb) \<and>
     lb_SrcIPs lb = filter (\<lambda>c. ParseCIDR c \<noteq> None) (sv_SourceRanges svc) \<and>
     lb_Endpoints lb = map (\<lambda>ip. mk_endpoint ip (sp_NodePort port)) ips"

lemma node_port_rule:
  assumes "makeLoxiLoadBalancerModel env args svc port = Inr lb" and "a_endpointIPs args = ips" and "ips \<noteq> []"
    and "\<not> a_needMultusEP args" "\<not> a_usePodNetwork args" "\<not> a_useExternalEndpoint args"
  shows "rule_of_port svc (a_externalIP args) ips port lb"
proof -
  have "lb_Endpoints lb = map (\<lambda>ip. mk_endpoint ip (sp_NodePort port)) ips"
    using rule_endpoints[OF assms(1)] assms(2-6) by (auto simp: target_ports_def)
  moreover have "svc_ExternalIP (lb_Service lb) = a_externalIP args \<and> svc_Port (lb_Service lb) = u16 (sp_Port port) \<and>
      svc_Protocol (lb_Service lb) = to_lower (sp_Protocol port) \<and> svc_Managed (lb_Service lb) \<and>
      lb_SrcIPs lb = filter (\<lambda>c. ParseCIDR c \<noteq> None) (sv_SourceRanges svc)"
    using assms(1) by (auto simp: makeLoxiLoadBalancerModel_def Let_def split: sum.splits)
  ultimately show ?thesis by (simp add: rule_of_port_def)
qed

lemma new_entry_prefLocal: "new_entry env opts m = Ret e \<Longrightarrow> ce_PrefLocal e = o_prefLocal opts"
  by (auto simp: new_entry_def go_map_eq_Ret)

text \<open>
  C5. What the instances are told about a new service. When a service without external address, to be
  reached at its node ports, was added without an error and is in the cache, its pool had given it an
  address, and to every instance exactly one call was made per port, in the order of the ports: to
  install the rule of this address and port, with its protocol, the admissible source ranges, and one
  endpoint per endpoint address at the node port; with \<open>prefLocalPod\<close> only the instance's own endpoint,
  when it has one. The cache holds these rules.
\<close>

theorem new_service_installed:
  assumes "wf_manager m" and "wraps_errors env"
    and "map_of (lbCache m) (GenKey (sv_Namespace svc) (sv_Name svc)) = None"
    and "getLBIngressSvcPairs (e_cfg env) svc = []" and "annot svc ''loxilb.io/poolSelectSecondary'' = []"
    and "sv_Ports svc \<noteq> []" and "distinct_ports (sv_Ports svc)"
    and "parse_opts env m svc = Ret (Inr opts)" and "\<not> o_needMultusEP opts" "\<not> o_usePodNet opts" "\<not> o_useExternalEndpoint opts"
    and "addLoadBalancer env svc m = Ret (m1, None)"
    and "map_of (lbCache m1) (GenKey (sv_Namespace svc) (sv_Name svc)) = Some e1"
  shows "\<exists>q ip ident ips lbs.
    GetNewIPAddr (e_tk env) (poolStore m ! o_ipPool opts) (GenKey (sv_Namespace svc) (sv_Name svc))
      (u32 (sp_Port (hd (sv_Ports svc)))) (to_lower (sp_Protocol (hd (sv_Ports svc)))) = (q, ip, ident) \<and> ip \<noteq> [] \<and>
    endpoints_of env opts svc = (ips, None) \<and> ips \<noteq> [] \<and>
    list_all2 (rule_of_port svc (IP_String ip) ips) (sv_Ports svc) lbs \<and>
    apiLog m1 = apiLog m @ [(cl_Url c, LbCreate (client_rule c lb (o_prefLocal opts))). lb \<leftarrow> lbs, c \<leftarrow> LoxiClients m] \<and>
    map se_LbModelList (entry_pairs e1) = map (\<lambda>lb. [lb]) lbs"
proof -
  let ?key = "GenKey (sv_Namespace svc) (sv_Name svc)"
  note p = parse_opts_pools(1)[OF assms(8,1)] and sec = parse_opts_pools(2)[OF assms(8,1,5)]
  from assms(12,3) show ?thesis
  proof (cases rule: add_new_cases)
    case (2 opts' ips e)
    let ?m = "(set_entry ?key e m)\<lparr>zoneInstSelHint := zoneInstSelHint m + 1\<rparr>"
    have opts': "opts' = opts" using 2(1) assms(8) by simp
    obtain q ip ident ps lbs where q: "GetNewIPAddr (e_tk env) (poolStore ?m ! o_ipPool opts) ?key (u32 (sp_Port (hd (sv_Ports svc))))
        (to_lower (sp_Protocol (hd (sv_Ports svc)))) = (q, ip, ident)" "ip \<noteq> []"
      and m1: "map_of (lbCache m1) = (map_of (lbCache ?m))(?key \<mapsto> installed_entry opts e ps lbs)"
      and ps: "ps = new_pairs env ?m (o_ipPool opts) ip ident (sv_Ports svc)" "list_all2 (\<lambda>p lb. makeLoxiLoadBalancerModel env
        (mk_args opts ((with_opts opts e)\<lparr>ce_SecIPs := o_secIPs opts\<rparr>) ips (getServicePrivateIP (e_cfg env) svc) p) svc
        (K8sSvcPort p) = Inr lb) ps lbs"
      and log: "apiLog m1 = apiLog ?m @ concat (map (\<lambda>lb. install_calls (LoxiClients ?m) lb (ce_PrefLocal e)) lbs)"
      by (rule add_new_success[OF assms(2,4) _ _ _ 2(2)[unfolded opts'] refl assms(6,7) 2(4)[unfolded opts']]) (use p sec in simp_all)
    note len = list_all2_lengthD[OF ps(2), symmetric]
      and f = new_pairs_fields[OF assms(6), where env = env and m = ?m and p = "o_ipPool opts" and ip = ip and ident = ident, folded ps(1)]
    have "list_all2 (\<lambda>p lb. rule_of_port svc (IP_String ip) ips (K8sSvcPort p) lb) ps lbs"
      using ps(2)
    proof (rule list_all2_mono_in)
      fix p lb assume p: "p \<in> set ps" and lb: "makeLoxiLoadBalancerModel env (mk_args opts ((with_opts opts e)\<lparr>ce_SecIPs := o_secIPs opts\<rparr>)
        ips (getServicePrivateIP (e_cfg env) svc) p) svc (K8sSvcPort p) = Inr lb"
      show "rule_of_port svc (IP_String ip) ips (K8sSvcPort p) lb"
        using node_port_rule[OF lb] 2(3) assms(9-11) f(2)[OF p] by (simp add: mk_args_def)
    qed
    then have rules: "list_all2 (rule_of_port svc (IP_String ip) ips) (sv_Ports svc) lbs"
      unfolding f(1)[symmetric] by (simp add: list_all2_map1)
    have "map se_LbModelList (entry_pairs e1) = map (\<lambda>lb. [lb]) lbs"
      using m1 assms(13) updated_fields(1)[OF len] by (auto simp: installed_updated)
    with rules log q new_entry_prefLocal[OF 2(2)] 2(3,6) show ?thesis
      by (intro exI[of _ q] exI[of _ ip] exI[of _ ident] exI[of _ ips] exI[of _ lbs])
         (simp add: opts' set_entry_def endpoints_of_def install_calls_def[abs_def])
  qed (use assms(3,13) in simp)
qed

theorem new_service_installed_witness:
  "\<exists>m1 ip ips lb b. addLoadBalancer resync_env demo_svc demo_manager = Ret (m1, None) \<and> ips \<noteq> [] \<and>
     rule_of_port demo_svc (IP_String ip) ips demo_port lb \<and> apiLog m1 = [(cl_Url demo_client, LbCreate (client_rule demo_client lb b))]"
proof -
  obtain m1 e1 where m1: "addLoadBalancer resync_env demo_svc demo_manager = Ret (m1, None)" "length (apiLog m1) = 1"
    "map_of (lbCache m1) (GenKey (sv_Namespace demo_svc) (sv_Name demo_svc)) = Some e1" by (rule resync_added)
  obtain opts where opts: "parse_opts resync_env demo_manager demo_svc = Ret (Inr opts)" "\<not> o_needMultusEP opts" "\<not> o_usePodNet opts"
    "\<not> o_useExternalEndpoint opts" by (rule resync_opts)
  have demo: "sv_Ports demo_svc = [demo_port]" "LoxiClients demo_manager = [demo_client]" "apiLog demo_manager = []"
    by (simp_all add: demo_svc_def demo_manager_def)
  from new_service_installed[OF demo_manager_wf resync_env(1) resync_pre(1-3) resync_ports opts m1(1,3)]
  show ?thesis using m1(1) unfolding demo by (fastforce simp: list_all2_Cons1)
qed

end
