(* ===== verification/Lb_Update.thy ===== *)
theory Lb_Update
  imports Lb_Resync
begin

text \<open>
  A service whose endpoints change. Pods and nodes come and go; the service keeps its addresses and
  options, and \<open>addLoadBalancer\<close> finds that its endpoints are not those of the cached rules. The rules
  of all its ports are then made and sent again, and the service is settled.
\<close>

subsection \<open>The pairs of the service\<close>

text \<open>Copying from the cache changes neither the port nor the key of a pair.\<close>

lemma copy_cached_for: "cached_for e p r \<Longrightarrow> cached_for e p (copy_cached sp r)"
  by (auto simp: cached_for_def copy_cached_def pair_key_def)

lemma copies_for: "list_all2 (cached_for e) ps rs \<Longrightarrow> list_all2 (cached_for e) ps (fold (\<lambda>sp. map (copy_cached sp)) sps rs)"
proof (induction sps arbitrary: rs)
  case (Cons sp sps)
  have "list_all2 (cached_for e) ps (map (copy_cached sp) rs)"
    using Cons.prems copy_cached_for by (auto simp: list_all2_conv_all_nth)
  then show ?case using Cons.IH by simp
qed simp

lemma cached_for_keys: "list_all2 (cached_for e) ps rs \<Longrightarrow> map pair_key rs = map pair_key ps \<and> map K8sSvcPort rs = map K8sSvcPort ps"
  by (induction rule: list_all2_induct) (simp_all add: cached_for_def)

lemma service_pairs_one_address:
  assumes "getLBServiceExternalIPs cfg svc = [addr]"
  shows "map K8sSvcPort (getLBIngressSvcPairs cfg svc) = sv_Ports svc"
    "map pair_key (getLBIngressSvcPairs cfg svc) =
       map (\<lambda>q. GenSPKey addr (u16 (sp_Port q)) (to_lower (sp_Protocol q))) (sv_Ports svc)"
  by (simp_all add: getLBIngressSvcPairs_def assms comp_def pair_key_def)

lemma keys_distinct:
  assumes "distinct_ports ports"
  shows "distinct (map (\<lambda>q. GenSPKey addr (u16 (sp_Port q)) (to_lower (sp_Protocol q))) ports)"
proof -
  have "inj_on (\<lambda>(a, b). GenSPKey addr a b) A" for A by (auto simp: inj_on_def GenSPKey_same_address)
  then have "distinct (map ((\<lambda>(a, b). GenSPKey addr a b) \<circ> (\<lambda>q. (u16 (sp_Port q), to_lower (sp_Protocol q)))) ports)"
    using assms by (simp add: distinct_ports_def distinct_map comp_inj_on)
  then show ?thesis by (simp add: comp_def)
qed

subsection \<open>Installing the pairs again\<close>

text \<open>The addition of a cached service from the point where its pairs are known, when it succeeds.\<close>

lemma add_installed_again:
  assumes "wraps_errors env" and "go_bind (add_installed env opts svc ips key True False rs m) (finish env opts key) = Ret (m1, None)"
    and "map_of (lbCache m) key = Some e" and "distinct (map pair_key rs)" and "list_all2 (cached_for e) ps rs"
  obtains qs lbs where "list_all2 (cached_for e) ps qs"
    "list_all2 (\<lambda>p lb. makeLoxiLoadBalancerModel env (mk_args opts e ips (getServicePrivateIP (e_cfg env) svc) p) svc (K8sSvcPort p) = Inr lb) qs lbs"
    "map_of (lbCache m1) = (map_of (lbCache m))(key \<mapsto> updated_entry e qs lbs)" "poolStore m1 = poolStore m"
    "apiLog m1 = apiLog m @ concat (map (\<lambda>lb. install_calls (LoxiClients m) lb (ce_PrefLocal e)) lbs)"
proof -
  let ?e = "e\<lparr>ce_LbServicePairs := []\<rparr>" and ?qs = "fold (\<lambda>sp. map (copy_cached sp)) (map snd (ce_LbServicePairs e)) rs"
  let ?m = "set_entry key ?e m"
  have qs: "list_all2 (cached_for e) ps ?qs" by (rule copies_for[OF assms(5)])
  have keys: "distinct (map fst (ce_LbServicePairs ?e) @ map pair_key ?qs)"
    using assms(4) cached_for_keys[OF qs] cached_for_keys[OF assms(5)] by simp
  have look: "map_of (lbCache ?m) key = Some ?e" by (simp add: set_entry_def update_conv')
  obtain m2 err where i: "install_pairs env opts svc ips key ?qs ?m = Ret (m2, err)"
    using assms(2,3) by (auto simp: add_installed_def Let_def)
  have "err \<noteq> Some None" using install_pairs_error[OF assms(1)] i by blast
  then have err: "err = None" and m1: "m1 = update_retry env 5 (sv_Namespace svc) (sv_Name svc) ?qs m2"
    using i assms(2,3) by (auto simp: add_installed_def finish_def go_map_eq_Ret Let_def split: option.splits)
  have args: "mk_args opts ?e ips pr q = mk_args opts e ips pr q" for pr q by (simp add: mk_args_def)
  obtain lbs where l: "map_of (lbCache m2) = (map_of (lbCache ?m))(key \<mapsto> ?e\<lparr>ce_LbServicePairs :=
      ce_LbServicePairs ?e @ map2 (\<lambda>p lb. (pair_key p, pair_entry p lb)) ?qs lbs\<rparr>)" "poolStore m2 = poolStore ?m"
    "list_all2 (\<lambda>p lb. makeLoxiLoadBalancerModel env (mk_args opts e ips (getServicePrivateIP (e_cfg env) svc) p) svc (K8sSvcPort p) = Inr lb) ?qs lbs"
    "apiLog m2 = apiLog ?m @ concat (map (\<lambda>lb. install_calls (LoxiClients ?m) lb (ce_PrefLocal ?e)) lbs)"
    using install_pairs_entry[OF i[unfolded err] look keys] unfolding args by blast
  have "map_of (lbCache m2) = (map_of (lbCache m))(key \<mapsto> updated_entry e ?qs lbs)"
    using l(1) by (simp add: updated_entry_def set_entry_def update_conv')
  moreover have "poolStore m2 = poolStore m" "apiLog m2 = apiLog m @ concat (map (\<lambda>lb. install_calls (LoxiClients m) lb (ce_PrefLocal e)) lbs)"
    using l(2,4) by (simp_all add: set_entry_def)
  ultimately show ?thesis
    using that[OF qs l(3)] update_retry_fields[of env 5 "sv_Namespace svc" "sv_Name svc" ?qs m2] by (simp add: m1)
qed

subsection \<open>A change of the endpoints is applied\<close>

lemma delete_without_release:
  assumes "map_of (lbCache m) (GenKey ns name) = Some e"
  shows "\<exists>err. deleteLoadBalancer env ns name False m = Ret (m\<lparr>apiLog := apiLog m @ delete_calls env (LoxiClients m) e\<rparr>, err)"
proof -
  obtain m2 rErr where d: "delete_rules env (map snd (ce_LbServicePairs e)) m None = (m2, rErr)"
    by (cases "delete_rules env (map snd (ce_LbServicePairs e)) m None")
  have "m2 = m\<lparr>apiLog := apiLog m @ delete_calls env (LoxiClients m) e\<rparr>"
    using delete_rules_result[OF d] by (simp add: delete_calls_def Let_def)
  then show ?thesis using assms d by (cases rErr) (simp_all add: deleteLoadBalancer_def Let_def)
qed

text \<open>With \<open>needDelete\<close> the old rules are deleted first; what the instances answer to that is not looked at.\<close>

lemma add_installed_delete:
  assumes "map_of (lbCache m) (GenKey (sv_Namespace svc) (sv_Name svc)) = Some e"
  shows "add_installed env opts svc ips (GenKey (sv_Namespace svc) (sv_Name svc)) added d rs m =
    add_installed env opts svc ips (GenKey (sv_Namespace svc) (sv_Name svc)) added False rs
      (m\<lparr>apiLog := apiLog m @ (if d then delete_calls env (LoxiClients m) e else [])\<rparr>)"
proof (cases d)
  case True
  then show ?thesis using delete_without_release[OF assms, of env] by (auto simp: add_installed_def go_map_def)
next
  case False
  then have "m\<lparr>apiLog := apiLog m @ (if d then delete_calls env (LoxiClients m) e else [])\<rparr> = m" by simp
  then show ?thesis using False by simp
qed

lemma service_update:
  assumes "wraps_errors env" and "admit env m svc = Admit" and "parse_opts env m svc = Ret (Inr opts)"
    and "endpoints_of env opts svc = (ips, eerr)" and "ips \<noteq> []"
    and "map_of (lbCache m) (GenKey (sv_Namespace svc) (sv_Name svc)) = Some e" and "same_service env opts svc e m"
    and "no_rules e \<or> opts_differ opts e \<or> checkUpdateEndpoints env svc e ips (o_useExternalEndpoint opts)"
    and "getLBServiceExternalIPs (e_cfg env) svc = [addr]" and "distinct_ports (sv_Ports svc)" and "addLoadBalancer env svc m = Ret (m1, None)"
  obtains qs lbs where "list_all2 (cached_for e) (getLBIngressSvcPairs (e_cfg env) svc) qs"
    "list_all2 (\<lambda>p lb. makeLoxiLoadBalancerModel env (mk_args opts (with_opts opts e) ips (getServicePrivateIP (e_cfg env) svc) p) svc (K8sSvcPort p) = Inr lb) qs lbs"
    "map_of (lbCache m1) = (map_of (lbCache m))(GenKey (sv_Namespace svc) (sv_Name svc) \<mapsto> updated_entry (with_opts opts e) qs lbs)"
    "poolStore m1 = poolStore m"
    "apiLog m1 = apiLog m @ (if opts_differ opts e then delete_calls env (LoxiClients m) e else []) @
       concat (map (\<lambda>lb. install_calls (LoxiClients m) lb (ce_PrefLocal e)) lbs)"
proof -
  let ?key = "GenKey (sv_Namespace svc) (sv_Name svc)" and ?ps = "getLBIngressSvcPairs (e_cfg env) svc" and ?e = "with_opts opts e"
  let ?m = "set_entry ?key ?e m"
  let ?m' = "?m\<lparr>apiLog := apiLog ?m @ (if opts_differ opts e then delete_calls env (LoxiClients ?m) ?e else [])\<rparr>"
  obtain rs where rs: "list_all2 (cached_for e) ?ps rs"
    "add_entry env opts svc ips ?key True e m = add_installed env opts svc ips ?key True (opts_differ opts e) rs ?m"
    by (rule seen_add_entry[OF assms(7,6), where ips = ips]) (use assms(8) in simp)
  have look: "map_of (lbCache ?m) ?key = Some ?e" by (simp add: set_entry_def update_conv')
  have add: "go_bind (add_installed env opts svc ips ?key True False rs ?m') (finish env opts ?key) = Ret (m1, None)"
    using assms(2-6,11) rs(2) unfolding add_installed_delete[OF look] by (simp add: addLoadBalancer_def endpoints_of_def Let_def)
  have "distinct (map pair_key rs)"
    using cached_for_keys[OF rs(1)] keys_distinct[OF assms(10), of addr] by (simp add: service_pairs_one_address[OF assms(9)])
  then obtain qs lbs where "list_all2 (cached_for ?e) ?ps qs" "list_all2 (\<lambda>p lb. makeLoxiLoadBalancerModel env
      (mk_args opts ?e ips (getServicePrivateIP (e_cfg env) svc) p) svc (K8sSvcPort p) = Inr lb) qs lbs"
    "map_of (lbCache m1) = (map_of (lbCache ?m'))(?key \<mapsto> updated_entry ?e qs lbs)" "poolStore m1 = poolStore ?m'"
    "apiLog m1 = apiLog ?m' @ concat (map (\<lambda>lb. install_calls (LoxiClients ?m') lb (ce_PrefLocal ?e)) lbs)"
    using add_installed_again[OF assms(1) add _ _ rs(1)[folded with_opts_pairs(6)[of opts e]]] look by auto
  then show ?thesis using that by (simp add: set_entry_def update_conv')
qed

lemma in_step_update:
  assumes "wraps_errors env" and "admit env m svc = Admit" and "parse_opts env m svc = Ret (Inr opts)"
    and "endpoints_of env opts svc = (ips, eerr)" and "ips \<noteq> []"
    and "map_of (lbCache m) (GenKey (sv_Namespace svc) (sv_Name svc)) = Some e" and "in_step env opts svc e m"
    and "checkUpdateEndpoints env svc e ips (o_useExternalEndpoint opts)"
    and "getLBServiceExternalIPs (e_cfg env) svc = [addr]" and "distinct_ports (sv_Ports svc)" and "addLoadBalancer env svc m = Ret (m1, None)"
  obtains qs lbs where "list_all2 (cached_for e) (getLBIngressSvcPairs (e_cfg env) svc) qs"
    "list_all2 (\<lambda>p lb. makeLoxiLoadBalancerModel env (mk_args opts e ips (getServicePrivateIP (e_cfg env) svc) p) svc (K8sSvcPort p) = Inr lb) qs lbs"
    "map_of (lbCache m1) = (map_of (lbCache m))(GenKey (sv_Namespace svc) (sv_Name svc) \<mapsto> updated_entry e qs lbs)" "poolStore m1 = poolStore m"
    "apiLog m1 = apiLog m @ concat (map (\<lambda>lb. install_calls (LoxiClients m) lb (ce_PrefLocal e)) lbs)"
proof -
  show ?thesis
    by (rule service_update[OF assms(1-6) in_step_same(1)[OF assms(7)] _ assms(9-11)]) (use assms(8) in_step_same[OF assms(7)] that in simp_all)
qed

text \<open>
  C6. A change of the endpoints reaches every instance and is applied once. A service with one external
  address, to be reached at its node ports, is in step with its cache entry except that its endpoints
  have changed. When its event is handled without an error, the pools are as before, and to every
  instance exactly one call was made per port, in the order of the ports, to install the rule of the
  service's address and this port with the new endpoints. After that the service is settled: when it
  is seen again, nothing happens.
\<close>

theorem endpoint_change_applied:
  assumes "wf_manager m" and "wraps_errors env" and "admit env m svc = Admit" and "parse_opts env m svc = Ret (Inr opts)"
    and "\<not> o_needMultusEP opts" "\<not> o_usePodNet opts" "\<not> o_useExternalEndpoint opts"
    and "endpoints_of env opts svc = (ips, eerr)" and "ips \<noteq> []"
    and "map_of (lbCache m) (GenKey (sv_Namespace svc) (sv_Name svc)) = Some e" and "in_step env opts svc e m"
    and "checkUpdateEndpoints env svc e ips (o_useExternalEndpoint opts)"
    and "getLBServiceExternalIPs (e_cfg env) svc = [addr]" and "\<forall>sp\<in>set (entry_pairs e). se_ExternalIP sp = addr"
    and "distinct_ports (sv_Ports svc)" and "addLoadBalancer env svc m = Ret (m1, None)"
  shows "poolStore m1 = poolStore m \<and>
    (\<exists>lbs. list_all2 (rule_of_port svc addr ips) (sv_Ports svc) lbs \<and>
       apiLog m1 = apiLog m @ [(cl_Url c, LbCreate (client_rule c lb (ce_PrefLocal e))). lb \<leftarrow> lbs, c \<leftarrow> LoxiClients m]) \<and>
    addLoadBalancer env svc m1 = Ret (m1, None)"
proof -
  let ?key = "GenKey (sv_Namespace svc) (sv_Name svc)" and ?ps = "getLBIngressSvcPairs (e_cfg env) svc"
  note s = assms(11)[unfolded in_step_def] and ports = service_pairs_one_address[OF assms(13)]
  have steady: "steady m m1" by (rule addLoadBalancer_steady[OF assms(16,1)])
  obtain qs lbs where qs: "list_all2 (cached_for e) ?ps qs" and lbs: "list_all2 (\<lambda>p lb. makeLoxiLoadBalancerModel env
      (mk_args opts e ips (getServicePrivateIP (e_cfg env) svc) p) svc (K8sSvcPort p) = Inr lb) qs lbs"
    and m1: "map_of (lbCache m1) ?key = Some (updated_entry e qs lbs)" "poolStore m1 = poolStore m"
      "apiLog m1 = apiLog m @ concat (map (\<lambda>lb. install_calls (LoxiClients m) lb (ce_PrefLocal e)) lbs)"
    by (rule in_step_update[OF assms(2-4,8-13,15,16)]) simp
  have addr: "IPString q = addr" if "q \<in> set qs" for q
    using cached_for_address[OF qs that] assms(14) by metis
  have "list_all2 (\<lambda>p lb. rule_of_port svc addr ips (K8sSvcPort p) lb) qs lbs"
    using lbs
  proof (rule list_all2_mono_in)
    fix p lb assume p: "p \<in> set qs" and lb: "makeLoxiLoadBalancerModel env (mk_args opts e ips
      (getServicePrivateIP (e_cfg env) svc) p) svc (K8sSvcPort p) = Inr lb"
    show "rule_of_port svc addr ips (K8sSvcPort p) lb"
      using node_port_rule[OF lb] assms(5-7,9) addr[OF p] by (simp add: mk_args_def)
  qed
  then have rules: "list_all2 (rule_of_port svc addr ips) (sv_Ports svc) lbs"
    using cached_for_keys[OF qs] ports(1) by (simp add: list_all2_map1[symmetric])
  have names: "genExtIPName env m1 = genExtIPName env m" using steady by (simp add: steady_def genExtIPName_def fun_eq_iff)
  have "entry_pairs e \<noteq> []" using s by (simp add: no_rules_def entry_pairs_def)
  then have shown: "list_all (checkServiceIngressIPExists svc) (genExtIPName env m addr)"
    using s assms(14) by (cases "entry_pairs e") (simp_all add: status_shows_def)
  have "settled env opts ips svc (updated_entry e qs lbs) m1"
  proof (rule updated_settled[OF _ assms(9) lbs assms(5-7)])
    show "qs \<noteq> []" using qs s by auto
    have "set (map pair_key ?ps) = set (map pair_key qs)" using cached_for_keys[OF qs] by simp
    then show "pair_key ` set ?ps \<subseteq> pair_key ` set qs" by simp
  qed (use s shown addr names in simp_all)
  moreover have "LoxiClients m1 = LoxiClients m" using steady by (simp add: steady_def)
  then have "admit env m1 svc = Admit" using assms(3) admit_clients by metis
  ultimately have "addLoadBalancer env svc m1 = Ret (m1, None)"
    using settled_quiet[OF _ parse_opts_steady[OF steady assms(1,4)] assms(8,9) m1(1)] by blast
  then show ?thesis using m1(2,3) rules by (auto simp: install_calls_def[abs_def])
qed

text \<open>The demonstration service after it was installed, when a second node has become ready.\<close>

definition scaled_env :: "(string \<times> string) list lb_env" where
  "scaled_env = resync_env\<lparr>e_kube := demo_kube\<lparr>list_nodes :=
     (\<lambda>req. Inr [demo_node ''192.168.0.11'' ''True'', demo_node ''192.168.0.12'' ''True''])\<rparr>\<rparr>"

definition scaled_nodes :: "string list" where
  "scaled_nodes = [''192.168.0.11'', ''192.168.0.12'']"

definition scaled_ok :: "(string \<times> string) list Manager \<Rightarrow> Service \<Rightarrow> LbCacheEntry \<Rightarrow> string \<Rightarrow> LbOpts \<Rightarrow> bool" where
  "scaled_ok m svc e addr opts \<longleftrightarrow>
     admit scaled_env m svc = Admit \<and> GenKey (sv_Namespace svc) (sv_Name svc) = GenKey (sv_Namespace demo_svc) (sv_Name demo_svc) \<and>
     sv_Ports svc = [demo_port] \<and> LoxiClients m = [demo_client] \<and> getLBServiceExternalIPs (e_cfg scaled_env) svc = [addr] \<and>
     \<not> o_needMultusEP opts \<and> \<not> o_usePodNet opts \<and> \<not> o_useExternalEndpoint opts \<and>
     endpoints_of scaled_env opts svc = (scaled_nodes, None) \<and> in_step scaled_env opts svc e m \<and>
     checkUpdateEndpoints scaled_env svc e scaled_nodes (o_useExternalEndpoint opts) \<and>
     list_all (\<lambda>sp. se_ExternalIP sp = addr) (entry_pairs e)"

definition scaled_check :: "(string \<times> string) list Manager \<Rightarrow> Service \<Rightarrow> LbCacheEntry \<Rightarrow> bool" where
  "scaled_check m svc e \<longleftrightarrow>
     (case parse_opts scaled_env m svc of
        Ret (Inr opts) \<Rightarrow> scaled_ok m svc e (hd (getLBServiceExternalIPs (e_cfg scaled_env) svc)) opts | _ \<Rightarrow> False) \<and>
     (case addLoadBalancer scaled_env svc m of Ret (m2, None) \<Rightarrow> True | _ \<Rightarrow> False)"

lemma scaled_ready:
  obtains m1 svc' e addr opts m2 where "addLoadBalancer resync_env demo_svc demo_manager = Ret (m1, None)" "statusLog m1 = [svc']"
    "map_of (lbCache m1) (GenKey (sv_Namespace demo_svc) (sv_Name demo_svc)) = Some e"
    "parse_opts scaled_env m1 svc' = Ret (Inr opts)" "addLoadBalancer scaled_env svc' m1 = Ret (m2, None)" "scaled_ok m1 svc' e addr opts"
proof -
  have "case addLoadBalancer resync_env demo_svc demo_manager of Ret (m1, None) \<Rightarrow> length (statusLog m1) = 1 \<and>
      (case map_of (lbCache m1) (GenKey (sv_Namespace demo_svc) (sv_Name demo_svc)) of
         Some e \<Rightarrow> scaled_check m1 (hd (statusLog m1)) e | None \<Rightarrow> False)
    | _ \<Rightarrow> False" by code_simp
  then obtain m1 svc' e where m1: "addLoadBalancer resync_env demo_svc demo_manager = Ret (m1, None)" "statusLog m1 = [svc']"
    "map_of (lbCache m1) (GenKey (sv_Namespace demo_svc) (sv_Name demo_svc)) = Some e" and c: "scaled_check m1 svc' e"
    by (auto simp: length_Suc_conv split: go.splits option.splits)
  have "\<exists>opts. parse_opts scaled_env m1 svc' = Ret (Inr opts) \<and> scaled_ok m1 svc' e (hd (getLBServiceExternalIPs (e_cfg scaled_env) svc')) opts"
    using c by (auto simp: scaled_check_def split: go.splits sum.splits)
  moreover have "\<exists>m2. addLoadBalancer scaled_env svc' m1 = Ret (m2, None)"
    using c by (auto simp: scaled_check_def split: go.splits option.splits)
  ultimately show ?thesis using that m1 by blast
qed

theorem endpoint_change_applied_witness:
  "\<exists>m1 svc' m2 lb b addr. addLoadBalancer resync_env demo_svc demo_manager = Ret (m1, None) \<and> statusLog m1 = [svc'] \<and>
     addLoadBalancer scaled_env svc' m1 = Ret (m2, None) \<and> poolStore m2 = poolStore m1 \<and>
     rule_of_port svc' addr scaled_nodes demo_port lb \<and>
     apiLog m2 = apiLog m1 @ [(cl_Url demo_client, LbCreate (client_rule demo_client lb b))] \<and>
     addLoadBalancer scaled_env svc' m2 = Ret (m2, None)"
proof -
  obtain m1 svc' e addr opts m2 where r: "addLoadBalancer resync_env demo_svc demo_manager = Ret (m1, None)" "statusLog m1 = [svc']"
    "map_of (lbCache m1) (GenKey (sv_Namespace demo_svc) (sv_Name demo_svc)) = Some e"
    "parse_opts scaled_env m1 svc' = Ret (Inr opts)" "addLoadBalancer scaled_env svc' m1 = Ret (m2, None)" "scaled_ok m1 svc' e addr opts"
    by (rule scaled_ready)
  note ok = r(6)[unfolded scaled_ok_def list_all_iff]
  have wf: "wf_manager m1" by (rule steady_wf[OF addLoadBalancer_steady[OF r(1) demo_manager_wf] demo_manager_wf])
  have env: "wraps_errors scaled_env" "distinct_ports (sv_Ports svc')" "scaled_nodes \<noteq> []"
    using ok by (simp_all add: scaled_env_def resync_env_def demo_env_def wraps_errors_def distinct_ports_def scaled_nodes_def)
  have "poolStore m2 = poolStore m1 \<and> (\<exists>lbs. list_all2 (rule_of_port svc' addr scaled_nodes) (sv_Ports svc') lbs \<and>
      apiLog m2 = apiLog m1 @ [(cl_Url c, LbCreate (client_rule c lb (ce_PrefLocal e))). lb \<leftarrow> lbs, c \<leftarrow> LoxiClients m1]) \<and>
      addLoadBalancer scaled_env svc' m2 = Ret (m2, None)"
    by (rule endpoint_change_applied[OF wf env(1) _ r(4) _ _ _ _ env(3) _ _ _ _ _ env(2) r(5), where e = e and eerr = None]) (use ok r(3) in auto)
  then obtain lb where "poolStore m2 = poolStore m1" "rule_of_port svc' addr scaled_nodes demo_port lb"
    "apiLog m2 = apiLog m1 @ [(cl_Url demo_client, LbCreate (client_rule demo_client lb (ce_PrefLocal e)))]"
    "addLoadBalancer scaled_env svc' m2 = Ret (m2, None)" using ok by (auto simp: list_all2_Cons1)
  with r(1,2,5) show ?thesis by blast
qed

end
