(* ===== verification/Lb_Tables.thy ===== *)
theory Lb_Tables
  imports Lb_Update
begin

text \<open>
  The rules on the instances. The abstract view of a load balancer is a table per instance: for an
  external address, port and protocol the rule that is installed. The calls the manager has made, and the answers they got,
  determine these tables (\<open>table\<close>). The cache of the manager refines them: as long as services come, go, are
  seen again and change their endpoints, and the instances take what they are told, every instance
  has exactly the rules of the cached services. A service that loses a port is outside of this, and the
  last section shows what happens to it.
\<close>

subsection \<open>Tables of rules\<close>

type_synonym rule_key = "string \<times> 16 word \<times> string"
type_synonym rule_table = "rule_key \<Rightarrow> LoadBalancerModel option"

definition rule_key :: "LoadBalancerModel \<Rightarrow> rule_key" where
  "rule_key lb = (svc_ExternalIP (lb_Service lb), svc_Port (lb_Service lb), svc_Protocol (lb_Service lb))"

text \<open>
  What a call that was taken means for the table: the creation of a rule, in the mode in which it replaces the rule of
  its key, and the deletion. No other call of the handlers concerns rules.
\<close>

definition table_step :: "api_call \<Rightarrow> rule_table \<Rightarrow> rule_table" where
  "table_step call t =
     (case call of
        LbCreate lb \<Rightarrow> if svc_Oper (lb_Service lb) = 0 then t(rule_key lb \<mapsto> lb) else t
      | LbDelete lb \<Rightarrow> t(rule_key lb := None)
      | _ \<Rightarrow> t)"

text \<open>The calls \<open>pre\<close> were made before; the answer to a call may depend on them.\<close>

fun replay ::
  "'a lb_env \<Rightarrow> string \<Rightarrow> (string \<times> api_call) list \<Rightarrow> (string \<times> api_call) list \<Rightarrow> rule_table \<Rightarrow> rule_table" where
  "replay env u pre [] t = t"
| "replay env u pre ((v, call) # calls) t =
     replay env u (pre @ [(v, call)]) calls
       (if v = u \<and> e_answer env pre v call = None then table_step call t else t)"

definition table :: "'a lb_env \<Rightarrow> 'a Manager \<Rightarrow> string \<Rightarrow> rule_table" where
  "table env m u = replay env u [] (apiLog m) Map.empty"

definition accepts :: "'a lb_env \<Rightarrow> bool" where
  "accepts env \<longleftrightarrow> (\<forall>log u call. e_answer env log u call = None)"

lemma replay_append: "replay env u pre (xs @ ys) t = replay env u (pre @ xs) ys (replay env u pre xs t)"
  by (induction env u pre xs t rule: replay.induct) simp_all

lemma table_extend: "apiLog m1 = apiLog m @ calls \<Longrightarrow> table env m1 u = replay env u (apiLog m) calls (table env m u)"
  by (simp add: table_def replay_append)

definition touches :: "api_call \<Rightarrow> rule_key \<Rightarrow> bool" where
  "touches call k \<longleftrightarrow> (\<exists>lb. (call = LbCreate lb \<or> call = LbDelete lb) \<and> rule_key lb = k)"

lemma table_step_untouched: "\<not> touches call k \<Longrightarrow> table_step call t k = t k"
  by (cases call) (auto simp: table_step_def touches_def)

lemma replay_untouched: "\<forall>(v, call)\<in>set calls. \<not> touches call k \<Longrightarrow> replay env u pre calls t k = t k"
  by (induction env u pre calls t rule: replay.induct) (auto simp: table_step_untouched)

lemma replay_accepts:
  "accepts env \<Longrightarrow> replay env u pre calls t = fold (\<lambda>(v, call). if v = u then table_step call else id) calls t"
  by (induction env u pre calls t rule: replay.induct) (simp_all add: accepts_def)

text \<open>A call that goes to every client reaches the instance of a client once.\<close>

lemma fold_one_client:
  assumes "distinct (map cl_Url cs)" and "c \<in> set cs"
  shows "fold (\<lambda>(v, call). if v = cl_Url c then table_step call else id) (map (\<lambda>d. (cl_Url d, f d)) cs) t = table_step (f c) t"
proof -
  have none: "fold (\<lambda>(v, call). if v = cl_Url c then table_step call else id) (map (\<lambda>d. (cl_Url d, f d)) ds) t = t"
    if d: "cl_Url c \<notin> cl_Url ` set ds" for ds t using d by (induction ds) auto
  show ?thesis using assms
  proof (induction cs arbitrary: t)
    case (Cons d ds)
    show ?case
    proof (cases "d = c")
      case True
      then show ?thesis using Cons.prems none[of ds] by simp
    next
      case False
      then have "cl_Url d \<noteq> cl_Url c" "c \<in> set ds" using Cons.prems by auto
      then show ?thesis using Cons by simp
    qed
  qed simp
qed

lemma fold_all_clients:
  assumes "distinct (map cl_Url cs)" and "c \<in> set cs"
  shows "fold (\<lambda>(v, call). if v = cl_Url c then table_step call else id) (concat (map (\<lambda>x. map (\<lambda>d. (cl_Url d, f x d)) cs) xs)) t =
    fold (\<lambda>x. table_step (f x c)) xs t"
  by (induction xs arbitrary: t) (simp_all add: fold_one_client[OF assms])

lemma fold_updates:
  "distinct (map key xs) \<Longrightarrow> fold (\<lambda>x t. t(key x \<mapsto> val x)) xs t = t ++ map_of (map (\<lambda>x. (key x, val x)) xs)"
proof (induction xs arbitrary: t)
  case (Cons x xs)
  have "map_of (map (\<lambda>x. (key x, val x)) xs) (key x) = None" using Cons.prems by (simp add: map_of_eq_None_iff image_image)
  then have cons: "t(key x \<mapsto> val x) ++ map_of (map (\<lambda>x. (key x, val x)) xs) = t ++ map_of (map (\<lambda>x. (key x, val x)) (x # xs))"
    by (auto simp: map_add_def fun_eq_iff split: option.split)
  have "fold (\<lambda>x t. t(key x \<mapsto> val x)) xs (t(key x \<mapsto> val x)) = t(key x \<mapsto> val x) ++ map_of (map (\<lambda>x. (key x, val x)) xs)"
    using Cons.prems by (intro Cons.IH) simp
  from this cons show ?case unfolding fold_simps(2) by (rule trans)
qed simp

lemma fold_removals: "fold (\<lambda>x t. t(key x := None)) xs t = t |` (- (key ` set xs))"
  by (induction xs arbitrary: t) (auto simp: restrict_map_def fun_eq_iff)

subsection \<open>Installing and deleting\<close>

lemma rule_key_client [simp]: "rule_key (client_rule c lb b) = rule_key lb" "lb_Service (client_rule c lb b) = lb_Service lb"
  by (simp_all add: client_rule_def rule_key_def)

lemma table_install:
  assumes "accepts env" and "distinct (map cl_Url cs)" and "c \<in> set cs"
    and "apiLog m1 = apiLog m @ concat (map (\<lambda>lb. install_calls cs lb b) lbs)"
    and "\<forall>lb\<in>set lbs. svc_Oper (lb_Service lb) = 0" and "distinct (map rule_key lbs)"
  shows "table env m1 (cl_Url c) = table env m (cl_Url c) ++ map_of (map (\<lambda>lb. (rule_key lb, client_rule c lb b)) lbs)"
proof -
  have "table env m1 (cl_Url c) = fold (\<lambda>lb. table_step (LbCreate (client_rule c lb b))) lbs (table env m (cl_Url c))"
    using table_extend[OF assms(4)] replay_accepts[OF assms(1)] fold_all_clients[OF assms(2,3)]
    by (simp add: install_calls_def[abs_def])
  also have "\<dots> = fold (\<lambda>lb t. t(rule_key lb \<mapsto> client_rule c lb b)) lbs (table env m (cl_Url c))"
    using assms(5) by (intro fold_cong) (simp_all add: table_step_def fun_eq_iff)
  finally show ?thesis by (simp only: fold_updates[OF assms(6)])
qed

lemma delete_calls_models:
  "delete_calls env cs e = concat (map (\<lambda>lb. map (\<lambda>d. (cl_Url d, delete_call env lb)) cs) (entry_models e))"
proof -
  have "concat (map (\<lambda>sp. concat (map f (se_LbModelList sp))) (map snd ps)) = concat (map f (concat (map (\<lambda>(_, sp). se_LbModelList sp) ps)))"
    for f and ps :: "(string \<times> LbServicePairEntry) list"
    by (induction ps) auto
  then show ?thesis by (simp add: delete_calls_def entry_models_def)
qed

lemma table_delete:
  assumes "accepts env" and "distinct (map cl_Url cs)" and "c \<in> set cs" and "\<not> cfg_AppendEPs (e_cfg env)"
    and "apiLog m1 = apiLog m @ delete_calls env cs e"
  shows "table env m1 (cl_Url c) = table env m (cl_Url c) |` (- (rule_key ` set (entry_models e)))"
proof -
  have "delete_calls env cs e = concat (map (\<lambda>lb. map (\<lambda>d. (cl_Url d, LbDelete lb)) cs) (entry_models e))"
    using delete_calls_models[of env cs e] assms(4) by (simp add: delete_call_def)
  then have "table env m1 (cl_Url c) = fold (\<lambda>lb. table_step (LbDelete lb)) (entry_models e) (table env m (cl_Url c))"
    using table_extend[OF assms(5)] replay_accepts[OF assms(1)] fold_all_clients[OF assms(2,3)] by simp
  also have "\<dots> = fold (\<lambda>lb t. t(rule_key lb := None)) (entry_models e) (table env m (cl_Url c))"
    by (intro fold_cong) (simp_all add: table_step_def fun_eq_iff)
  finally show ?thesis by (simp only: fold_removals)
qed

subsection \<open>The cache and the tables\<close>

text \<open>The rules an entry has on the instance of a client: those with an endpoint.\<close>

definition entry_held :: "LoxiClient \<Rightarrow> LbCacheEntry option \<Rightarrow> (rule_key \<times> LoadBalancerModel) set" where
  "entry_held c x = (case x of None \<Rightarrow> {} | Some e \<Rightarrow>
     {(rule_key lb, client_rule c lb (ce_PrefLocal e)) | lb. lb \<in> set (entry_models e) \<and> lb_Endpoints lb \<noteq> []})"

definition held_rules :: "'a Manager \<Rightarrow> LoxiClient \<Rightarrow> (rule_key \<times> LoadBalancerModel) set" where
  "held_rules m c = (\<Union>key. entry_held c (map_of (lbCache m) key))"

definition in_agreement :: "'a lb_env \<Rightarrow> 'a Manager \<Rightarrow> bool" where
  "in_agreement env m \<longleftrightarrow> (\<forall>c\<in>set (LoxiClients m). Map.graph (table env m (cl_Url c)) = held_rules m c)"

definition entry_keys :: "LbCacheEntry \<Rightarrow> rule_key set" where
  "entry_keys e = rule_key ` set (entry_models e)"

text \<open>The keys that the services other than \<open>key\<close> have in the cache.\<close>

definition keys_of_others :: "'a Manager \<Rightarrow> string \<Rightarrow> rule_key set" where
  "keys_of_others m key = \<Union> {entry_keys e | key' e. key' \<noteq> key \<and> map_of (lbCache m) key' = Some e}"

definition rules_apart :: "'a Manager \<Rightarrow> bool" where
  "rules_apart m \<longleftrightarrow>
     (\<forall>key e. map_of (lbCache m) key = Some e \<longrightarrow> entry_keys e \<inter> keys_of_others m key = {})"

lemma entry_held_keys: "(k, r) \<in> entry_held c (Some e) \<Longrightarrow> k \<in> entry_keys e"
  by (auto simp: entry_held_def entry_keys_def)

lemma in_graph_iff: "(k, r) \<in> Map.graph t \<longleftrightarrow> t k = Some r"
  by (auto simp: Map.graph_def)

lemma set_of_pairs_eq: "(\<And>k r. (k, r) \<in> A \<longleftrightarrow> (k, r) \<in> B) \<Longrightarrow> A = B"
  by auto

lemma held_others:
  assumes "K \<inter> keys_of_others m key = {}" and "key' \<noteq> key" and "(k, r) \<in> entry_held c (map_of (lbCache m) key')"
  shows "k \<notin> K"
proof (cases "map_of (lbCache m) key'")
  case (Some e)
  then have "k \<in> entry_keys e" using assms(3) entry_held_keys by metis
  then have "k \<in> keys_of_others m key" using Some assms(2) by (auto simp: keys_of_others_def)
  then show ?thesis using assms(1) by blast
qed (use assms(3) in \<open>simp add: entry_held_def\<close>)

lemma held_own:
  assumes "\<forall>e. x = Some e \<longrightarrow> entry_keys e \<subseteq> K" and "(k, r) \<in> entry_held c x"
  shows "k \<in> K"
  using assms by (cases x) (auto simp: entry_held_def entry_keys_def)

text \<open>
  One service changes: its entry becomes \<open>x\<close>, and in the tables the rules with keys of \<open>K\<close>, which no other
  service uses, are replaced by those of \<open>x\<close>.
\<close>

lemma held_step:
  assumes "map_of (lbCache m1) = (map_of (lbCache m))(key := x)" and "K \<inter> keys_of_others m key = {}"
    and "\<forall>e. map_of (lbCache m) key = Some e \<longrightarrow> entry_keys e \<subseteq> K"
  shows "held_rules m1 c = {(k, r) \<in> held_rules m c. k \<notin> K} \<union> entry_held c x"
proof (intro equalityI subrelI)
  fix k r assume "(k, r) \<in> held_rules m1 c"
  then obtain key' where p: "(k, r) \<in> entry_held c (((map_of (lbCache m))(key := x)) key')"
    by (auto simp: held_rules_def assms(1))
  show "(k, r) \<in> {(k, r) \<in> held_rules m c. k \<notin> K} \<union> entry_held c x"
  proof (cases "key' = key")
    case False
    then have "(k, r) \<in> entry_held c (map_of (lbCache m) key')" using p by simp
    then show ?thesis using held_others[OF assms(2) False] by (auto simp: held_rules_def)
  qed (use p in simp)
next
  fix k r assume "(k, r) \<in> {(k, r) \<in> held_rules m c. k \<notin> K} \<union> entry_held c x"
  then consider key' where "(k, r) \<in> entry_held c (map_of (lbCache m) key')" "k \<notin> K" | "(k, r) \<in> entry_held c x"
    unfolding held_rules_def by blast
  then show "(k, r) \<in> held_rules m1 c"
  proof cases
    case (1 key')
    then have "key' \<noteq> key" using held_own[OF assms(3)] by blast
    then have "(k, r) \<in> entry_held c (((map_of (lbCache m))(key := x)) key')" using 1(1) by simp
    then show ?thesis unfolding held_rules_def assms(1) by blast
  next
    case 2
    then have "(k, r) \<in> entry_held c (((map_of (lbCache m))(key := x)) key)" by simp
    then show ?thesis unfolding held_rules_def assms(1) by blast
  qed
qed

lemma apart_step:
  assumes "rules_apart m" and "map_of (lbCache m1) = (map_of (lbCache m))(key := x)" and "K \<inter> keys_of_others m key = {}"
    and "\<forall>e. x = Some e \<longrightarrow> entry_keys e \<subseteq> K"
  shows "rules_apart m1"
  unfolding rules_apart_def
proof (intro allI impI)
  fix key' e assume e: "map_of (lbCache m1) key' = Some e"
  have sub: "keys_of_others m1 key' \<subseteq> (if key' = key then keys_of_others m key else keys_of_others m key' \<union> K)"
    using assms(2,4) by (auto simp: keys_of_others_def split: if_splits)
  show "entry_keys e \<inter> keys_of_others m1 key' = {}"
  proof (cases "key' = key")
    case True
    then show ?thesis using sub e assms(2-4) by auto
  next
    case False
    then have "map_of (lbCache m) key' = Some e" using e assms(2) by simp
    then have "entry_keys e \<inter> keys_of_others m key' = {}" "entry_keys e \<subseteq> keys_of_others m key"
      using assms(1) False by (auto simp: rules_apart_def keys_of_others_def)
    then show ?thesis using sub False assms(3) by auto
  qed
qed

lemma agreement_step:
  assumes "in_agreement env m" and "rules_apart m" and "LoxiClients m1 = LoxiClients m"
    and "map_of (lbCache m1) = (map_of (lbCache m))(key := x)" and "K \<inter> keys_of_others m key = {}"
    and "\<forall>e. map_of (lbCache m) key = Some e \<longrightarrow> entry_keys e \<subseteq> K" and "\<forall>e. x = Some e \<longrightarrow> entry_keys e \<subseteq> K"
    and "\<And>c. c \<in> set (LoxiClients m) \<Longrightarrow> Map.graph (table env m1 (cl_Url c)) =
      {(k, r) \<in> Map.graph (table env m (cl_Url c)). k \<notin> K} \<union> entry_held c x"
  shows "in_agreement env m1 \<and> rules_apart m1"
  using assms(1,3,8) held_step[OF assms(4-6)] apart_step[OF assms(2,4,5,7)] by (simp add: in_agreement_def)

text \<open>
  The rules of a service are installed; before that, calls may have been made that concern only their
  keys (\<open>prior\<close> is the state after them).
\<close>

lemma installed_agrees:
  assumes "in_agreement env m" and "rules_apart m" and "LoxiClients m1 = LoxiClients m"
    and "accepts env" and "distinct (map cl_Url (LoxiClients m))"
    and "map_of (lbCache m1) = (map_of (lbCache m))(key \<mapsto> e1)" and "entry_models e1 = lbs"
    and "apiLog m1 = apiLog prior @ concat (map (\<lambda>lb. install_calls (LoxiClients m) lb (ce_PrefLocal e1)) lbs)"
    and "\<And>c k. c \<in> set (LoxiClients m) \<Longrightarrow> k \<notin> entry_keys e1 \<Longrightarrow> table env prior (cl_Url c) k = table env m (cl_Url c) k"
    and "\<forall>lb\<in>set lbs. svc_Oper (lb_Service lb) = 0 \<and> lb_Endpoints lb \<noteq> []" and "distinct (map rule_key lbs)"
    and "entry_keys e1 \<inter> keys_of_others m key = {}" and "\<forall>e. map_of (lbCache m) key = Some e \<longrightarrow> entry_keys e \<subseteq> entry_keys e1"
  shows "in_agreement env m1 \<and> rules_apart m1"
proof (rule agreement_step[OF assms(1-3,6,12,13)])
  fix c assume c: "c \<in> set (LoxiClients m)"
  let ?new = "map (\<lambda>lb. (rule_key lb, client_rule c lb (ce_PrefLocal e1))) lbs"
  have t: "table env m1 (cl_Url c) = table env prior (cl_Url c) ++ map_of ?new"
    using table_install[OF assms(4,5) c assms(8)] assms(10,11) by simp
  have new: "set ?new = entry_held c (Some e1)" using assms(7,10) by (auto simp: entry_held_def)
  have new_Some: "(k, r) \<in> entry_held c (Some e1) \<longleftrightarrow> map_of ?new k = Some r" for k r
    unfolding new[symmetric] using assms(11) by (intro map_of_eq_Some_iff[symmetric]) (simp add: comp_def)
  have new_None: "k \<notin> entry_keys e1 \<longleftrightarrow> map_of ?new k = None" for k
    using assms(7) by (simp add: map_of_eq_None_iff entry_keys_def image_image)
  have "(k, r) \<in> Map.graph (table env m1 (cl_Url c)) \<longleftrightarrow>
      (k, r) \<in> {(k, r) \<in> Map.graph (table env m (cl_Url c)). k \<notin> entry_keys e1} \<union> entry_held c (Some e1)" for k r
    using assms(9)[OF c, of k]
    unfolding t by (cases "map_of ?new k") (simp_all add: in_graph_iff map_add_def new_Some new_None)
  then show "Map.graph (table env m1 (cl_Url c)) =
      {(k, r) \<in> Map.graph (table env m (cl_Url c)). k \<notin> entry_keys e1} \<union> entry_held c (Some e1)"
    by (rule set_of_pairs_eq)
qed simp

lemma deleted_agrees:
  assumes "in_agreement env m" and "rules_apart m" and "LoxiClients m1 = LoxiClients m"
    and "accepts env" and "distinct (map cl_Url (LoxiClients m))" and "\<not> cfg_AppendEPs (e_cfg env)"
    and "map_of (lbCache m) key = Some e" and "map_of (lbCache m1) = (map_of (lbCache m))(key := x)"
    and "apiLog m1 = apiLog m @ delete_calls env (LoxiClients m) e"
    and "\<forall>e1. x = Some e1 \<longrightarrow> entry_keys e1 = entry_keys e \<and> (\<forall>lb\<in>set (entry_models e1). lb_Endpoints lb = [])"
  shows "in_agreement env m1 \<and> rules_apart m1"
proof (rule agreement_step[OF assms(1-3,8)])
  show "entry_keys e \<inter> keys_of_others m key = {}" using assms(2,7) by (simp add: rules_apart_def)
  fix c assume c: "c \<in> set (LoxiClients m)"
  have "entry_held c x = {}" using assms(10) by (auto simp: entry_held_def split: option.split)
  then show "Map.graph (table env m1 (cl_Url c)) = {(k, r) \<in> Map.graph (table env m (cl_Url c)). k \<notin> entry_keys e} \<union> entry_held c x"
    unfolding table_delete[OF assms(4,5) c assms(6,9)]
    by (intro set_of_pairs_eq) (simp add: in_graph_iff restrict_map_def entry_keys_def conj_commute)
qed (use assms(7,10) in auto)

subsection \<open>The handlers\<close>

definition port_key :: "string \<Rightarrow> ServicePort \<Rightarrow> rule_key" where
  "port_key addr port = (addr, u16 (sp_Port port), to_lower (sp_Protocol port))"

lemma made_rule:
  "makeLoxiLoadBalancerModel env args svc port = Inr lb \<Longrightarrow>
   rule_key lb = port_key (a_externalIP args) port \<and> svc_Oper (lb_Service lb) = (if cfg_AppendEPs (e_cfg env) then 1 else 0)"
  by (auto simp: makeLoxiLoadBalancerModel_def rule_key_def port_key_def Let_def split: sum.splits)

lemma made_rules:
  assumes "list_all2 (\<lambda>p lb. makeLoxiLoadBalancerModel env (mk_args opts e ips priv p) svc (K8sSvcPort p) = Inr lb) ps lbs"
    and "\<forall>p\<in>set ps. IPString p = addr" and "map K8sSvcPort ps = ports" and "\<not> cfg_AppendEPs (e_cfg env)"
  shows "map rule_key lbs = map (port_key addr) ports" "\<forall>lb\<in>set lbs. svc_Oper (lb_Service lb) = 0"
proof -
  have "map rule_key lbs = map (\<lambda>p. port_key (IPString p) (K8sSvcPort p)) ps \<and> (\<forall>lb\<in>set lbs. svc_Oper (lb_Service lb) = 0)"
    using assms(1,4) by (induction rule: list_all2_induct) (auto dest!: made_rule simp: mk_args_def)
  moreover have "map (\<lambda>p. port_key (IPString p) (K8sSvcPort p)) ps = map (port_key addr) ports"
    using assms(2) unfolding assms(3)[symmetric] map_map by (intro map_cong) simp_all
  ultimately show "map rule_key lbs = map (port_key addr) ports" "\<forall>lb\<in>set lbs. svc_Oper (lb_Service lb) = 0" by simp_all
qed

lemma port_keys_distinct: "distinct_ports ports \<Longrightarrow> distinct (map (port_key addr) ports)"
  unfolding distinct_ports_def distinct_map by (auto simp: port_key_def inj_on_def)

lemma delete_success:
  assumes "deleteLoadBalancer env ns name rel m = Ret (m1, None)" and "map_of (lbCache m) (GenKey ns name) = Some e"
  shows "apiLog m1 = apiLog m @ delete_calls env (LoxiClients m) e" "LoxiClients m1 = LoxiClients m"
    "lbCache m1 = (if rel then AList.delete (GenKey ns name) (lbCache m) else lbCache m)"
proof -
  obtain m2 rErr where d: "delete_rules env (map snd (ce_LbServicePairs e)) m None = (m2, rErr)"
    by (cases "delete_rules env (map snd (ce_LbServicePairs e)) m None")
  have m2: "m2 = m\<lparr>apiLog := apiLog m @ delete_calls env (LoxiClients m) e\<rparr>"
    using delete_rules_result[OF d] by (simp add: delete_calls_def Let_def)
  have "rErr = None" using assms d by (auto simp: deleteLoadBalancer_def Let_def split: option.splits)
  then have "if rel then \<exists>m3. go_fold (release_pair env e) (map snd (ce_LbServicePairs e)) m2 = Ret m3 \<and>
      m1 = m3\<lparr>lbCache := AList.delete (GenKey ns name) (lbCache m3)\<rparr> else m1 = m2"
    using assms d by (auto simp: deleteLoadBalancer_def Let_def go_map_eq_Ret)
  moreover have "pools_moved m2 m3" if f: "go_fold (release_pair env e) (map snd (ce_LbServicePairs e)) m2 = Ret m3" for m3
    by (rule go_fold_moved[OF f]) (rule release_pair_moved)
  ultimately have "if rel then \<exists>m3. pools_moved m2 m3 \<and> m1 = m3\<lparr>lbCache := AList.delete (GenKey ns name) (lbCache m3)\<rparr> else m1 = m2"
    by metis
  then show "apiLog m1 = apiLog m @ delete_calls env (LoxiClients m) e" "LoxiClients m1 = LoxiClients m"
    "lbCache m1 = (if rel then AList.delete (GenKey ns name) (lbCache m) else lbCache m)"
    by (auto simp: m2 pools_moved_fields split: if_splits)
qed

text \<open>Removing the endpoints of an entry leaves its keys.\<close>

definition drained_entry :: "LbCacheEntry \<Rightarrow> LbCacheEntry" where
  "drained_entry e = e\<lparr>ce_LbServicePairs :=
     map (\<lambda>(k, sp). (k, sp\<lparr>se_LbModelList := map (\<lambda>lb. lb\<lparr>lb_Endpoints := []\<rparr>) (se_LbModelList sp)\<rparr>)) (ce_LbServicePairs e)\<rparr>"

lemma drained_models: "entry_models (drained_entry e) = map (\<lambda>lb. lb\<lparr>lb_Endpoints := []\<rparr>) (entry_models e)"
proof -
  have "concat (map (\<lambda>(_, sp). se_LbModelList sp) (map (\<lambda>(k, sp). (k, sp\<lparr>se_LbModelList := map f (se_LbModelList sp)\<rparr>)) ps)) =
      map f (concat (map (\<lambda>(_, sp). se_LbModelList sp) ps))" for f and ps :: "(string \<times> LbServicePairEntry) list"
    by (induction ps) auto
  then show ?thesis by (simp add: entry_models_def drained_entry_def)
qed

lemma drained_keys: "entry_keys (drained_entry e) = entry_keys e"
  by (simp add: entry_keys_def drained_models image_image rule_key_def)

lemma removeAllCacheEndpoints_cache:
  "map_of (lbCache m) key = Some e \<Longrightarrow> removeAllCacheEndpoints key m = set_entry key (drained_entry e) m"
  by (simp add: removeAllCacheEndpoints_def drained_entry_def)

text \<open>
  The events of the services while the instances stay. \<open>usable\<close>: the new rules of the service have endpoints, and
  no other service has a rule for the same address, port and protocol. In the rules below a service is
  new; it is seen again with the same ports, whether its options or endpoints changed or not; it has no endpoint
  left; it is deleted. The cluster \<open>k\<close> may be another at each event.
\<close>

definition usable :: "'a Manager \<Rightarrow> 'a Manager \<Rightarrow> string \<Rightarrow> bool" where
  "usable m m' key \<longleftrightarrow>
     (\<forall>e. map_of (lbCache m') key = Some e \<longrightarrow>
        entry_keys e \<inter> keys_of_others m key = {} \<and> (\<forall>lb\<in>set (entry_models e). lb_Endpoints lb \<noteq> []))"

inductive lb_step :: "'a lb_env \<Rightarrow> 'a Manager \<Rightarrow> 'a Manager \<Rightarrow> bool" for env where
  added: "lb_step env m m'"
    if "map_of (lbCache m) (GenKey (sv_Namespace svc) (sv_Name svc)) = None" and "getLBIngressSvcPairs (e_cfg env) svc = []"
      and "annot svc ''loxilb.io/poolSelectSecondary'' = []" and "sv_Ports svc \<noteq> []" and "distinct_ports (sv_Ports svc)"
      and "addLoadBalancer (env\<lparr>e_kube := k\<rparr>) svc m = Ret (m', None)" and "usable m m' (GenKey (sv_Namespace svc) (sv_Name svc))"
| seen: "lb_step env m m'"
    if "admit (env\<lparr>e_kube := k\<rparr>) m svc = Admit" and "parse_opts (env\<lparr>e_kube := k\<rparr>) m svc = Ret (Inr opts)"
      and "endpoints_of (env\<lparr>e_kube := k\<rparr>) opts svc = (ips, eerr)" and "ips \<noteq> []"
      and "map_of (lbCache m) (GenKey (sv_Namespace svc) (sv_Name svc)) = Some e" and "same_service (env\<lparr>e_kube := k\<rparr>) opts svc e m"
      and "getLBServiceExternalIPs (e_cfg env) svc = [addr]" and "\<forall>sp\<in>set (entry_pairs e). se_ExternalIP sp = addr"
      and "distinct_ports (sv_Ports svc)" and "entry_keys e \<subseteq> port_key addr ` set (sv_Ports svc)"
      and "addLoadBalancer (env\<lparr>e_kube := k\<rparr>) svc m = Ret (m', None)" and "usable m m' (GenKey (sv_Namespace svc) (sv_Name svc))"
| drained: "lb_step env m m'"
    if "admit (env\<lparr>e_kube := k\<rparr>) m svc = Admit" and "parse_opts (env\<lparr>e_kube := k\<rparr>) m svc = Ret (Inr opts)"
      and "endpoints_of (env\<lparr>e_kube := k\<rparr>) opts svc = ([], eerr)"
      and "map_of (lbCache m) (GenKey (sv_Namespace svc) (sv_Name svc)) = Some e"
      and "addLoadBalancer (env\<lparr>e_kube := k\<rparr>) svc m = Ret (m', None)"
| deleted: "lb_step env m m'"
    if "deleteLoadBalancer (env\<lparr>e_kube := k\<rparr>) ns name True m = Ret (m', None)"

lemma env_of_cluster [simp]:
  "wraps_errors (env\<lparr>e_kube := k\<rparr>) = wraps_errors env" "delete_calls (env\<lparr>e_kube := k\<rparr>) = delete_calls env"
  by (simp_all add: wraps_errors_def delete_calls_def[abs_def] delete_call_def[abs_def])

definition tables_inv :: "'a lb_env \<Rightarrow> 'a Manager \<Rightarrow> bool" where
  "tables_inv env m \<longleftrightarrow> in_agreement env m \<and> rules_apart m \<and> wf_manager m \<and> distinct (map cl_Url (LoxiClients m))"

lemma added_agrees:
  assumes "tables_inv env m" and "accepts env" "\<not> cfg_AppendEPs (e_cfg env)" "wraps_errors env"
    and "map_of (lbCache m) (GenKey (sv_Namespace svc) (sv_Name svc)) = None" and "getLBIngressSvcPairs (e_cfg env) svc = []"
    and "annot svc ''loxilb.io/poolSelectSecondary'' = []" and "sv_Ports svc \<noteq> []" and "distinct_ports (sv_Ports svc)"
    and "addLoadBalancer (env\<lparr>e_kube := k\<rparr>) svc m = Ret (m', None)" and "usable m m' (GenKey (sv_Namespace svc) (sv_Name svc))"
    and "LoxiClients m' = LoxiClients m"
  shows "in_agreement env m' \<and> rules_apart m'"
proof -
  let ?key = "GenKey (sv_Namespace svc) (sv_Name svc)" and ?env = "env\<lparr>e_kube := k\<rparr>"
  note inv = assms(1)[unfolded tables_inv_def]
  from assms(10,5) show ?thesis
  proof (cases rule: add_new_cases)
    case 1
    then show ?thesis using inv by simp
  next
    case (2 opts ips e)
    let ?m = "(set_entry ?key e m)\<lparr>zoneInstSelHint := zoneInstSelHint m + 1\<rparr>"
    have p: "o_ipPool opts < length (poolStore m)" and sec: "o_sipPools opts = []" "o_numSecondarySvc opts = 0"
      using parse_opts_pools[OF 2(1)] inv assms(7) by simp_all
    obtain ip ident ps lbs where m1: "map_of (lbCache m') = (map_of (lbCache ?m))(?key \<mapsto> installed_entry opts e ps lbs)"
      and ps: "ps = new_pairs ?env ?m (o_ipPool opts) ip ident (sv_Ports svc)" "list_all2 (\<lambda>p lb. makeLoxiLoadBalancerModel ?env
        (mk_args opts ((with_opts opts e)\<lparr>ce_SecIPs := o_secIPs opts\<rparr>) ips (getServicePrivateIP (e_cfg ?env) svc) p) svc
        (K8sSvcPort p) = Inr lb) ps lbs"
      and log: "apiLog m' = apiLog ?m @ concat (map (\<lambda>lb. install_calls (LoxiClients ?m) lb (ce_PrefLocal e)) lbs)"
      by (rule add_new_success[OF _ _ sec _ 2(2) refl assms(8,9) 2(4)]) (use p assms(4,6) in simp_all)
    have addr: "\<forall>p\<in>set ps. IPString p = IP_String ip" and ports: "map K8sSvcPort ps = sv_Ports svc"
      using new_pairs_fields(1,2)[OF assms(8), where env = ?env and m = ?m] unfolding ps(1) by blast+
    note rules = made_rules[OF ps(2) addr ports]
    define e1 where "e1 = installed_entry opts e ps lbs"
    have e1: "entry_models e1 = lbs" "ce_PrefLocal e1 = ce_PrefLocal e"
      using updated_pairs(2)[OF list_all2_lengthD[OF ps(2), symmetric]]
      by (simp_all add: e1_def installed_updated) (simp add: updated_entry_def with_opts_def)
    have cache: "map_of (lbCache m') = (map_of (lbCache m))(?key \<mapsto> e1)"
      using m1 by (simp add: e1_def set_entry_def update_conv')
    have use: "entry_keys e1 \<inter> keys_of_others m ?key = {}" "\<forall>lb\<in>set lbs. lb_Endpoints lb \<noteq> []"
      using assms(11) cache e1(1) by (simp_all add: usable_def)
    show ?thesis
      by (rule installed_agrees[OF _ _ assms(12,2) _ cache e1(1), where prior = m])
        (use inv log e1 rules port_keys_distinct[OF assms(9)] use assms(3,5) in \<open>simp_all add: set_entry_def\<close>)
  qed
qed

lemma seen_agrees:
  assumes "tables_inv env m" and "accepts env" "\<not> cfg_AppendEPs (e_cfg env)" "wraps_errors env"
    and "admit (env\<lparr>e_kube := k\<rparr>) m svc = Admit" and "parse_opts (env\<lparr>e_kube := k\<rparr>) m svc = Ret (Inr opts)"
    and "endpoints_of (env\<lparr>e_kube := k\<rparr>) opts svc = (ips, eerr)" and "ips \<noteq> []"
    and "map_of (lbCache m) (GenKey (sv_Namespace svc) (sv_Name svc)) = Some e" and "same_service (env\<lparr>e_kube := k\<rparr>) opts svc e m"
    and "getLBServiceExternalIPs (e_cfg env) svc = [addr]" and "\<forall>sp\<in>set (entry_pairs e). se_ExternalIP sp = addr"
    and "distinct_ports (sv_Ports svc)" and "entry_keys e \<subseteq> port_key addr ` set (sv_Ports svc)"
    and "addLoadBalancer (env\<lparr>e_kube := k\<rparr>) svc m = Ret (m', None)" and "usable m m' (GenKey (sv_Namespace svc) (sv_Name svc))"
    and "LoxiClients m' = LoxiClients m"
    and "no_rules e \<or> opts_differ opts e \<or> checkUpdateEndpoints (env\<lparr>e_kube := k\<rparr>) svc e ips (o_useExternalEndpoint opts)"
  shows "in_agreement env m' \<and> rules_apart m'"
proof -
  let ?key = "GenKey (sv_Namespace svc) (sv_Name svc)" and ?env = "env\<lparr>e_kube := k\<rparr>"
  note inv = assms(1)[unfolded tables_inv_def]
  obtain qs lbs where qs: "list_all2 (cached_for e) (getLBIngressSvcPairs (e_cfg ?env) svc) qs" and lbs: "list_all2 (\<lambda>p lb.
      makeLoxiLoadBalancerModel ?env (mk_args opts (with_opts opts e) ips (getServicePrivateIP (e_cfg ?env) svc) p) svc (K8sSvcPort p) = Inr lb) qs lbs"
    and cache: "map_of (lbCache m') = (map_of (lbCache m))(?key \<mapsto> updated_entry (with_opts opts e) qs lbs)"
    and log: "apiLog m' = apiLog m @ (if opts_differ opts e then delete_calls ?env (LoxiClients m) e else []) @
      concat (map (\<lambda>lb. install_calls (LoxiClients m) lb (ce_PrefLocal e)) lbs)"
    by (rule service_update[OF _ assms(5-10,18) _ assms(13,15)]) (use assms(4,11) in simp_all)
  have addr: "\<forall>q\<in>set qs. IPString q = addr" using cached_for_address[OF qs] assms(12) by metis
  have ports: "map K8sSvcPort qs = sv_Ports svc"
    using cached_for_keys[OF qs] service_pairs_one_address(1)[OF assms(11)] by simp
  note rules = made_rules[OF lbs addr ports]
  define e1 where "e1 = updated_entry (with_opts opts e) qs lbs"
  define m0 where "m0 = m\<lparr>apiLog := apiLog m @ (if opts_differ opts e then delete_calls env (LoxiClients m) e else [])\<rparr>"
  have e1: "entry_models e1 = lbs" "ce_PrefLocal e1 = ce_PrefLocal e"
    using updated_pairs(2)[OF list_all2_lengthD[OF lbs, symmetric]] by (simp_all add: e1_def) (simp add: updated_entry_def)
  have use: "entry_keys e1 \<inter> keys_of_others m ?key = {}" "\<forall>lb\<in>set lbs. lb_Endpoints lb \<noteq> []"
    using assms(16) cache e1(1) by (simp_all add: usable_def e1_def)
  have "entry_keys e1 = set (map rule_key lbs)" by (simp add: entry_keys_def e1(1))
  then have sub: "entry_keys e \<subseteq> entry_keys e1" using rules(1) assms(3,14) by simp
  have keep: "table env m0 (cl_Url c) k = table env m (cl_Url c) k" if "c \<in> set (LoxiClients m)" "k \<notin> entry_keys e1" for c k
  proof -
    have "\<forall>(v, call)\<in>set (if opts_differ opts e then delete_calls env (LoxiClients m) e else []). \<not> touches call k"
      using that(2) sub assms(3) by (auto simp: delete_calls_models delete_call_def touches_def entry_keys_def)
    moreover have "apiLog m0 = apiLog m @ (if opts_differ opts e then delete_calls env (LoxiClients m) e else [])" by (simp add: m0_def)
    ultimately show ?thesis using table_extend replay_untouched by metis
  qed
  have log0: "apiLog m' = apiLog m0 @ concat (map (\<lambda>lb. install_calls (LoxiClients m) lb (ce_PrefLocal e1)) lbs)"
    using log e1(2) by (simp add: m0_def)
  show ?thesis
    by (rule installed_agrees[OF _ _ assms(17,2) _ cache[folded e1_def] e1(1) log0 keep])
      (use inv rules port_keys_distinct[OF assms(13)] use sub assms(3,9) in simp_all)
qed

lemma seen_unchanged:
  assumes "admit env m svc = Admit" and "parse_opts env m svc = Ret (Inr opts)"
    and "endpoints_of env opts svc = (ips, eerr)" and "ips \<noteq> []"
    and "map_of (lbCache m) (GenKey (sv_Namespace svc) (sv_Name svc)) = Some e" and "same_service env opts svc e m"
    and "\<not> (no_rules e \<or> opts_differ opts e \<or> checkUpdateEndpoints env svc e ips (o_useExternalEndpoint opts))"
  shows "addLoadBalancer env svc m = Ret (m, None)"
proof -
  have "add_entry env opts svc ips (GenKey (sv_Namespace svc) (sv_Name svc)) True e m = Ret (m, None, False, [])"
    by (rule seen_add_entry[OF assms(6,5), where ips = ips]) (use assms(7) in simp)
  then show ?thesis using assms(1-5) by (simp add: addLoadBalancer_def endpoints_of_def finish_def)
qed

lemma drained_agrees:
  assumes "tables_inv env m" and "accepts env" "\<not> cfg_AppendEPs (e_cfg env)" "wraps_errors env"
    and "admit (env\<lparr>e_kube := k\<rparr>) m svc = Admit" and "parse_opts (env\<lparr>e_kube := k\<rparr>) m svc = Ret (Inr opts)"
    and "endpoints_of (env\<lparr>e_kube := k\<rparr>) opts svc = ([], eerr)"
    and "map_of (lbCache m) (GenKey (sv_Namespace svc) (sv_Name svc)) = Some e"
    and "addLoadBalancer (env\<lparr>e_kube := k\<rparr>) svc m = Ret (m', None)" and "LoxiClients m' = LoxiClients m"
  shows "in_agreement env m' \<and> rules_apart m'"
proof -
  let ?key = "GenKey (sv_Namespace svc) (sv_Name svc)"
  note inv = assms(1)[unfolded tables_inv_def]
  obtain m1 err where d: "deleteLoadBalancer (env\<lparr>e_kube := k\<rparr>) (sv_Namespace svc) (sv_Name svc) False m = Ret (m1, err)"
    and w: "e_Wrap env err ''deleteLoadBalancer return error'' = None" and m': "m' = (if err = None then removeAllCacheEndpoints ?key m1 else m1)"
    using assms(5-9) by (auto simp: addLoadBalancer_def endpoints_of_def go_map_eq_Ret Let_def)
  have err: "err = None" using w assms(4) unfolding wraps_errors_def by (metis not_Some_eq)
  note d1 = delete_success[OF d[unfolded err] assms(8)]
  have m1: "m' = set_entry ?key (drained_entry e) m1"
    using m' err removeAllCacheEndpoints_cache[of m1 ?key e] d1(3) assms(8) by simp
  show ?thesis
    by (rule deleted_agrees[OF _ _ assms(10,2) _ assms(3,8), where x = "Some (drained_entry e)"])
      (use inv d1 drained_keys[of e] in \<open>auto simp: m1 set_entry_def update_conv' drained_models\<close>)
qed

lemma deleted_step_agrees:
  assumes "tables_inv env m" and "accepts env" "\<not> cfg_AppendEPs (e_cfg env)"
    and "deleteLoadBalancer (env\<lparr>e_kube := k\<rparr>) ns name True m = Ret (m', None)"
  shows "in_agreement env m' \<and> rules_apart m'"
proof (cases "map_of (lbCache m) (GenKey ns name)")
  case None
  then show ?thesis using assms(1,4) by (simp add: deleteLoadBalancer_def tables_inv_def)
next
  case (Some e)
  note d = delete_success[OF assms(4) Some] and inv = assms(1)[unfolded tables_inv_def]
  show ?thesis
    by (rule deleted_agrees[OF _ _ d(2) assms(2) _ assms(3) Some, where x = None])
      (use inv d in \<open>simp_all add: delete_conv'\<close>)
qed

lemma lb_step_steady: "lb_step env m m' \<Longrightarrow> wf_manager m \<Longrightarrow> steady m m'"
  by (cases rule: lb_step.cases) (auto intro: addLoadBalancer_steady deleteLoadBalancer_steady)

lemma lb_step_inv:
  assumes "lb_step env m m'" and "tables_inv env m" and "accepts env" "\<not> cfg_AppendEPs (e_cfg env)" "wraps_errors env"
  shows "tables_inv env m'"
proof -
  have st: "steady m m'" by (rule lb_step_steady[OF assms(1)]) (use assms(2) in \<open>simp add: tables_inv_def\<close>)
  then have cl: "LoxiClients m' = LoxiClients m" by (simp add: steady_def)
  from assms(1) have "in_agreement env m' \<and> rules_apart m'"
  proof (cases rule: lb_step.cases)
    case (added svc k)
    then show ?thesis by (rule added_agrees[OF assms(2-5)]) (rule cl)
  next
    case (seen k svc opts ips eerr e addr)
    show ?thesis
    proof (cases "no_rules e \<or> opts_differ opts e \<or> checkUpdateEndpoints (env\<lparr>e_kube := k\<rparr>) svc e ips (o_useExternalEndpoint opts)")
      case True
      show ?thesis by (rule seen_agrees[OF assms(2-5) seen cl True])
    next
      case False
      then have "m' = m" using seen_unchanged[OF seen(1-6)] seen(11) by simp
      then show ?thesis using assms(2) by (simp add: tables_inv_def)
    qed
  next
    case (drained k svc opts eerr e)
    then show ?thesis by (rule drained_agrees[OF assms(2-5)]) (rule cl)
  next
    case (deleted k ns name)
    then show ?thesis by (rule deleted_step_agrees[OF assms(2-4)])
  qed
  then show ?thesis using assms(2) steady_wf[OF st] cl by (simp add: tables_inv_def)
qed

lemma lb_run_inv:
  assumes "(lb_step env)\<^sup>*\<^sup>* m m'" and "tables_inv env m" and "accepts env" "\<not> cfg_AppendEPs (e_cfg env)" "wraps_errors env"
  shows "tables_inv env m'"
  using assms(1,2) by (induction rule: rtranclp_induct) (auto intro: lb_step_inv[OF _ _ assms(3-5)])

lemma start_in_agreement:
  assumes "wf_manager m" and "lbCache m = []" and "apiLog m = []" and "distinct (map cl_Url (LoxiClients m))"
  shows "tables_inv env m"
  using assms by (simp add: tables_inv_def in_agreement_def rules_apart_def held_rules_def entry_held_def table_def)

text \<open>What the invariant says of one cached rule.\<close>

lemma held_installed:
  assumes "tables_inv env m" and "c \<in> set (LoxiClients m)" and "map_of (lbCache m) key = Some e"
    and "lb \<in> set (entry_models e)" and "lb_Endpoints lb \<noteq> []"
  shows "table env m (cl_Url c) (rule_key lb) = Some (client_rule c lb (ce_PrefLocal e))"
proof -
  have "(rule_key lb, client_rule c lb (ce_PrefLocal e)) \<in> entry_held c (map_of (lbCache m) key)"
    using assms(3-5) by (auto simp: entry_held_def)
  then have "(rule_key lb, client_rule c lb (ce_PrefLocal e)) \<in> held_rules m c" unfolding held_rules_def by blast
  then show ?thesis using assms(1,2) by (auto simp: tables_inv_def in_agreement_def in_graph_iff[symmetric])
qed

lemma rule_of_one_service:
  assumes "tables_inv env m" and "map_of (lbCache m) key = Some e" and "lb \<in> set (entry_models e)"
    and "key' \<noteq> key" and "map_of (lbCache m) key' = Some e'"
  shows "rule_key lb \<notin> entry_keys e'"
proof -
  have "rule_key lb \<in> entry_keys e" using assms(3) by (simp add: entry_keys_def)
  moreover have "entry_keys e' \<subseteq> keys_of_others m key" using assms(4,5) by (auto simp: keys_of_others_def)
  moreover have "entry_keys e \<inter> keys_of_others m key = {}" using assms(1,2) by (simp add: tables_inv_def rules_apart_def)
  ultimately show ?thesis by blast
qed

text \<open>
  C7. The instances follow the cache. From a manager that has made no call yet, let services come, be seen again with
  the same or other options and endpoints, lose their endpoints, and go, in any order and whatever else happens in the
  cluster, where the instances take every call, no two services have a rule for the same address, port and protocol,
  and the ports of a service stay. Then at every moment the table of each instance has exactly the rules
  of the cached services that have endpoints, as they are for this instance.
\<close>

theorem instances_follow_cache:
  assumes "wf_manager m" and "lbCache m = []" and "apiLog m = []" and "distinct (map cl_Url (LoxiClients m))"
    and "accepts env" "\<not> cfg_AppendEPs (e_cfg env)" "wraps_errors env" and "(lb_step env)\<^sup>*\<^sup>* m m'" and "c \<in> set (LoxiClients m')"
  shows "Map.graph (table env m' (cl_Url c)) = held_rules m' c"
  using lb_run_inv[OF assms(8) start_in_agreement[OF assms(1-4)] assms(5-7)] assms(9)
  by (simp add: tables_inv_def in_agreement_def)

subsection \<open>Ports that come and go\<close>

lemma pool_CheckAndReserve_total:
  assumes "wf_pools m" and "p < length (poolStore m)"
  shows "\<exists>m' inRange ok ident. pool_CheckAndReserve env p ip name port proto m = Ret (m', inRange, ok, ident)"
proof -
  have "wf_pool (poolStore m ! p)" using assms by (simp add: wf_pools_def list_all_length)
  then show ?thesis
    using assms(2) by (auto simp: pool_CheckAndReserve_def with_pool_Ret CheckAndReserveIP_ret go_map_def split: prod.split)
qed

text \<open>The pairs of a service that has an address: each has an address of the service or one of the cache entry.\<close>

lemma existing_loop_total:
  assumes "wf_pools m" and "ce_IPPool e < length (poolStore m)"
  shows "\<exists>m' rs. existing_loop env key e ps b acc m = Ret (m', acc @ rs) \<and> pools_moved m m' \<and>
    (\<forall>r\<in>set rs. IPString r \<in> IPString ` set ps \<union> se_ExternalIP ` set (entry_pairs e))"
  using assms
proof (induction ps arbitrary: b acc m)
  case (Cons p ps)
  let ?P = "\<lambda>sp. GenSPKey (IPString p) (u16 (pr_Port p)) (pr_Protocol p) = GenSPKey (se_ExternalIP sp) (se_Port sp) (se_Protocol sp)"
  show ?case
  proof (cases "find ?P (map snd (ce_LbServicePairs e))")
    case (Some sp)
    then have "sp \<in> set (entry_pairs e)" by (auto simp: entry_pairs_def find_Some_iff)
    then have "IPString (cached_pair sp (K8sSvcPort p)) \<in> se_ExternalIP ` set (entry_pairs e)" by (simp add: cached_pair_def)
    moreover obtain m' rs where "existing_loop env key e ps b (acc @ [cached_pair sp (K8sSvcPort p)]) m =
        Ret (m', (acc @ [cached_pair sp (K8sSvcPort p)]) @ rs)" "pools_moved m m'"
      "\<forall>r\<in>set rs. IPString r \<in> IPString ` set ps \<union> se_ExternalIP ` set (entry_pairs e)" using Cons.IH[OF Cons.prems] by blast
    ultimately show ?thesis
      using Some by (intro exI[of _ m'] exI[of _ "cached_pair sp (K8sSvcPort p) # rs"]) auto
  next
    case None
    let ?reserve = "if \<not> b then go_map (\<lambda>(m, inRange, _, ident). (m, inRange, ident))
        (pool_CheckAndReserve env (ce_IPPool e) (IPString p) key (pr_Port p) (pr_Protocol p) m)
      else Ret (m, False, shared_ident env m (ce_IPPool e) (pr_Port p) (pr_Protocol p))"
    obtain m1 inRange ident where r: "?reserve = Ret (m1, inRange, ident)" and moved: "pools_moved m m1"
      using pool_CheckAndReserve_total[OF Cons.prems, of env "IPString p" key "pr_Port p" "pr_Protocol p"]
      by (cases b) (auto, metis pool_CheckAndReserve_moved)
    let ?q = "p\<lparr>pr_InRange := inRange, pr_StaticIP := True, pr_IdentIPAM := ident, IPAllocd := \<not> b\<rparr>"
    have "wf_pools m1" "ce_IPPool e < length (poolStore m1)"
      using Cons.prems wf_pools_moved[OF moved] pools_moved_fields(1)[OF moved] by simp_all
    then obtain m' rs where "existing_loop env key e ps (b \<or> inRange) (acc @ [?q]) m1 = Ret (m', (acc @ [?q]) @ rs)" "pools_moved m1 m'"
      "\<forall>r\<in>set rs. IPString r \<in> IPString ` set ps \<union> se_ExternalIP ` set (entry_pairs e)" using Cons.IH by blast
    moreover have "existing_loop env key e (p # ps) b acc m = existing_loop env key e ps (b \<or> inRange) (acc @ [?q]) m1"
      using None r by simp
    ultimately show ?thesis
      using pools_moved_trans[OF moved] by (intro exI[of _ m'] exI[of _ "?q # rs"]) auto
  qed
qed simp

text \<open>The status of the service shows the addresses of the service and those of its entry.\<close>

definition addresses_shown :: "'a lb_env \<Rightarrow> 'a Manager \<Rightarrow> Service \<Rightarrow> LbCacheEntry \<Rightarrow> bool" where
  "addresses_shown env m svc e \<longleftrightarrow>
     (\<forall>addr\<in>set (getLBServiceExternalIPs (e_cfg env) svc) \<union> se_ExternalIP ` set (entry_pairs e).
        list_all (checkServiceIngressIPExists svc) (genExtIPName env m addr))"

lemma shown_not_updated:
  assumes "addresses_shown env m svc e" and "genExtIPName env m1 = genExtIPName env m"
    and "\<forall>r\<in>set rs. IPString r \<in> IPString ` set (getLBIngressSvcPairs (e_cfg env) svc) \<union> se_ExternalIP ` set (entry_pairs e)"
  shows "\<not> checkUpdateExternalIP env m1 rs svc"
proof -
  have "IPString ` set (getLBIngressSvcPairs (e_cfg env) svc) \<subseteq> set (getLBServiceExternalIPs (e_cfg env) svc)"
    by (auto simp: getLBIngressSvcPairs_def)
  then show ?thesis
    using assms unfolding addresses_shown_def by (fastforce simp: checkUpdateExternalIP_def list_ex_iff list_all_iff)
qed

text \<open>
  C9. A change of the ports of a service is not noticed. A service is cached and has its addresses in
  its status, its options and its endpoints are those of the cached rules. Whatever its ports are now,
  its event ends without an error and without a call to an instance, and the cache and the status stay as they
  were: a port that was added gets no rule, and the rule of a port that was removed stays. Only the
  pools may differ, by what was reserved for an added port.
\<close>

theorem port_change_unnoticed:
  assumes "wf_manager m" and "admit env m svc = Admit" and "parse_opts env m svc = Ret (Inr opts)"
    and "endpoints_of env opts svc = (ips, eerr)" and "ips \<noteq> []"
    and "map_of (lbCache m) (GenKey (sv_Namespace svc) (sv_Name svc)) = Some e"
    and "getLBIngressSvcPairs (e_cfg env) svc \<noteq> []" and "addresses_shown env m svc e"
    and "with_opts opts e = e" "\<not> no_rules e" "0 \<le> o_probePort opts" "o_probePort opts < 65536"
    and "o_secIPs opts \<noteq> [] \<or> length (ce_SecIPs e) = o_numSecondarySvc opts"
    and "\<not> checkUpdateEndpoints env svc e ips (o_useExternalEndpoint opts)"
  shows "\<exists>m1. addLoadBalancer env svc m = Ret (m1, None) \<and> apiLog m1 = apiLog m \<and> lbCache m1 = lbCache m \<and> statusLog m1 = statusLog m"
proof -
  let ?key = "GenKey (sv_Namespace svc) (sv_Name svc)" and ?ps = "getLBIngressSvcPairs (e_cfg env) svc"
  have "wf_entry m e" by (rule wf_cache_entry[OF wf_manager_cache[OF assms(1)] assms(6)])
  then have "wf_pools m" "ce_IPPool e < length (poolStore m)" using assms(1) by (simp_all add: wf_manager_def wf_entry_def)
  then obtain m1 rs where rs: "existing_loop env ?key e ?ps False [] m = Ret (m1, rs)" "pools_moved m m1"
    "\<forall>r\<in>set rs. IPString r \<in> IPString ` set ?ps \<union> se_ExternalIP ` set (entry_pairs e)"
    using existing_loop_total[of m e env ?key ?ps False "[]"] by auto
  note f = pools_moved_fields[OF rs(2)]
  have pairs: "getIngressSvcPairs env svc e m = Ret (m1, rs, True)"
    using rs(1) assms(7) by (simp add: getIngressSvcPairs_def Let_def)
  have look: "map_of (lbCache m1) ?key = Some e" using f(2) assms(6) by simp
  have "\<not> checkUpdateExternalIP env m1 rs svc"
    by (rule shown_not_updated[OF assms(8) _ rs(3)]) (simp add: genExtIPName_def f fun_eq_iff)
  moreover have "sync_fields True opts e = (e, False, False)"
    using assms(9-12) with_opts_differs[of opts e] by (simp add: sync_fields_eq flags_def)
  moreover have "sync_secondaries env opts svc ?key True e m1 = Ret (m1, False, None)"
    using assms(13) by (auto simp: sync_secondaries_def)
  ultimately have "add_entry env opts svc ips ?key True e m = Ret (m1, None, False, [])"
    using assms(14) pairs by (simp add: add_entry_def set_entry_same[OF look])
  then have "addLoadBalancer env svc m = Ret (m1, None)"
    using assms(2-6) by (simp add: addLoadBalancer_def endpoints_of_def finish_def)
  then show ?thesis using f by simp
qed

text \<open>
  C10. A port that goes leaves its rule behind. Let the manager be in a state that is reached by the events of services
  (\<open>lb_step\<close>: the instances take every call, no two services have a rule for the same address, port and protocol) from one that
  has made no call, with a cached service that has lost a port since, which was not noticed, and let \<open>lb\<close>, which has
  endpoints, be the cached rule of this port. When the endpoints of the service change, its entry is made anew from the ports that are
  left, and no call is made for the rule of the old port; nor is one made when the service is deleted after that.
  Then every instance still has this rule, and no entry of the cache has a rule for its address, port and
  protocol: nothing is left in the manager from which it could be removed.
\<close>

theorem dropped_port_orphaned:
  assumes "wf_manager m0" and "lbCache m0 = []" and "apiLog m0 = []" and "distinct (map cl_Url (LoxiClients m0))"
    and "accepts env" "\<not> cfg_AppendEPs (e_cfg env)" "wraps_errors env" and "(lb_step env)\<^sup>*\<^sup>* m0 m"
    and "admit (env\<lparr>e_kube := k\<rparr>) m svc = Admit" and "parse_opts (env\<lparr>e_kube := k\<rparr>) m svc = Ret (Inr opts)"
    and "endpoints_of (env\<lparr>e_kube := k\<rparr>) opts svc = (ips, eerr)" and "ips \<noteq> []"
    and "map_of (lbCache m) (GenKey (sv_Namespace svc) (sv_Name svc)) = Some e" and "in_step (env\<lparr>e_kube := k\<rparr>) opts svc e m"
    and "checkUpdateEndpoints (env\<lparr>e_kube := k\<rparr>) svc e ips (o_useExternalEndpoint opts)"
    and "getLBServiceExternalIPs (e_cfg env) svc = [addr]" and "\<forall>sp\<in>set (entry_pairs e). se_ExternalIP sp = addr"
    and "distinct_ports (sv_Ports svc)"
    and "lb \<in> set (entry_models e)" and "lb_Endpoints lb \<noteq> []" and "rule_key lb \<notin> port_key addr ` set (sv_Ports svc)"
    and "addLoadBalancer (env\<lparr>e_kube := k\<rparr>) svc m = Ret (m1, None)"
    and "deleteLoadBalancer (env\<lparr>e_kube := k'\<rparr>) (sv_Namespace svc) (sv_Name svc) True m1 = Ret (m2, None)"
  shows "LoxiClients m2 = LoxiClients m \<and>
    (\<forall>c\<in>set (LoxiClients m2). table env m2 (cl_Url c) (rule_key lb) = Some (client_rule c lb (ce_PrefLocal e))) \<and>
    (\<forall>key e'. map_of (lbCache m2) key = Some e' \<longrightarrow> rule_key lb \<notin> entry_keys e')"
proof -
  let ?key = "GenKey (sv_Namespace svc) (sv_Name svc)" and ?env = "env\<lparr>e_kube := k\<rparr>" and ?k = "rule_key lb"
  have inv: "tables_inv env m" by (rule lb_run_inv[OF assms(8) start_in_agreement[OF assms(1-4)] assms(5-7)])
  obtain qs lbs where qs: "list_all2 (cached_for e) (getLBIngressSvcPairs (e_cfg ?env) svc) qs" and lbs: "list_all2 (\<lambda>p lb.
      makeLoxiLoadBalancerModel ?env (mk_args opts e ips (getServicePrivateIP (e_cfg ?env) svc) p) svc (K8sSvcPort p) = Inr lb) qs lbs"
    and cache: "map_of (lbCache m1) = (map_of (lbCache m))(?key \<mapsto> updated_entry e qs lbs)"
    and log: "apiLog m1 = apiLog m @ concat (map (\<lambda>lb. install_calls (LoxiClients m) lb (ce_PrefLocal e)) lbs)"
    by (rule in_step_update[OF _ assms(9-15) _ assms(18,22)]) (use assms(7,16) in simp_all)
  have cl: "LoxiClients m1 = LoxiClients m"
    using addLoadBalancer_steady[OF assms(22)] inv by (simp add: steady_def tables_inv_def)
  have addr: "\<forall>q\<in>set qs. IPString q = addr" using cached_for_address[OF qs] assms(17) by metis
  have ports: "map K8sSvcPort qs = sv_Ports svc"
    using cached_for_keys[OF qs] service_pairs_one_address(1)[OF assms(16)] by simp
  have models: "entry_models (updated_entry e qs lbs) = lbs" by (rule updated_pairs(2)[OF list_all2_lengthD[OF lbs, symmetric]])
  have "set (map rule_key lbs) = port_key addr ` set (sv_Ports svc)" using made_rules(1)[OF lbs addr ports] assms(6) by simp
  then have new: "\<forall>x\<in>set lbs. rule_key x \<noteq> ?k" using assms(21) by (metis image_eqI set_map)
  have look: "map_of (lbCache m1) ?key = Some (updated_entry e qs lbs)" using cache by simp
  note d = delete_success[OF assms(23) look]
  have "table env m1 u ?k = table env m u ?k" for u
    using new by (auto simp: table_extend[OF log] install_calls_def touches_def intro!: replay_untouched)
  moreover have "table env m2 u ?k = table env m1 u ?k" for u
    using new assms(6)
    by (auto simp: table_extend[OF d(1)] delete_calls_models models delete_call_def touches_def intro!: replay_untouched)
  moreover have "table env m (cl_Url c) ?k = Some (client_rule c lb (ce_PrefLocal e))" if "c \<in> set (LoxiClients m)" for c
    by (rule held_installed[OF inv that assms(13,19,20)])
  moreover have "?k \<notin> entry_keys e'" if "map_of (lbCache m2) key = Some e'" for key e'
  proof -
    have "key \<noteq> ?key" "map_of (lbCache m) key = Some e'" using that d(3) cache by (auto simp: delete_conv' split: if_splits)
    then show ?thesis using rule_of_one_service[OF inv assms(13,19)] by blast
  qed
  ultimately show ?thesis using d(2) cl by simp
qed

subsection \<open>Witnesses\<close>

lemma resync_accepts: "accepts resync_env" "\<not> cfg_AppendEPs (e_cfg resync_env)"
  by (simp_all add: accepts_def resync_env_def accept_def demo_cfg_def)

lemma demo_manager_fields: "lbCache demo_manager = []" "apiLog demo_manager = []" "LoxiClients demo_manager = [demo_client]"
  by (simp_all add: demo_manager_def)

theorem instances_follow_cache_witness:
  "\<exists>m1. lb_step resync_env demo_manager m1 \<and> Map.graph (table resync_env m1 (cl_Url demo_client)) = held_rules m1 demo_client \<and>
     lbCache m1 \<noteq> []"
proof -
  let ?key = "GenKey (sv_Namespace demo_svc) (sv_Name demo_svc)"
  have "case addLoadBalancer resync_env demo_svc demo_manager of Ret (m1, None) \<Rightarrow>
      (case map_of (lbCache m1) ?key of Some e \<Rightarrow> list_all (\<lambda>lb. lb_Endpoints lb \<noteq> []) (entry_models e) | None \<Rightarrow> False)
    | _ \<Rightarrow> False" by code_simp
  then obtain m1 e where m1: "addLoadBalancer resync_env demo_svc demo_manager = Ret (m1, None)" "map_of (lbCache m1) ?key = Some e"
    "\<forall>lb\<in>set (entry_models e). lb_Endpoints lb \<noteq> []" by (auto simp: list_all_iff split: go.splits option.splits)
  have "keys_of_others demo_manager ?key = {}" by (simp add: keys_of_others_def demo_manager_fields)
  then have "usable demo_manager m1 ?key" using m1(2,3) by (simp add: usable_def)
  moreover have "addLoadBalancer (resync_env\<lparr>e_kube := e_kube resync_env\<rparr>) demo_svc demo_manager = Ret (m1, None)" using m1(1) by simp
  ultimately have step: "lb_step resync_env demo_manager m1" using lb_step.added[OF resync_pre(1-3) resync_ports] by blast
  then have steps: "(lb_step resync_env)\<^sup>*\<^sup>* demo_manager m1" by blast
  have clients: "LoxiClients m1 = [demo_client]"
    using lb_step_steady[OF step demo_manager_wf] by (simp add: steady_def demo_manager_fields)
  have "Map.graph (table resync_env m1 (cl_Url demo_client)) = held_rules m1 demo_client"
    by (rule instances_follow_cache[OF demo_manager_wf demo_manager_fields(1,2) _ resync_accepts resync_env(1) steps])
      (simp_all add: clients demo_manager_fields)
  moreover have "lbCache m1 \<noteq> []" using m1(2) by auto
  ultimately show ?thesis using step by blast
qed

text \<open>The demonstration service after it was installed, now with a second port.\<close>

definition grown :: "(string \<times> string) list Manager \<Rightarrow> Service" where
  "grown m1 = (hd (statusLog m1))\<lparr>sv_Ports := [demo_port, demo_port\<lparr>sp_Port := 443, sp_NodePort := 30443\<rparr>]\<rparr>"

definition shown_ok :: "(string \<times> string) list Manager \<Rightarrow> Service \<Rightarrow> LbCacheEntry \<Rightarrow> LbOpts \<Rightarrow> string list \<Rightarrow> bool" where
  "shown_ok m svc e opts ips \<longleftrightarrow>
     admit resync_env m svc = Admit \<and> ips \<noteq> [] \<and> getLBIngressSvcPairs (e_cfg resync_env) svc \<noteq> [] \<and>
     list_all (\<lambda>addr. list_all (checkServiceIngressIPExists svc) (genExtIPName resync_env m addr))
       (getLBServiceExternalIPs (e_cfg resync_env) svc @ map se_ExternalIP (entry_pairs e)) \<and>
     with_opts opts e = e \<and> \<not> no_rules e \<and> 0 \<le> o_probePort opts \<and> o_probePort opts < 65536 \<and>
     length (ce_SecIPs e) = o_numSecondarySvc opts \<and> \<not> checkUpdateEndpoints resync_env svc e ips (o_useExternalEndpoint opts) \<and>
     GenKey (sv_Namespace svc) (sv_Name svc) = GenKey (sv_Namespace demo_svc) (sv_Name demo_svc)"

definition grown_check :: "(string \<times> string) list Manager \<Rightarrow> LbCacheEntry \<Rightarrow> bool" where
  "grown_check m e \<longleftrightarrow>
     (case parse_opts resync_env m (grown m) of
        Ret (Inr opts) \<Rightarrow> shown_ok m (grown m) e opts (fst (endpoints_of resync_env opts (grown m))) | _ \<Rightarrow> False)"

lemma grown_ready:
  "case addLoadBalancer resync_env demo_svc demo_manager of Ret (m1, None) \<Rightarrow>
     (case map_of (lbCache m1) (GenKey (sv_Namespace demo_svc) (sv_Name demo_svc)) of Some e \<Rightarrow> grown_check m1 e | None \<Rightarrow> False)
   | _ \<Rightarrow> False"
  by code_simp

theorem port_change_unnoticed_witness:
  "\<exists>m1 m2. addLoadBalancer resync_env demo_svc demo_manager = Ret (m1, None) \<and> length (sv_Ports (grown m1)) = 2 \<and>
     addLoadBalancer resync_env (grown m1) m1 = Ret (m2, None) \<and> apiLog m2 = apiLog m1 \<and> lbCache m2 = lbCache m1"
proof -
  let ?key = "GenKey (sv_Namespace demo_svc) (sv_Name demo_svc)"
  obtain m1 e where m1: "addLoadBalancer resync_env demo_svc demo_manager = Ret (m1, None)" "map_of (lbCache m1) ?key = Some e"
    and c: "grown_check m1 e" using grown_ready by (auto split: go.splits option.splits)
  obtain opts ips eerr where o: "parse_opts resync_env m1 (grown m1) = Ret (Inr opts)"
    "endpoints_of resync_env opts (grown m1) = (ips, eerr)" and ok: "shown_ok m1 (grown m1) e opts ips"
    using c by (auto simp: grown_check_def split: go.splits sum.splits) (metis prod.collapse)
  note ok' = ok[unfolded shown_ok_def]
  have wf: "wf_manager m1" by (rule steady_wf[OF addLoadBalancer_steady[OF m1(1) demo_manager_wf] demo_manager_wf])
  have shown: "addresses_shown resync_env m1 (grown m1) e" using ok' unfolding addresses_shown_def by (simp add: list_all_iff ball_Un)
  have "\<exists>m2. addLoadBalancer resync_env (grown m1) m1 = Ret (m2, None) \<and> apiLog m2 = apiLog m1 \<and> lbCache m2 = lbCache m1 \<and>
      statusLog m2 = statusLog m1"
    by (rule port_change_unnoticed[OF wf _ o _ _ _ shown]) (use ok' m1(2) in auto)
  then show ?thesis using m1(1) by (auto simp: grown_def)
qed

text \<open>The demonstration service had a second port; the port is gone and then a node is added.\<close>

definition two_port_svc :: Service where
  "two_port_svc = demo_svc\<lparr>sv_Ports := [demo_port, demo_port\<lparr>sp_Port := 443, sp_NodePort := 30443\<rparr>]\<rparr>"

definition lost_port :: "(string \<times> string) list Manager \<Rightarrow> Service" where
  "lost_port m1 = (hd (statusLog m1))\<lparr>sv_Ports := [demo_port]\<rparr>"

definition orphan_key :: "Service \<Rightarrow> rule_key" where
  "orphan_key svc = (hd (getLBServiceExternalIPs (e_cfg scaled_env) svc), 443, ''tcp'')"

definition orphan_check :: "(string \<times> string) list Manager \<Rightarrow> LbCacheEntry \<Rightarrow> bool" where
  "orphan_check m1 e \<longleftrightarrow>
     (let svc = lost_port m1; k = orphan_key svc in
      scaled_check m1 svc e \<and> list_ex (\<lambda>lb. rule_key lb = k) (entry_models e) \<and> list_all (\<lambda>lb. lb_Endpoints lb \<noteq> []) (entry_models e) \<and>
      (case addLoadBalancer scaled_env svc m1 of
         Ret (m2, None) \<Rightarrow> (case deleteLoadBalancer scaled_env (sv_Namespace svc) (sv_Name svc) True m2 of Ret (m3, None) \<Rightarrow> True | _ \<Rightarrow> False)
       | _ \<Rightarrow> False))"

lemma orphan_ready:
  "case addLoadBalancer resync_env two_port_svc demo_manager of Ret (m1, None) \<Rightarrow>
     (case map_of (lbCache m1) (GenKey (sv_Namespace demo_svc) (sv_Name demo_svc)) of Some e \<Rightarrow> orphan_check m1 e | None \<Rightarrow> False)
   | _ \<Rightarrow> False"
  by code_simp

lemma orphan_setup:
  obtains m1 e addr opts m2 m3 lb where "addLoadBalancer resync_env two_port_svc demo_manager = Ret (m1, None)"
    "map_of (lbCache m1) (GenKey (sv_Namespace demo_svc) (sv_Name demo_svc)) = Some e"
    "parse_opts scaled_env m1 (lost_port m1) = Ret (Inr opts)" "scaled_ok m1 (lost_port m1) e addr opts"
    "addLoadBalancer scaled_env (lost_port m1) m1 = Ret (m2, None)"
    "deleteLoadBalancer scaled_env (sv_Namespace (lost_port m1)) (sv_Name (lost_port m1)) True m2 = Ret (m3, None)"
    "lb \<in> set (entry_models e)" "rule_key lb = (addr, 443, ''tcp'')" "\<forall>lb\<in>set (entry_models e). lb_Endpoints lb \<noteq> []"
proof -
  obtain m1 e where m1: "addLoadBalancer resync_env two_port_svc demo_manager = Ret (m1, None)"
    "map_of (lbCache m1) (GenKey (sv_Namespace demo_svc) (sv_Name demo_svc)) = Some e" and c: "orphan_check m1 e"
    using orphan_ready by (auto split: go.splits option.splits)
  let ?svc = "lost_port m1"
  let ?addr = "hd (getLBServiceExternalIPs (e_cfg scaled_env) ?svc)"
  note c' = c[unfolded orphan_check_def Let_def orphan_key_def]
  have "\<exists>opts. parse_opts scaled_env m1 ?svc = Ret (Inr opts) \<and> scaled_ok m1 ?svc e ?addr opts"
    using c' by (auto simp: scaled_check_def split: go.splits sum.splits)
  moreover have "\<exists>m2 m3. addLoadBalancer scaled_env ?svc m1 = Ret (m2, None) \<and>
      deleteLoadBalancer scaled_env (sv_Namespace ?svc) (sv_Name ?svc) True m2 = Ret (m3, None)"
    using c' by (auto split: go.splits option.splits)
  moreover have "\<exists>lb. lb \<in> set (entry_models e) \<and> rule_key lb = (?addr, 443, ''tcp'')" "\<forall>lb\<in>set (entry_models e). lb_Endpoints lb \<noteq> []"
    using c' by (auto simp: list_ex_iff list_all_iff)
  ultimately show ?thesis using that m1 by blast
qed

text \<open>The service with two ports is added to the manager that has made no call yet.\<close>

lemma two_ports_added:
  assumes "addLoadBalancer resync_env two_port_svc demo_manager = Ret (m1, None)"
    and "map_of (lbCache m1) (GenKey (sv_Namespace demo_svc) (sv_Name demo_svc)) = Some e" and "\<forall>lb\<in>set (entry_models e). lb_Endpoints lb \<noteq> []"
  shows "lb_step resync_env demo_manager m1"
proof -
  let ?key = "GenKey (sv_Namespace two_port_svc) (sv_Name two_port_svc)"
  have key: "?key = GenKey (sv_Namespace demo_svc) (sv_Name demo_svc)" by (simp add: two_port_svc_def)
  have pre: "map_of (lbCache demo_manager) ?key = None" "getLBIngressSvcPairs (e_cfg resync_env) two_port_svc = []"
    "annot two_port_svc ''loxilb.io/poolSelectSecondary'' = []" "sv_Ports two_port_svc \<noteq> []"
    by code_simp+
  have ports: "distinct_ports (sv_Ports two_port_svc)" by (simp add: two_port_svc_def distinct_ports_def demo_port_def u16_def)
  have "keys_of_others demo_manager ?key = {}" by (simp add: keys_of_others_def demo_manager_fields)
  then have use: "usable demo_manager m1 ?key" using assms(2,3) key by (simp add: usable_def)
  have "addLoadBalancer (resync_env\<lparr>e_kube := e_kube resync_env\<rparr>) two_port_svc demo_manager = Ret (m1, None)" using assms(1) by simp
  then show ?thesis using lb_step.added[OF pre ports _ use] by blast
qed

theorem dropped_port_orphaned_witness:
  "\<exists>m1 m2 m3 addr. addLoadBalancer resync_env two_port_svc demo_manager = Ret (m1, None) \<and>
     addLoadBalancer scaled_env (lost_port m1) m1 = Ret (m2, None) \<and>
     deleteLoadBalancer scaled_env (sv_Namespace (lost_port m1)) (sv_Name (lost_port m1)) True m2 = Ret (m3, None) \<and>
     LoxiClients m3 = [demo_client] \<and> table resync_env m3 (cl_Url demo_client) (addr, 443, ''tcp'') \<noteq> None \<and>
     (\<forall>key e. map_of (lbCache m3) key = Some e \<longrightarrow> (addr, 443, ''tcp'') \<notin> entry_keys e)"
proof -
  obtain m1 e addr opts m2 m3 lb where r: "addLoadBalancer resync_env two_port_svc demo_manager = Ret (m1, None)"
    "map_of (lbCache m1) (GenKey (sv_Namespace demo_svc) (sv_Name demo_svc)) = Some e"
    "parse_opts scaled_env m1 (lost_port m1) = Ret (Inr opts)" "scaled_ok m1 (lost_port m1) e addr opts"
    "addLoadBalancer scaled_env (lost_port m1) m1 = Ret (m2, None)"
    "deleteLoadBalancer scaled_env (sv_Namespace (lost_port m1)) (sv_Name (lost_port m1)) True m2 = Ret (m3, None)"
    "lb \<in> set (entry_models e)" "rule_key lb = (addr, 443, ''tcp'')" "\<forall>lb\<in>set (entry_models e). lb_Endpoints lb \<noteq> []" by (rule orphan_setup)
  have steps: "(lb_step resync_env)\<^sup>*\<^sup>* demo_manager m1" using two_ports_added[OF r(1,2,9)] by blast
  obtain k where env: "scaled_env = resync_env\<lparr>e_kube := k\<rparr>" using scaled_env_def by blast
  have nodes: "scaled_nodes \<noteq> []" "e_cfg scaled_env = e_cfg resync_env" by (simp_all add: scaled_nodes_def scaled_env_def)
  note ok = r(4)[unfolded scaled_ok_def list_all_iff nodes(2)]
  have ports: "distinct_ports (sv_Ports (lost_port m1))" "rule_key lb \<notin> port_key addr ` set (sv_Ports (lost_port m1))"
    using ok r(8) by (simp_all add: distinct_ports_def port_key_def demo_port_def u16_def)
  have "LoxiClients m3 = LoxiClients m1 \<and>
    (\<forall>c\<in>set (LoxiClients m3). table resync_env m3 (cl_Url c) (rule_key lb) = Some (client_rule c lb (ce_PrefLocal e))) \<and>
    (\<forall>key e'. map_of (lbCache m3) key = Some e' \<longrightarrow> rule_key lb \<notin> entry_keys e')"
    by (rule dropped_port_orphaned[OF demo_manager_wf demo_manager_fields(1,2) _ resync_accepts resync_env(1) steps _
          r(3)[unfolded env] _ nodes(1) _ _ _ _ _ ports(1) r(7) _ ports(2) r(5)[unfolded env] r(6)[unfolded env],
          where eerr = None, folded env])
      (use ok r(2,7,9) in \<open>auto simp: demo_manager_fields\<close>)
  moreover have "LoxiClients m1 = [demo_client]" using ok by simp
  ultimately show ?thesis using r(1,5,6) unfolding r(8) by (metis list.set_intros(1) option.distinct(1))
qed

end
