(* ===== verification/Lb_Teardown.thy ===== *)
theory Lb_Teardown
  imports Lb_Invariant
begin

text \<open>
  \<open>DeleteAllLoadBalancer\<close> of \<open>loadbalancer.go\<close>, which removes the rules of all cached services, and
  what it returns to the pools. The code ends with \<open>m.lbCache = nil\<close>; a Go map that is nil reads as an
  empty one, so that the cache is the empty list here.
\<close>

subsection \<open>The operation\<close>

text \<open>
  The body of the loop over the clients. The results of the calls are not looked at, and the
  addresses are returned in this loop, once for every client.
\<close>

definition teardown_client ::
  "'a lb_env \<Rightarrow> LbCacheEntry \<Rightarrow> LbServicePairEntry \<Rightarrow> LoxiClient \<Rightarrow> 'a Manager \<Rightarrow> 'a Manager go" where
  "teardown_client env e sp c m =
     release_pair env e sp (fst (send_all env (map (\<lambda>lb. (c, LbDelete lb)) (se_LbModelList sp)) m))"

definition teardown_entry ::
  "'a lb_env \<Rightarrow> LoxiClient list \<Rightarrow> LbCacheEntry \<Rightarrow> 'a Manager \<Rightarrow> 'a Manager go" where
  "teardown_entry env cs e m =
     go_fold (\<lambda>sp. go_fold (teardown_client env e sp) cs) (map snd (ce_LbServicePairs e)) m"

definition DeleteAllLoadBalancer :: "'a lb_env \<Rightarrow> 'a Manager \<Rightarrow> 'a Manager go" where
  "DeleteAllLoadBalancer env m =
     go_map (\<lambda>m. m\<lparr>lbCache := []\<rparr>)
       (go_fold (teardown_entry env (LoxiClients m)) (map snd (lbCache m)) m)"

subsection \<open>Operations that call and return\<close>

text \<open>
  \<open>tears env held f calls rs\<close>: on well-formed pools \<open>f\<close> does not panic, makes the calls and
  gives the addresses of \<open>rs\<close> back, and changes nothing else.
\<close>

definition tears ::
  "'a lb_env \<Rightarrow> ('a \<Rightarrow> (string \<times> string) set) \<Rightarrow> ('a Manager \<Rightarrow> 'a Manager go) \<Rightarrow>
   (string \<times> api_call) list \<Rightarrow> (nat \<times> string \<times> string) list \<Rightarrow> bool" where
  "tears env held f calls rs =
     (\<forall>m. wf_pools m \<and> (\<forall>(p, ip, ident)\<in>set rs. p < length (poolStore m)) \<longrightarrow>
        (\<exists>m'. f m = Ret m' \<and> pools_moved (m\<lparr>apiLog := apiLog m @ calls\<rparr>) m' \<and>
           (\<forall>i<length (poolStore m). ledger held m' i = ledger held m i - returned env m rs i)))"

lemma pools_of_log [simp]:
  "wf_pools (m\<lparr>apiLog := l\<rparr>) = wf_pools m" "ledger held (m\<lparr>apiLog := l\<rparr>) = ledger held m"
  "returned env (m\<lparr>apiLog := l\<rparr>) = returned env m"
  by (auto simp: wf_pools_def ledger_def returned_def takes_back_def fun_eq_iff)

lemma pools_moved_log: "pools_moved m m' \<Longrightarrow> pools_moved (m\<lparr>apiLog := l\<rparr>) (m'\<lparr>apiLog := l\<rparr>)"
  by (auto simp: pools_moved_def)

lemma returned_moved:
  "pools_moved m m' \<Longrightarrow> i < length (poolStore m) \<Longrightarrow> returned env m' rs i = returned env m rs i"
  by (auto simp: returned_def takes_back_moved)

lemma returned_append: "returned env m (xs @ ys) i = returned env m xs i \<union> returned env m ys i"
  by (auto simp: returned_def)

lemma tears_D:
  assumes "tears env held f calls rs" and "wf_pools m" and "\<forall>(p, ip, ident)\<in>set rs. p < length (poolStore m)"
  obtains m' where "f m = Ret m'" "pools_moved (m\<lparr>apiLog := apiLog m @ calls\<rparr>) m'"
    "\<forall>i<length (poolStore m). ledger held m' i = ledger held m i - returned env m rs i"
  using assms unfolding tears_def by blast

lemma tears_bind:
  assumes "tears env held f calls rs" and "tears env held g calls' rs'"
  shows "tears env held (\<lambda>m. go_bind (f m) g) (calls @ calls') (rs @ rs')"
  unfolding tears_def
proof (intro allI impI)
  fix m :: "'a Manager"
  assume m: "wf_pools m \<and> (\<forall>(p, ip, ident)\<in>set (rs @ rs'). p < length (poolStore m))"
  obtain m1 where m1: "f m = Ret m1" "pools_moved (m\<lparr>apiLog := apiLog m @ calls\<rparr>) m1"
    "\<forall>i<length (poolStore m). ledger held m1 i = ledger held m i - returned env m rs i"
    by (rule tears_D[OF assms(1), of m]) (use m in auto)
  note f = pools_moved_fields[OF m1(2)]
  obtain m2 where m2: "g m1 = Ret m2" "pools_moved (m1\<lparr>apiLog := apiLog m1 @ calls'\<rparr>) m2"
    "\<forall>i<length (poolStore m1). ledger held m2 i = ledger held m1 i - returned env m1 rs' i"
    by (rule tears_D[OF assms(2), of m1]) (use m f(1) wf_pools_moved[OF m1(2)] in auto)
  have "pools_moved (m\<lparr>apiLog := apiLog m @ calls @ calls'\<rparr>) m2"
    using pools_moved_trans[OF pools_moved_log[OF m1(2)] m2(2)] f(3) by simp
  moreover have "returned env m1 rs' i = returned env m rs' i" if i: "i < length (poolStore m)" for i
    using returned_moved[OF m1(2), of i env rs'] i by simp
  ultimately show "\<exists>m'. go_bind (f m) g = Ret m' \<and> pools_moved (m\<lparr>apiLog := apiLog m @ calls @ calls'\<rparr>) m' \<and>
      (\<forall>i<length (poolStore m). ledger held m' i = ledger held m i - returned env m (rs @ rs') i)"
    using m1 m2 f(1) by (auto simp: returned_append)
qed

lemma tears_fold:
  assumes "\<And>x. x \<in> set xs \<Longrightarrow> tears env held (f x) (calls x) (rs x)"
  shows "tears env held (go_fold f xs) (concat (map calls xs)) (concat (map rs xs))"
  using assms
proof (induction xs)
  case Nil
  then show ?case by (auto simp: tears_def returned_def)
next
  case (Cons x xs)
  then have "tears env held (\<lambda>m. go_bind (f x m) (go_fold f xs)) (calls x @ concat (map calls xs)) (rs x @ concat (map rs xs))"
    by (intro tears_bind) auto
  moreover have "go_fold f (x # xs) = (\<lambda>m. go_bind (f x m) (go_fold f xs))" by (simp add: fun_eq_iff)
  ultimately show ?case by simp
qed

lemma tears_same: "set rs = set rs' \<Longrightarrow> tears env held f calls rs = tears env held f calls rs'"
  by (simp add: tears_def returned_def)

subsection \<open>What is called and returned\<close>

definition teardown_calls :: "LoxiClient list \<Rightarrow> LbCacheEntry \<Rightarrow> (string \<times> api_call) list" where
  "teardown_calls cs e =
     [(cl_Url c, LbDelete lb). sp \<leftarrow> map snd (ce_LbServicePairs e), c \<leftarrow> cs, lb \<leftarrow> se_LbModelList sp]"

lemma teardown_client_tears:
  assumes "ipam_contract (e_tk env) held"
  shows "tears env held (teardown_client env e sp c) (map (\<lambda>lb. (cl_Url c, LbDelete lb)) (se_LbModelList sp)) (pair_returns e sp)"
proof -
  let ?calls = "map (\<lambda>lb. (cl_Url c, LbDelete lb)) (se_LbModelList sp)"
  have "teardown_client env e sp c m =
      go_fold (\<lambda>(p, ip, ident). pool_Return env p ip ident) (pair_returns e sp) (m\<lparr>apiLog := apiLog m @ ?calls\<rparr>)" for m
    by (simp add: teardown_client_def sends.run_result release_pair_returns comp_def)
  then show ?thesis
    using pool_returns_ok[OF assms, of "m\<lparr>apiLog := apiLog m @ ?calls\<rparr>" "pair_returns e sp" for m]
    by (simp add: tears_def)
qed

lemma set_once_per: "cs \<noteq> [] \<Longrightarrow> set (concat (map (\<lambda>sp. concat (map (\<lambda>c. f sp) cs)) xs)) = set (concat (map f xs))"
  by (auto simp: neq_Nil_conv)

lemma teardown_entry_tears:
  assumes "ipam_contract (e_tk env) held"
  shows "tears env held (teardown_entry env cs e) (teardown_calls cs e) (if cs = [] then [] else entry_returns e)"
proof -
  let ?sps = "map snd (ce_LbServicePairs e)"
  let ?rs = "concat (map (\<lambda>sp. concat (map (\<lambda>c. pair_returns e sp) cs)) ?sps)"
  have "tears env held (teardown_entry env cs e) (teardown_calls cs e) ?rs"
    unfolding teardown_entry_def[abs_def] teardown_calls_def
    by (intro tears_fold teardown_client_tears assms)
  moreover have "set ?rs = set (if cs = [] then [] else entry_returns e)"
    using set_once_per[of cs "pair_returns e" ?sps] by (simp add: entry_returns_def)
  ultimately show ?thesis using tears_same by blast
qed

text \<open>
  C20. Removing all services. \<open>DeleteAllLoadBalancer\<close> does not panic on a well-formed manager; it sends
  every instance the deletion of every cached rule, whatever the instances answer, and leaves an
  empty cache. If there is at least one instance, the ledger of each pool loses exactly what the
  entries hold there. If there is none, nothing is returned: the addresses stay allocated, although
  no service is left in the cache that would return them.
\<close>

theorem delete_all_outcome:
  assumes "wf_manager m" and "ipam_contract (e_tk env) held"
  shows "\<exists>m'. DeleteAllLoadBalancer env m = Ret m' \<and> lbCache m' = [] \<and>
    apiLog m' = apiLog m @ concat (map (teardown_calls (LoxiClients m)) (map snd (lbCache m))) \<and>
    (\<forall>i<length (poolStore m). ledger held m' i = ledger held m i -
       (if LoxiClients m = [] then {} else returned env m (concat (map entry_returns (map snd (lbCache m)))) i))"
proof -
  let ?cs = "LoxiClients m" and ?es = "map snd (lbCache m)"
  let ?rs = "concat (map (\<lambda>e. if ?cs = [] then [] else entry_returns e) ?es)"
  have t: "tears env held (go_fold (teardown_entry env ?cs) ?es) (concat (map (teardown_calls ?cs) ?es)) ?rs"
    by (intro tears_fold teardown_entry_tears assms(2))
  have "\<forall>e\<in>set ?es. wf_entry m e" "wf_pools m" using assms(1) by (auto simp: wf_manager_def)
  then obtain m1 where m1: "go_fold (teardown_entry env ?cs) ?es m = Ret m1"
    "pools_moved (m\<lparr>apiLog := apiLog m @ concat (map (teardown_calls ?cs) ?es)\<rparr>) m1"
    "\<forall>i<length (poolStore m). ledger held m1 i = ledger held m i - returned env m ?rs i"
    by (rule_tac tears_D[OF t, of m]) (auto dest: entry_returns_wf split: if_splits)
  have "returned env m ?rs = (if ?cs = [] then (\<lambda>_. {}) else returned env m (concat (map entry_returns ?es)))"
    by (auto simp: returned_def fun_eq_iff)
  then show ?thesis
    using m1 pools_moved_fields(3)[OF m1(2)] by (simp add: DeleteAllLoadBalancer_def ledger_def)
qed

theorem delete_all_outcome_witness:
  "\<exists>m'. DeleteAllLoadBalancer (demo_env accept) loaded_manager = Ret m' \<and> lbCache m' = [] \<and>
     ledger set loaded_manager 0 = {(''80/tcp'', ''10.0.0.1''), (''90/tcp'', ''10.0.0.1'')} \<and>
     ledger set m' 0 = {(''90/tcp'', ''10.0.0.1'')}"
proof -
  have taken: "takes_back (demo_env accept) loaded_manager 0 ''10.0.0.1''"
    unfolding takes_back_def in_pool_def by code_simp
  have es: "map snd (lbCache loaded_manager) = [demo_entry]" by (simp add: loaded_manager_def)
  have "returned (demo_env accept) loaded_manager (entry_returns demo_entry) 0 = {(''80/tcp'', ''10.0.0.1'')}"
    using taken by (auto simp: returned_def entry_returns_def pair_returns_def demo_entry_def demo_pair_entry_def)
  moreover have "ledger set loaded_manager 0 = {(''80/tcp'', ''10.0.0.1''), (''90/tcp'', ''10.0.0.1'')}"
    "0 < length (poolStore loaded_manager)" by (auto simp: ledger_def loaded_manager_def)
  moreover have "LoxiClients loaded_manager \<noteq> []" by code_simp
  ultimately show ?thesis
    using delete_all_outcome[OF loaded_manager_wf, of "demo_env accept" set] list_ipam_contract unfolding es by auto
qed

end
