(* ===== verification/Lb_Lifecycle.thy ===== *)
theory Lb_Lifecycle
  imports Lb_Correct
begin

text \<open>
  The life cycle of the loxilb instances (\<open>loadbalancer.go\<close>): discovery of the instances, the
  events of \<open>manageLoxiLbLifeCycle\<close>, the instance addresses and CIDR pools that the LoxiURL
  manager adds and removes, and the entry of service events into the work queue.

  A client is a pointer in the code. The field \<open>DoBGPCfg\<close>, which only this loop reads and
  writes, is kept in \<open>lf_flags\<close>, the URLs of the clients whose flag is set; \<open>lf_alive\<close> is
  the channel \<open>ClientAliveCh\<close> into which the loop puts a client again. \<open>current\<close> follows the
  pointer of a client that is still in the pool.
\<close>

subsection \<open>Discovery\<close>

definition mark_purge :: "string list \<Rightarrow> LoxiClient \<Rightarrow> LoxiClient" where
  "mark_purge ips v = v\<lparr>Purge := \<not> list_ex (\<lambda>ip. Host v = ip) ips\<rparr>"

definition new_clients ::
  "(string \<Rightarrow> error + LoxiClient) \<Rightarrow> LoxiClient list \<Rightarrow> string list \<Rightarrow> LoxiClient list" where
  "new_clients mk cs ips =
     concat (map (\<lambda>ip. if list_ex (\<lambda>v. Host v = ip) cs then []
                       else (case mk ip of Inl _ \<Rightarrow> [] | Inr c \<Rightarrow> [c])) ips)"

text \<open>The clients that stay and those that are purged.\<close>

definition discover ::
  "(string \<Rightarrow> error + LoxiClient) \<Rightarrow> string list \<Rightarrow> LoxiClient list \<Rightarrow> LoxiClient list \<times> LoxiClient list" where
  "discover mk ips cs =
     (let cs = map (mark_purge ips) cs; cs = cs @ new_clients mk cs ips
      in (filter (\<lambda>v. \<not> Purge v) cs, filter Purge cs))"

record dial =
  url_Parse :: "string \<Rightarrow> error + string \<times> string"
  sys_certs :: bool
  time_now :: int

definition discovered_client ::
  "'a lb_env \<Rightarrow> dial \<Rightarrow> bool \<Rightarrow> bool \<Rightarrow> string \<Rightarrow> error + LoxiClient" where
  "discovered_client env d peerOnly noRole ip =
     NewLoxiClient (e_tk env) (url_Parse d) (sys_certs d) (time_now d) (''http://'' @ ip @ '':11111'')
       peerOnly noRole [] (cfg_Zone (e_cfg env)) (cfg_NumZoneInst (e_cfg env))"

definition zone_nodes :: "'a lb_env \<Rightarrow> string list" where
  "zone_nodes env =
     (let zone = cfg_Zone (e_cfg env) in
      if zone \<noteq> [] \<and> zone \<noteq> ''llb'' then
        (case getNodeEndpointsWithLabelWithKey (e_tk env) (e_kube env) ''ipv4'' ''loxilb.io/zonelabel'' zone of
           Inr (n # ns) \<Rightarrow> n # ns | _ \<Rightarrow> [''xdeadbeefx''])
      else [])"

definition service_ips :: "'a lb_env \<Rightarrow> string \<Rightarrow> string list \<Rightarrow> string list" where
  "service_ips env name matchNodeList =
     (case GetLoxilbServiceEndPointsWithLister (e_kube env) name [] matchNodeList of
        (ips, None) \<Rightarrow> ips | (_, Some _) \<Rightarrow> [])"

definition DiscoverLoxiLBServices ::
  "'a lb_env \<Rightarrow> dial \<Rightarrow> string list \<Rightarrow> 'a Manager \<Rightarrow> 'a Manager \<times> LoxiClient list" where
  "DiscoverLoxiLBServices env d excludeList m =
     (let ips = service_ips env ''loxilb-lb-service'' (zone_nodes env) in
      case discover (\<lambda>ip. discovered_client env d False (list_ex (\<lambda>n. n = ip) excludeList) ip) ips (LoxiClients m) of
        (cs, purged) \<Rightarrow> (m\<lparr>LoxiClients := cs\<rparr>, purged))"

definition DiscoverLoxiLBPeerServices ::
  "'a lb_env \<Rightarrow> dial \<Rightarrow> 'a Manager \<Rightarrow> 'a Manager \<times> LoxiClient list" where
  "DiscoverLoxiLBPeerServices env d m =
     (case discover (discovered_client env d True True) (service_ips env ''loxilb-peer-service'' []) (LoxiPeerClients m) of
        (cs, purged) \<Rightarrow> (m\<lparr>LoxiPeerClients := cs\<rparr>, purged))"

subsection \<open>Events of the instances\<close>

record 'a Life =
  lf_mgr :: "'a Manager"
  lf_flags :: "string list"
  lf_alive :: "LoxiClient list"

definition current :: "'a Manager \<Rightarrow> LoxiClient \<Rightarrow> LoxiClient" where
  "current m c =
     (case find (\<lambda>d. cl_Url d = cl_Url c) (LoxiClients m @ LoxiPeerClients m) of Some d \<Rightarrow> d | None \<Rightarrow> c)"

fun send_retry ::
  "'a lb_env \<Rightarrow> nat \<Rightarrow> LoxiClient \<Rightarrow> api_call \<Rightarrow> 'a Manager \<Rightarrow> 'a Manager" where
  "send_retry env 0 c call m = m"
| "send_retry env (Suc n) c call m =
     (case api_send env c call m of (m, None) \<Rightarrow> m | (m, Some _) \<Rightarrow> send_retry env n c call m)"

text \<open>
  The role messages for one client: for each instance its state, and for the first instance of
  a zone that is not the default zone also under the name of the default zone.
\<close>

definition role_messages :: "'a lb_env \<Rightarrow> LoxiClient \<Rightarrow> CIStatusModel list" where
  "role_messages env c =
     (let cfg = e_cfg env; zone = cfg_Zone cfg in
      concat (map (\<lambda>(inst, _).
        (if inst = GenZoneInstName zone 0 \<and> zone \<noteq> ''llb''
         then [(makeLoxiLBCIStatusModel inst (cfg_SetRoles cfg) c)\<lparr>ci_Instance := GenZoneInstName ''llb'' 0\<rparr>] else []) @
        [makeLoxiLBCIStatusModel inst (cfg_SetRoles cfg) c]) (InstRoles c)))"

definition report_roles :: "'a lb_env \<Rightarrow> LoxiClient \<Rightarrow> 'a Manager \<Rightarrow> 'a Manager" where
  "report_roles env c m = fold (\<lambda>cis. send_retry env 5 c (CIStatusCreate cis)) (role_messages env c) m"

definition sel_master_event :: "'a lb_env \<Rightarrow> 'a Manager \<Rightarrow> 'a Manager" where
  "sel_master_event env m = fold (report_roles env) (filter IsAlive (LoxiClients m)) m"

definition purge_event :: "'a lb_env \<Rightarrow> LoxiClient \<Rightarrow> 'a Manager \<Rightarrow> 'a Manager" where
  "purge_event env purged m =
     (if cfg_SetBGP (e_cfg env) \<noteq> 0 then
        fold (\<lambda>c m. fst (api_send env c (DeleteNeigh (Host purged) (int (unat (cfg_SetBGP (e_cfg env))))) m))
          (filter (\<lambda>c. Host purged \<noteq> Host c) (LoxiClients m)) m
      else m)"

definition checkHandleBGPCfgErrors :: "LoxiClient \<Rightarrow> error \<Rightarrow> 'a Life \<Rightarrow> 'a Life" where
  "checkHandleBGPCfgErrors peer err l =
     (if (contains_str err ''connection refused'' \<or> contains_str err ''deadline'') \<and>
         cl_Url peer \<notin> set (lf_flags l)
      then l\<lparr>lf_flags := cl_Url peer # lf_flags l, lf_alive := lf_alive l @ [peer]\<rparr> else l)"

definition bgp_send :: "'a lb_env \<Rightarrow> LoxiClient \<Rightarrow> api_call \<Rightarrow> 'a Life \<Rightarrow> 'a Life" where
  "bgp_send env c call l =
     (case api_send env c call (lf_mgr l) of
        (m, None) \<Rightarrow> l\<lparr>lf_mgr := m\<rparr>
      | (m, Some err) \<Rightarrow> checkHandleBGPCfgErrors c err (l\<lparr>lf_mgr := m\<rparr>))"

definition bgp_peers :: "'a lb_env \<Rightarrow> LoxiClient \<Rightarrow> 'a Manager \<Rightarrow> LoxiClient list" where
  "bgp_peers env c m =
     (let others = filter (\<lambda>d. Host c \<noteq> Host d) in
      if PeeringOnly c then others (LoxiClients m)
      else others (LoxiPeerClients m) @ (if cfg_LoxilbURLs (e_cfg env) = [] then others (LoxiClients m) else []))"

definition bgp_mesh :: "'a lb_env \<Rightarrow> LoxiClient \<Rightarrow> 'a Life \<Rightarrow> 'a Life" where
  "bgp_mesh env c l =
     (let cfg = e_cfg env; as = int (unat (cfg_SetBGP cfg)); lport = cfg_ListenBGPPort cfg;
          peers = bgp_peers env c (lf_mgr l);
          l = bgp_send env c (CreateGlobalConfig (makeLoxiLBBGPGlobalModel as (Host c) (\<not> PeeringOnly c) lport)) l
      in fold (\<lambda>peer l.
           bgp_send env peer (CreateNeigh (makeLoxiLBBGNeighModel as (Host c) lport False))
             (bgp_send env c (CreateNeigh (makeLoxiLBBGNeighModel as (Host peer) lport False)) l)) peers l)"

text \<open>An external peer \<open>ip:as\<close>: \<open>None\<close> when it is passed over.\<close>

definition ext_peer :: "string \<Rightarrow> (IP \<times> int) option go" where
  "ext_peer url =
     (let parts = split_on CHR '':'' url in
      if 2 < length parts then Ret None
      else
        (let ip = ParseIP (parts ! 0) in
         if ip = [] then Ret None
         else if length parts < 2 then Panic ''index out of range''
         else (case Atoi (parts ! 1) of
                 None \<Rightarrow> Ret None | Some asid \<Rightarrow> Ret (if asid = 0 then None else Some (ip, asid)))))"

definition bgp_external :: "'a lb_env \<Rightarrow> LoxiClient \<Rightarrow> 'a Life \<Rightarrow> 'a Life go" where
  "bgp_external env c l =
     go_fold (\<lambda>url l. go_map (\<lambda>r.
         case r of
           None \<Rightarrow> l
         | Some (ip, asid) \<Rightarrow>
             bgp_send env c (CreateNeigh (makeLoxiLBBGNeighModel asid (IP_String ip) 0 (cfg_EBGPMultiHop (e_cfg env)))) l)
       (ext_peer url)) (cfg_ExtBGPPeers (e_cfg env)) l"

definition bgp_event :: "'a lb_env \<Rightarrow> LoxiClient \<Rightarrow> 'a Life \<Rightarrow> 'a Life go" where
  "bgp_event env c l =
     (if cfg_SetBGP (e_cfg env) \<noteq> 0 then
        (let l = bgp_mesh env c l in if \<not> PeeringOnly c then bgp_external env c l else Ret l)
      else Ret l)"

subsection \<open>Reinstalling the rules\<close>

fun try_install ::
  "'a lb_env \<Rightarrow> nat \<Rightarrow> LoxiClient \<Rightarrow> LoadBalancerModel \<Rightarrow> bool \<Rightarrow> 'a Manager \<Rightarrow> 'a Manager \<times> bool" where
  "try_install env 0 c lb prefLocal m = (m, False)"
| "try_install env (Suc n) c lb prefLocal m =
     (case installLB env c lb prefLocal m of
        (m, None) \<Rightarrow> (m, True)
      | (m, Some e) \<Rightarrow> if \<not> contains_str e ''exist'' then try_install env n c lb prefLocal m else (m, True))"

text \<open>\<open>isSuccess\<close> is declared in front of all loops: it is never reset.\<close>

fun reinstall_loop ::
  "'a lb_env \<Rightarrow> LoxiClient \<Rightarrow> (LoadBalancerModel \<times> bool) list \<Rightarrow> bool \<Rightarrow> 'a Manager \<Rightarrow> 'a Manager go" where
  "reinstall_loop env c [] isSuccess m = Ret m"
| "reinstall_loop env c ((lb, prefLocal) # r) isSuccess m =
     (case try_install env 5 c lb prefLocal m of
        (m, ok) \<Rightarrow>
          (let isSuccess = isSuccess \<or> ok in
           if \<not> isSuccess \<and> IsAlive c then Exit ''restart kube-loxilb''
           else reinstall_loop env c r isSuccess m))"

definition cached_rules :: "'a Manager \<Rightarrow> (LoadBalancerModel \<times> bool) list" where
  "cached_rules m =
     [(lb, ce_PrefLocal e). (_, e) \<leftarrow> lbCache m, (_, sp) \<leftarrow> ce_LbServicePairs e, lb \<leftarrow> se_LbModelList sp]"

definition reinstall :: "'a lb_env \<Rightarrow> LoxiClient \<Rightarrow> 'a Manager \<Rightarrow> 'a Manager go" where
  "reinstall env c m = reinstall_loop env c (cached_rules m) False m"

definition alive_roles :: "'a lb_env \<Rightarrow> LoxiClient \<Rightarrow> 'a Manager \<Rightarrow> 'a Manager go" where
  "alive_roles env c m =
     (let cfg = e_cfg env in
      if cfg_SetRoles cfg \<noteq> [] \<and> \<not> PeeringOnly c then
        go_map (\<lambda>m. report_roles env (current m c) m)
          (if \<not> ElectionRunOnce m then
             go_map (\<lambda>(cs, selMaster, _). m\<lparr>LoxiClients := cs, ElectionRunOnce := selMaster\<rparr>)
               (SelectLoxiLBRoles (zoneInstRoleMap m) (cfg_SetRoles cfg) (cfg_ExclIPAM cfg) False (LoxiClients m))
           else Ret m)
      else Ret m)"

definition alive_event :: "'a lb_env \<Rightarrow> LoxiClient \<Rightarrow> 'a Life \<Rightarrow> 'a Life go" where
  "alive_event env c l =
     (let l = l\<lparr>lf_flags := removeAll (cl_Url c) (lf_flags l)\<rparr> in
      go_bind (alive_roles env c (lf_mgr l)) (\<lambda>m.
      go_bind (bgp_event env c (l\<lparr>lf_mgr := m\<rparr>)) (\<lambda>l.
        if \<not> PeeringOnly c then go_map (\<lambda>m. l\<lparr>lf_mgr := m\<rparr>) (reinstall env (current (lf_mgr l) c) (lf_mgr l))
        else Ret l)))"

subsection \<open>Instance addresses\<close>

definition status_update :: "'a lb_env \<Rightarrow> 'a Manager \<Rightarrow> Service \<Rightarrow> 'a Manager" where
  "status_update env m svc =
     (if sv_LoadBalancerClass svc = Some (cfg_LoxilbLoadBalancerClass (e_cfg env)) \<and>
         serviceHasZeroCIDRPool (e_cfg env) svc
      then m\<lparr>statusLog := statusLog m @
               [svc\<lparr>sv_Ingress := map (\<lambda>ip. \<lparr>ing_IP = ip, ing_Hostname = []\<rparr>) (genExtIPName env m ''0.0.0.0'')\<rparr>]\<rparr>
      else m)"

definition updateAllLoxiLBServiceStatus :: "'a lb_env \<Rightarrow> 'a Manager \<Rightarrow> 'a Manager \<times> error option" where
  "updateAllLoxiLBServiceStatus env m =
     (case list_namespaces (e_kube env) of
        Inl e \<Rightarrow> (m, Some e)
      | Inr nss \<Rightarrow>
          (fold (\<lambda>ns m.
             case list_services (e_kube env) ns of
               Inl _ \<Rightarrow> m
             | Inr svcs \<Rightarrow> fold (\<lambda>svc m. status_update env m svc) svcs m) nss m, None))"

text \<open>The new state and whether \<open>instAddrApplyCh\<close> is signalled.\<close>

definition AddLoxiInstAddr :: "string \<Rightarrow> IP \<Rightarrow> 'a Manager \<Rightarrow> 'a Manager \<times> bool" where
  "AddLoxiInstAddr name IP m =
     (case map_of (loxiInstAddrMap m) name of
        Some ip \<Rightarrow>
          if IP_Equal ip IP then (m, False)
          else (m\<lparr>loxiInstAddrMap := AList.update name IP (loxiInstAddrMap m)\<rparr>, False)
      | None \<Rightarrow> (m\<lparr>loxiInstAddrMap := AList.update name IP (loxiInstAddrMap m)\<rparr>, True))"

definition DeleteLoxiInstAddr :: "string \<Rightarrow> 'a Manager \<Rightarrow> 'a Manager \<times> bool" where
  "DeleteLoxiInstAddr name m =
     (if has_key (loxiInstAddrMap m) name
      then (m\<lparr>loxiInstAddrMap := AList.delete name (loxiInstAddrMap m)\<rparr>, True) else (m, False))"

text \<open>One event of \<open>manageLoxiLbLifeCycle\<close>.\<close>

datatype life_event = InstAddrApply | ClientSelMaster | ClientPurge LoxiClient | ClientAlive LoxiClient

fun life_step :: "'a lb_env \<Rightarrow> life_event \<Rightarrow> 'a Life \<Rightarrow> 'a Life go" where
  "life_step env InstAddrApply l = Ret (l\<lparr>lf_mgr := fst (updateAllLoxiLBServiceStatus env (lf_mgr l))\<rparr>)"
| "life_step env ClientSelMaster l = Ret (l\<lparr>lf_mgr := sel_master_event env (lf_mgr l)\<rparr>)"
| "life_step env (ClientPurge c) l = Ret (l\<lparr>lf_mgr := purge_event env c (lf_mgr l)\<rparr>)"
| "life_step env (ClientAlive c) l = alive_event env c l"

subsection \<open>CIDR pools\<close>

text \<open>The address of a valid pool definition; \<open>[]\<close>, the nil address, for a range.\<close>

definition check_pool_def :: "'a loxilib \<Rightarrow> string \<Rightarrow> error + IP" where
  "check_pool_def tk cidr =
     (case ParseCIDR cidr of
        Some (addr, _) \<Rightarrow> Inr addr
      | None \<Rightarrow>
          if contains_str cidr ''-'' then
            (let ipBlock = split_on CHR ''-'' cidr in
             if length ipBlock \<noteq> 2 then Inl ''invalid ip-range''
             else
               (let start = ParseIP (ipBlock ! 0); lst = ParseIP (ipBlock ! 1) in
                if start = [] \<or> lst = [] then Inl ''invalid ip-range ips''
                else if IsNetIPv4 tk (IP_String start) \<and> IsNetIPv6 tk (IP_String lst) \<or>
                        IsNetIPv6 tk (IP_String start) \<and> IsNetIPv4 tk (IP_String lst)
                then Inl ''invalid ip-types ips''
                else Inr []))
          else Inl (''invalid CIDR address: '' @ cidr))"

definition AddLoxiCIDRPool :: "'a lb_env \<Rightarrow> string \<Rightarrow> string \<Rightarrow> 'a Manager \<Rightarrow> 'a Manager \<times> error option" where
  "AddLoxiCIDRPool env poolName cidr m =
     (let tk = e_tk env; shared = \<not> cfg_ExclIPAM (e_cfg env) in
      case check_pool_def tk cidr of
        Inl e \<Rightarrow> (m, Some e)
      | Inr addr \<Rightarrow>
          (let v6 = IsNetIPv6 tk (IP_String addr); tbl = (if v6 then ip6PoolTbl m else ipPoolTbl m) in
           case map_of tbl poolName of
             Some p \<Rightarrow>
               if CIDR (poolStore m ! p) \<noteq> cidr then
                 (case NewIPPool tk (IpAllocatorNew tk) cidr shared of
                    Inl e \<Rightarrow> (m, Some e)
                  | Inr _ \<Rightarrow> (m, None))
               else (m, None)
           | None \<Rightarrow>
               (case NewIPPool tk (IpAllocatorNew tk) cidr shared of
                  Inl e \<Rightarrow> (m, Some e)
                | Inr q \<Rightarrow>
                    (let m = m\<lparr>poolStore := poolStore m @ [q]\<rparr>;
                         tbl = AList.update poolName (length (poolStore m) - 1) tbl
                     in (if v6 then m\<lparr>ip6PoolTbl := tbl\<rparr> else m\<lparr>ipPoolTbl := tbl\<rparr>, None)))))"

definition DeleteLoxiCIDRPool :: "'a lb_env \<Rightarrow> string \<Rightarrow> string \<Rightarrow> 'a Manager \<Rightarrow> 'a Manager \<times> error option" where
  "DeleteLoxiCIDRPool env poolName cidr m =
     (let tk = e_tk env in
      case check_pool_def tk cidr of
        Inl e \<Rightarrow> (m, Some e)
      | Inr addr \<Rightarrow>
          (let v6 = IsNetIPv6 tk (IP_String addr); tbl = (if v6 then ip6PoolTbl m else ipPoolTbl m) in
           if \<not> has_key tbl poolName then (m, None)
           else (if v6 then m\<lparr>ip6PoolTbl := AList.delete poolName tbl\<rparr>
                 else m\<lparr>ipPoolTbl := AList.delete poolName tbl\<rparr>, None)))"

subsection \<open>Stale rules\<close>

definition rule_service :: "string \<Rightarrow> (string \<times> string) option" where
  "rule_service ruleName =
     (let lbSvcName = fields_func (\<lambda>c. c = CHR ''_'' \<or> c = CHR '':'') ruleName in
      if length lbSvcName < 2 \<or> lbSvcName ! 0 = ''snat'' then None else Some (lbSvcName ! 0, lbSvcName ! 1))"

definition stale :: "'a lb_env \<Rightarrow> LoadBalancerModel \<Rightarrow> bool" where
  "stale env l =
     (\<not> svc_Snat (lb_Service l) \<and>
      (case rule_service (svc_Name (lb_Service l)) of
         None \<Rightarrow> False
       | Some (ns, name) \<Rightarrow> (case get_service (e_kube env) ns name of Inl _ \<Rightarrow> True | Inr _ \<Rightarrow> False)))"

fun delete_stale ::
  "'a lb_env \<Rightarrow> LoxiClient \<Rightarrow> LoadBalancerModel list \<Rightarrow> 'a Manager \<Rightarrow> 'a Manager \<times> error option" where
  "delete_stale env c [] m = (m, None)"
| "delete_stale env c (l # ls) m =
     (if stale env l then
        (case api_send env c (LbDelete l) m of
           (m, Some e) \<Rightarrow> (m, Some e) | (m, None) \<Rightarrow> delete_stale env c ls m)
      else delete_stale env c ls m)"

text \<open>\<open>listing\<close> is what the instances answer to \<open>List\<close>.\<close>

fun compare_clients ::
  "'a lb_env \<Rightarrow> (LoxiClient \<Rightarrow> LoadBalancerModel list \<times> error option) \<Rightarrow> LoxiClient list \<Rightarrow> 'a Manager \<Rightarrow>
   'a Manager \<times> error option" where
  "compare_clients env listing [] m = (m, None)"
| "compare_clients env listing (c # cs) m =
     (case listing c of
        (_, Some e) \<Rightarrow> (m, Some e)
      | (ls, None) \<Rightarrow>
          (case delete_stale env c ls m of
             (m, Some e) \<Rightarrow> (m, Some e) | (m, None) \<Rightarrow> compare_clients env listing cs m))"

definition compareLoxiLBToK8sService ::
  "'a lb_env \<Rightarrow> (LoxiClient \<Rightarrow> LoadBalancerModel list \<times> error option) \<Rightarrow> 'a Manager \<Rightarrow> 'a Manager \<times> error option" where
  "compareLoxiLBToK8sService env listing m = compare_clients env listing (LoxiClients m) m"

subsection \<open>The work queue\<close>

text \<open>What an informer hands to the handler: a service, a deleted one, or something else.\<close>

datatype informer_obj = ObjService Service | ObjDeleted "Service option" | ObjOther

definition enqueueService :: "informer_obj \<Rightarrow> (string \<times> string) list \<Rightarrow> (string \<times> string) list go" where
  "enqueueService obj queue =
     (let add = (\<lambda>svc. if sv_Type svc \<noteq> ''LoadBalancer'' then Ret queue
                       else Ret (queue @ (if (sv_Namespace svc, sv_Name svc) \<in> set queue then []
                                          else [(sv_Namespace svc, sv_Name svc)])))
      in case obj of
           ObjService svc \<Rightarrow> add svc
         | ObjDeleted (Some svc) \<Rightarrow> add svc
         | ObjDeleted None \<Rightarrow> Panic ''nil pointer dereference''
         | ObjOther \<Rightarrow> Ret queue)"

text \<open>
  \<open>processNextWorkItem\<close>: the first key is taken; after a failure it is put back, which the
  rate limiter delays.
\<close>

definition processNextWorkItem ::
  "'a lb_env \<Rightarrow> (string \<times> string) list \<times> 'a Manager \<Rightarrow> ((string \<times> string) list \<times> 'a Manager) go" where
  "processNextWorkItem env st =
     (case st of
        ([], m) \<Rightarrow> Ret ([], m)
      | ((ns, name) # queue, m) \<Rightarrow>
          go_map (\<lambda>(m, err). (if err = None then queue else queue @ [(ns, name)], m)) (syncLoadBalancer env ns name m))"

subsection \<open>Discovery is exact\<close>

lemma mark_purge_simps [simp]:
  "Host (mark_purge ips v) = Host v" "Purge (mark_purge ips v) \<longleftrightarrow> Host v \<notin> set ips"
  by (auto simp: mark_purge_def list_ex_iff)

lemma new_clients_set:
  "c \<in> set (new_clients mk cs ips) \<longleftrightarrow> (\<exists>ip\<in>set ips. ip \<notin> Host ` set cs \<and> mk ip = Inr c)"
proof (induction ips)
  case (Cons ip ips)
  have "c \<in> set (new_clients mk cs (ip # ips)) \<longleftrightarrow>
      ip \<notin> Host ` set cs \<and> mk ip = Inr c \<or> c \<in> set (new_clients mk cs ips)"
    by (auto simp: new_clients_def list_ex_iff split: sum.splits)
  with Cons.IH show ?case by auto
qed (simp add: new_clients_def)

text \<open>What discovery relies on of the constructor: the client of an address has this host.\<close>

definition dials :: "(string \<Rightarrow> error + LoxiClient) \<Rightarrow> string list \<Rightarrow> bool" where
  "dials mk ips = (\<forall>ip\<in>set ips. \<exists>c. mk ip = Inr c \<and> Host c = ip \<and> \<not> Purge c)"

lemma discover_exact:
  assumes "dials mk ips" and "discover mk ips cs = (cs', purged)"
  shows "Host ` set cs' = set ips"
    and "purged = map (mark_purge ips) (filter (\<lambda>v. Host v \<notin> set ips) cs)"
    and "\<exists>new. cs' = map (mark_purge ips) (filter (\<lambda>v. Host v \<in> set ips) cs) @ new \<and>
           Host ` set new \<inter> Host ` set cs = {}"
proof -
  let ?new = "new_clients mk (map (mark_purge ips) cs) ips"
  have new: "\<not> Purge c" "Host c \<in> set ips" "Host c \<notin> Host ` set cs" if "c \<in> set ?new" for c
    using that assms(1) by (fastforce simp: new_clients_set dials_def image_image)+
  have f: "filter (\<lambda>v. \<not> Purge v) ?new = ?new" "filter Purge ?new = []"
    using new(1) by (auto simp: filter_empty_conv)
  have cs': "cs' = map (mark_purge ips) (filter (\<lambda>v. Host v \<in> set ips) cs) @ ?new"
    and p: "purged = map (mark_purge ips) (filter (\<lambda>v. Host v \<notin> set ips) cs)"
    using assms(2) f by (auto simp: discover_def Let_def filter_map comp_def)
  show "purged = map (mark_purge ips) (filter (\<lambda>v. Host v \<notin> set ips) cs)" by (rule p)
  show "\<exists>new. cs' = map (mark_purge ips) (filter (\<lambda>v. Host v \<in> set ips) cs) @ new \<and>
           Host ` set new \<inter> Host ` set cs = {}"
    using cs' new(3) by (intro exI[of _ ?new]) auto
  have "ip \<in> Host ` set cs'" if ip: "ip \<in> set ips" for ip
  proof (cases "ip \<in> Host ` set cs")
    case True
    then obtain v where "v \<in> set cs" "Host v = ip" by auto
    with ip have "mark_purge ips v \<in> set cs'" by (simp add: cs')
    with \<open>Host v = ip\<close> show ?thesis by (metis imageI mark_purge_simps(1))
  next
    case False
    obtain c where "mk ip = Inr c" "Host c = ip" using assms(1) ip by (auto simp: dials_def)
    with False ip have "c \<in> set ?new" by (auto simp: new_clients_set image_image)
    with \<open>Host c = ip\<close> show ?thesis by (auto simp: cs')
  qed
  moreover have "Host ` set cs' \<subseteq> set ips" using new(2) by (auto simp: cs')
  ultimately show "Host ` set cs' = set ips" by auto
qed

lemma new_clients_none: "set ips \<subseteq> Host ` set cs \<Longrightarrow> new_clients mk cs ips = []"
  by (auto simp: new_clients_def list_ex_iff)

lemma discover_again:
  assumes "Host ` set cs = set ips" and "\<forall>c\<in>set cs. \<not> Purge c"
  shows "discover mk ips cs = (cs, [])"
proof -
  have "mark_purge ips c = c" if "c \<in> set cs" for c
  proof -
    have "Host c \<in> set ips" "\<not> Purge c" using that assms by auto
    then show ?thesis by (cases c) (simp add: mark_purge_def list_ex_iff)
  qed
  then have m: "map (mark_purge ips) cs = cs" by (simp add: map_idI)
  show ?thesis
    using assms new_clients_none[of ips cs mk]
    by (auto simp: discover_def Let_def m filter_id_conv filter_empty_conv)
qed

text \<open>
  C21. Discovery of the instances. When the endpoints of \<open>loxilb-lb-service\<close> are \<open>ips\<close> and each of
  them can be dialled, the hosts of the instances are exactly \<open>ips\<close> afterwards; a client whose
  host stays keeps everything, its roles included, except that its purge mark is cleared; the
  clients that are handed to the purge channel are those whose host is gone, each once; a
  further discovery with the same endpoints changes nothing and purges nothing.
\<close>

theorem discovery_exact:
  assumes "service_ips env ''loxilb-lb-service'' (zone_nodes env) = ips"
    and "dials (\<lambda>ip. discovered_client env d False (list_ex (\<lambda>n. n = ip) excludeList) ip) ips"
    and "DiscoverLoxiLBServices env d excludeList m = (m', purged)"
  shows "Host ` set (LoxiClients m') = set ips \<and>
    map (\<lambda>v. v\<lparr>Purge := False\<rparr>) purged = map (\<lambda>v. v\<lparr>Purge := False\<rparr>) (filter (\<lambda>v. Host v \<notin> set ips) (LoxiClients m)) \<and>
    (\<exists>new. LoxiClients m' = map (\<lambda>v. v\<lparr>Purge := False\<rparr>) (filter (\<lambda>v. Host v \<in> set ips) (LoxiClients m)) @ new \<and>
       Host ` set new \<inter> Host ` set (LoxiClients m) = {}) \<and>
    DiscoverLoxiLBServices env d excludeList m' = (m', [])"
proof -
  let ?mk = "\<lambda>ip. discovered_client env d False (list_ex (\<lambda>n. n = ip) excludeList) ip"
  obtain cs where d: "discover ?mk ips (LoxiClients m) = (cs, purged)" and m': "m' = m\<lparr>LoxiClients := cs\<rparr>"
    using assms(1,3) by (auto simp: DiscoverLoxiLBServices_def split: prod.splits)
  note ex = discover_exact[OF assms(2) d]
  have "\<forall>c\<in>set cs. \<not> Purge c" using d by (auto simp: discover_def Let_def)
  then have "DiscoverLoxiLBServices env d excludeList m' = (m', [])"
    using discover_again[OF ex(1)] assms(1) by (simp add: DiscoverLoxiLBServices_def m')
  moreover have "map (mark_purge ips) (filter (\<lambda>v. Host v \<in> set ips) xs) =
      map (\<lambda>v. v\<lparr>Purge := False\<rparr>) (filter (\<lambda>v. Host v \<in> set ips) xs)" for xs
    by (auto simp: mark_purge_def list_ex_iff)
  ultimately show ?thesis
    using ex by (auto simp: m' mark_purge_def)
qed

subsection \<open>Reinstalling\<close>

lemma reinstall_loop_success:
  "\<exists>m'. reinstall_loop env c rules True m = Ret m'"
  by (induction rules arbitrary: m) (auto split: prod.splits)

text \<open>
  When an instance comes back, all cached rules are installed on it again, each with up to five
  tries, and the process is restarted if this fails; but only the first rule counts: since the
  success flag is not reset, the process exits exactly when five tries of the first rule fail,
  and a later rule that fails is passed over.
\<close>

theorem reinstall_exits_iff:
  "reinstall env c m = Exit ''restart kube-loxilb'' \<longleftrightarrow>
     IsAlive c \<and> (case cached_rules m of [] \<Rightarrow> False
                  | (lb, prefLocal) # _ \<Rightarrow> \<not> snd (try_install env 5 c lb prefLocal m))"
proof (cases "IsAlive c")
  case True
  show ?thesis
  proof (cases "cached_rules m")
    case (Cons r rs)
    obtain lb pl where r: "r = (lb, pl)" by (cases r)
    obtain m1 ok where t: "try_install env 5 c lb pl m = (m1, ok)" by (cases "try_install env 5 c lb pl m")
    show ?thesis
      using True reinstall_loop_success[of env c rs m1]
      by (cases ok) (auto simp: reinstall_def Cons r t)
  qed (simp add: reinstall_def)
next
  case False
  have "\<exists>m'. reinstall_loop env c rules b m = Ret m'" for rules b m
    using False by (induction rules arbitrary: b m) (auto split: prod.splits)
  from this[of "cached_rules m" False m] False show ?thesis by (auto simp: reinstall_def)
qed

subsection \<open>CIDR pools\<close>

definition pool_of :: "'a Manager \<Rightarrow> bool \<Rightarrow> string \<Rightarrow> 'a IPPool option" where
  "pool_of m v6 name = map_option (\<lambda>p. poolStore m ! p) (map_of (if v6 then ip6PoolTbl m else ipPoolTbl m) name)"

text \<open>The table a pool definition belongs to: that of its address, or of the nil address for a range.\<close>

definition def_family :: "'a loxilib \<Rightarrow> string \<Rightarrow> bool" where
  "def_family tk cidr = IsNetIPv6 tk (case ParseCIDR cidr of Some (a, _) \<Rightarrow> IP_String a | None \<Rightarrow> ''<nil>'')"

lemma check_pool_def_family:
  "check_pool_def tk cidr = Inr addr \<Longrightarrow> IsNetIPv6 tk (IP_String addr) = def_family tk cidr"
  by (auto simp: check_pool_def_def def_family_def Let_def IP_String_def split: option.splits if_splits)

lemma wf_manager_tbl:
  assumes "wf_manager m" and "map_of (if v6 then ip6PoolTbl m else ipPoolTbl m) k = Some p"
  shows "p < length (poolStore m)"
  using assms map_of_SomeD[OF assms(2)] by (auto simp: wf_manager_def split: if_splits)

lemma wf_manager_more_pools:
  assumes "wf_manager m" and "wf_pool q"
  shows "wf_manager (m\<lparr>poolStore := poolStore m @ [q]\<rparr>)"
proof -
  have "wf_entry m e \<Longrightarrow> wf_entry (m\<lparr>poolStore := poolStore m @ [q]\<rparr>) e" for e
    by (auto simp: wf_entry_def)
  moreover have "p < length (poolStore m)" if "(n, p) \<in> set (ipPoolTbl m @ ip6PoolTbl m)" for n p
    using assms(1) that by (fastforce simp: wf_manager_def)
  ultimately show ?thesis using assms by (auto simp: wf_manager_def wf_pools_def intro!: less_SucI)
qed

lemma wf_manager_new_pool:
  assumes "wf_manager m" and "wf_pool q"
  shows "wf_manager (m\<lparr>poolStore := poolStore m @ [q], ipPoolTbl := AList.update name (length (poolStore m)) (ipPoolTbl m)\<rparr>)"
    "wf_manager (m\<lparr>poolStore := poolStore m @ [q], ip6PoolTbl := AList.update name (length (poolStore m)) (ip6PoolTbl m)\<rparr>)"
  using wf_manager_more_pools[OF assms]
  by (auto simp: wf_manager_def wf_pools_def wf_entry_def dest!: set_AList_update)

lemma AddLoxiCIDRPool_wf: "wf_manager m \<Longrightarrow> wf_manager (fst (AddLoxiCIDRPool env name cidr m))"
  by (auto simp: AddLoxiCIDRPool_def Let_def wf_manager_new_pool NewIPPool_wf split: sum.splits option.splits)

lemma DeleteLoxiCIDRPool_wf: "wf_manager m \<Longrightarrow> wf_manager (fst (DeleteLoxiCIDRPool env name cidr m))"
  by (auto simp: DeleteLoxiCIDRPool_def Let_def wf_manager_def wf_pools_def wf_entry_def split: sum.splits
      dest!: set_AList_delete)

lemma pool_of_more:
  assumes "wf_manager m"
  shows "pool_of (m\<lparr>poolStore := poolStore m @ [q]\<rparr>) v6 k = pool_of m v6 k"
  using wf_manager_tbl[OF assms, of v6 k]
  by (cases "map_of (if v6 then ip6PoolTbl m else ipPoolTbl m) k") (auto simp: pool_of_def nth_append split: if_splits)

text \<open>
  \<open>AddLoxiCIDRPool\<close> keeps the manager well-formed. For a name that the table of the
  definition's address family does not have, success means that exactly this name is added to
  that table, with a new pool of the given CIDR. For a name it has, nothing changes: a
  different CIDR is accepted without error, but the pool built from it is dropped. A range
  always counts as the family of the nil address, so that an IPv6 range goes to the IPv4 table.
\<close>

theorem add_cidr_pool:
  assumes "wf_manager m" and "AddLoxiCIDRPool env name cidr m = (m', err)"
  shows "wf_manager m' \<and>
    (err \<noteq> None \<or> pool_of m (def_family (e_tk env) cidr) name \<noteq> None \<longrightarrow> m' = m) \<and>
    (err = None \<and> pool_of m (def_family (e_tk env) cidr) name = None \<longrightarrow>
       (\<exists>q. pool_of m' (def_family (e_tk env) cidr) name = Some q \<and> CIDR q = cidr \<and>
            NewIPPool (e_tk env) (IpAllocatorNew (e_tk env)) cidr (\<not> cfg_ExclIPAM (e_cfg env)) = Inr q) \<and>
       (\<forall>v6 k. (v6, k) \<noteq> (def_family (e_tk env) cidr, name) \<longrightarrow> pool_of m' v6 k = pool_of m v6 k))"
proof (cases "check_pool_def (e_tk env) cidr")
  case (Inr addr)
  let ?v6 = "def_family (e_tk env) cidr"
  let ?tbl = "if ?v6 then ip6PoolTbl m else ipPoolTbl m"
  let ?new = "NewIPPool (e_tk env) (IpAllocatorNew (e_tk env)) cidr (\<not> cfg_ExclIPAM (e_cfg env))"
  note fam = check_pool_def_family[OF Inr]
  show ?thesis
  proof (cases "map_of ?tbl name")
    case None
    show ?thesis
    proof (cases ?new)
      case (Inr q)
      let ?m = "m\<lparr>poolStore := poolStore m @ [q]\<rparr>"
      let ?tbl' = "AList.update name (length (poolStore m)) ?tbl"
      have m': "m' = (if ?v6 then ?m\<lparr>ip6PoolTbl := ?tbl'\<rparr> else ?m\<lparr>ipPoolTbl := ?tbl'\<rparr>)" and "err = None"
        using assms(2) \<open>check_pool_def (e_tk env) cidr = Inr addr\<close> None Inr fam
        by (auto simp: AddLoxiCIDRPool_def Let_def split: if_splits)
      have q: "wf_pool q" "CIDR q = cidr" using NewIPPool_wf[OF Inr] by simp_all
      have "wf_manager m'" using wf_manager_new_pool[OF assms(1) q(1)] by (simp add: m')
      moreover have "pool_of m' ?v6 name = Some q"
        by (simp add: m' pool_of_def update_conv')
      moreover have "pool_of m' v6 k = pool_of m v6 k" if "(v6, k) \<noteq> (?v6, name)" for v6 k
        using that pool_of_more[OF assms(1), of q v6 k]
        by (cases v6; cases ?v6) (simp_all add: m' pool_of_def update_conv' split: if_splits)
      ultimately show ?thesis
        using q(2) Inr \<open>err = None\<close> None by (auto simp: pool_of_def)
    qed (use assms Inr None fam in \<open>auto simp: AddLoxiCIDRPool_def Let_def pool_of_def split: if_splits\<close>)
  next
    case (Some p)
    then have "m' = m"
      using assms(2) Inr fam by (auto simp: AddLoxiCIDRPool_def Let_def split: if_splits sum.splits)
    with assms(1) Some show ?thesis by (auto simp: pool_of_def)
  qed
qed (use assms in \<open>auto simp: AddLoxiCIDRPool_def Let_def\<close>)

subsection \<open>Stale rules\<close>

lemma fields_func_token:
  assumes "\<forall>c\<in>set a. \<not> P c" and "a \<noteq> []" and "P x"
  shows "fields_func P (a @ x # b) = a # fields_func P b"
proof -
  let ?f = "\<lambda>x ws. if P x then [] # ws else (case ws of [] \<Rightarrow> [[x]] | y # ys \<Rightarrow> (x # y) # ys)"
  have "foldr ?f (a @ x # b) [[]] = a # foldr ?f b [[]]"
    using assms(1,3) by (induction a) auto
  then show ?thesis using assms(2) by (simp add: fields_func_def)
qed

definition plain_label :: "string \<Rightarrow> bool" where
  "plain_label s = (s \<noteq> [] \<and> CHR ''_'' \<notin> set s \<and> CHR '':'' \<notin> set s)"

lemma rule_service_name:
  assumes "plain_label ns" "plain_label name" "ns \<noteq> ''snat''"
  shows "rule_service (ns @ ''_'' @ name @ '':'' @ inst) = Some (ns, name)"
proof -
  let ?P = "\<lambda>c. c = CHR ''_'' \<or> c = CHR '':''"
  have "fields_func ?P (ns @ CHR ''_'' # (name @ CHR '':'' # inst)) = ns # name # fields_func ?P inst"
    using assms by (subst fields_func_token; (subst fields_func_token)?) (auto simp: plain_label_def)
  then show ?thesis using assms(3) by (simp add: rule_service_def Let_def)
qed

definition stale_calls ::
  "'a lb_env \<Rightarrow> (LoxiClient \<Rightarrow> LoadBalancerModel list \<times> error option) \<Rightarrow> LoxiClient list \<Rightarrow> (string \<times> api_call) list" where
  "stale_calls env listing cs = [(cl_Url c, LbDelete l). c \<leftarrow> cs, l \<leftarrow> filter (stale env) (fst (listing c))]"

lemma delete_stale_ok:
  "set (answers env (apiLog m) (map (\<lambda>l. (cl_Url c, LbDelete l)) (filter (stale env) ls))) \<subseteq> {None} \<Longrightarrow>
   delete_stale env c ls m =
     (m\<lparr>apiLog := apiLog m @ map (\<lambda>l. (cl_Url c, LbDelete l)) (filter (stale env) ls)\<rparr>, None)"
  by (induction ls arbitrary: m) (auto simp: api_send_def)

lemma compare_ok:
  assumes "\<forall>c\<in>set cs. snd (listing c) = None"
    and "set (answers env (apiLog m) (stale_calls env listing cs)) \<subseteq> {None}"
  shows "compare_clients env listing cs m = (m\<lparr>apiLog := apiLog m @ stale_calls env listing cs\<rparr>, None)"
  using assms
proof (induction cs arbitrary: m)
  case (Cons c cs)
  obtain ls where ls: "listing c = (ls, None)" using Cons.prems(1) by (cases "listing c") auto
  let ?calls = "map (\<lambda>l. (cl_Url c, LbDelete l)) (filter (stale env) ls)"
  have split: "stale_calls env listing (c # cs) = ?calls @ stale_calls env listing cs"
    by (simp add: stale_calls_def ls)
  have "set (answers env (apiLog m) ?calls) \<subseteq> {None}"
    using Cons.prems(2) by (auto simp: split answers_append)
  from delete_stale_ok[OF this] Cons split show ?case by (simp add: ls answers_append)
qed (simp add: stale_calls_def)

text \<open>
  C32. Removal of stale rules. If the instances list their rules and accept the deletes,
  \<open>compareLoxiLBToK8sService\<close> deletes exactly the stale rules of each instance, and a rule that
  \<open>makeLoxiLoadBalancerModel\<close> makes for a service is stale exactly when Kubernetes does not
  have that service any more: the name of the rule gives the service back.
\<close>

theorem stale_rules_removed:
  assumes "\<forall>c\<in>set (LoxiClients m). snd (listing c) = None"
    and "set (answers env (apiLog m) (stale_calls env listing (LoxiClients m))) \<subseteq> {None}"
    and "plain_label (sv_Namespace svc)" "plain_label (sv_Name svc)" "sv_Namespace svc \<noteq> ''snat''"
    and "makeLoxiLoadBalancerModel env args svc port = Inr lb"
  shows "compareLoxiLBToK8sService env listing m =
      (m\<lparr>apiLog := apiLog m @ stale_calls env listing (LoxiClients m)\<rparr>, None) \<and>
    (stale env lb \<longleftrightarrow> (\<exists>e. get_service (e_kube env) (sv_Namespace svc) (sv_Name svc) = Inl e))"
proof
  show "compareLoxiLBToK8sService env listing m =
      (m\<lparr>apiLog := apiLog m @ stale_calls env listing (LoxiClients m)\<rparr>, None)"
    using compare_ok[OF assms(1,2)] by (simp add: compareLoxiLBToK8sService_def)
  have "svc_Name (lb_Service lb) = sv_Namespace svc @ ''_'' @ sv_Name svc @ '':'' @ a_inst args"
    "\<not> svc_Snat (lb_Service lb)"
    using assms(6) by (auto simp: makeLoxiLoadBalancerModel_def Let_def zero_service_def split: sum.splits)
  then show "stale env lb \<longleftrightarrow> (\<exists>e. get_service (e_kube env) (sv_Namespace svc) (sv_Name svc) = Inl e)"
    using rule_service_name[OF assms(3-5)] by (auto simp: stale_def split: sum.splits)
qed

subsection \<open>Witnesses\<close>

text \<open>A parser for URLs of the form \<open>http://host\<close>.\<close>

definition demo_dial :: dial where
  "demo_dial = \<lparr>url_Parse = (\<lambda>u. if has_prefix u ''http://'' then Inr (''http'', drop 7 u) else Inl ''no scheme''),
     sys_certs = True, time_now = 0\<rparr>"

theorem discovery_exact_witness:
  "\<exists>m' purged. DiscoverLoxiLBServices (demo_env accept) demo_dial [] demo_manager = (m', purged) \<and>
     Host ` set (LoxiClients m') = {''10.244.1.5''} \<and> length purged = 1"
proof -
  obtain m' purged where r: "DiscoverLoxiLBServices (demo_env accept) demo_dial [] demo_manager = (m', purged)"
    by (cases "DiscoverLoxiLBServices (demo_env accept) demo_dial [] demo_manager")
  have ips: "service_ips (demo_env accept) ''loxilb-lb-service'' (zone_nodes (demo_env accept)) = [''10.244.1.5'']"
    by code_simp
  have "case discovered_client (demo_env accept) demo_dial False False ''10.244.1.5'' of
      Inl _ \<Rightarrow> False | Inr c \<Rightarrow> Host c = ''10.244.1.5'' \<and> \<not> Purge c"
    by code_simp
  then have "dials (\<lambda>ip. discovered_client (demo_env accept) demo_dial False (list_ex (\<lambda>n. n = ip) []) ip) [''10.244.1.5'']"
    by (auto simp: dials_def split: sum.splits)
  note d = discovery_exact[OF ips this r]
  have "map (\<lambda>v. v\<lparr>Purge := False\<rparr>) purged = map (\<lambda>v. v\<lparr>Purge := False\<rparr>) [demo_client]"
    using d by (simp add: demo_manager_def demo_client_def)
  then have "length purged = 1" using map_eq_imp_length_eq by fastforce
  with d r show ?thesis by auto
qed

theorem add_cidr_pool_witness:
  "\<exists>m'. AddLoxiCIDRPool (demo_env accept) ''defaultPool'' ''20.0.0.0/8'' demo_manager = (m', None) \<and>
        m' = demo_manager \<and>
     (\<exists>m'' q. AddLoxiCIDRPool (demo_env accept) ''more'' ''20.0.0.0/8'' demo_manager = (m'', None) \<and>
        pool_of m'' False ''more'' = Some q \<and> CIDR q = ''20.0.0.0/8'')"
proof -
  let ?env = "demo_env accept"
  have fam: "def_family (e_tk ?env) ''20.0.0.0/8'' = False" by code_simp
  have "snd (AddLoxiCIDRPool ?env ''defaultPool'' ''20.0.0.0/8'' demo_manager) = None"
    "snd (AddLoxiCIDRPool ?env ''more'' ''20.0.0.0/8'' demo_manager) = None"
    by (code_simp, code_simp)
  then obtain m' m'' where r: "AddLoxiCIDRPool ?env ''defaultPool'' ''20.0.0.0/8'' demo_manager = (m', None)"
    "AddLoxiCIDRPool ?env ''more'' ''20.0.0.0/8'' demo_manager = (m'', None)"
    by (metis prod.collapse)
  have p: "pool_of demo_manager False ''defaultPool'' \<noteq> None" "pool_of demo_manager False ''more'' = None"
    by (simp_all add: pool_of_def demo_manager_def)
  have "m' = demo_manager" using add_cidr_pool[OF demo_manager_wf r(1)] p(1) unfolding fam by blast
  moreover obtain q where "pool_of m'' False ''more'' = Some q" "CIDR q = ''20.0.0.0/8''"
    using add_cidr_pool[OF demo_manager_wf r(2)] p(2) unfolding fam by blast
  ultimately show ?thesis using r by metis
qed

text \<open>A cluster in which only the service \<open>web\<close> is left; the service \<open>old\<close> is gone.\<close>

definition web_env :: "(string \<times> string) list lb_env" where
  "web_env = (demo_env accept)\<lparr>e_kube := demo_kube\<lparr>get_service := \<lambda>ns n. if n = ''web'' then Inr demo_svc else Inl ''not found''\<rparr>\<rparr>"

definition old_svc :: Service where
  "old_svc = demo_svc\<lparr>sv_Name := ''old''\<rparr>"

theorem stale_rules_removed_witness:
  "\<exists>lb old. makeLoxiLoadBalancerModel web_env demo_args demo_svc demo_port = Inr lb \<and>
     makeLoxiLoadBalancerModel web_env demo_args old_svc demo_port = Inr old \<and>
     compareLoxiLBToK8sService web_env (\<lambda>c. ([lb, old], None)) demo_manager =
       (demo_manager\<lparr>apiLog := [(cl_Url demo_client, LbDelete old)]\<rparr>, None)"
proof -
  obtain lb where lb: "makeLoxiLoadBalancerModel web_env demo_args demo_svc demo_port = Inr lb"
    by (cases "makeLoxiLoadBalancerModel web_env demo_args demo_svc demo_port") (code_simp, blast)
  obtain old where old: "makeLoxiLoadBalancerModel web_env demo_args old_svc demo_port = Inr old"
    by (cases "makeLoxiLoadBalancerModel web_env demo_args old_svc demo_port") (code_simp, blast)
  let ?listing = "\<lambda>c :: LoxiClient. ([lb, old], None :: error option)"
  have none: "answers web_env log xs = replicate (length xs) None" for log xs
    by (induction xs arbitrary: log) (auto simp: accept_def web_env_def)
  have acc: "set (answers web_env (apiLog demo_manager) (stale_calls web_env ?listing (LoxiClients demo_manager))) \<subseteq> {None}"
    unfolding none by auto
  have l: "\<forall>c\<in>set (LoxiClients demo_manager). snd (?listing c) = None" by simp
  have p: "plain_label (sv_Namespace svc)" "plain_label (sv_Name svc)" "sv_Namespace svc \<noteq> ''snat''" if "svc \<in> {demo_svc, old_svc}" for svc
    using that by (auto simp: plain_label_def demo_svc_def old_svc_def)
  have gone: "get_service (e_kube web_env) ns n = (if n = ''web'' then Inr demo_svc else Inl ''not found'')" for ns n
    by (simp add: web_env_def)
  have names: "sv_Name demo_svc = ''web''" "sv_Name old_svc = ''old''" by (simp_all add: demo_svc_def old_svc_def)
  have "\<not> stale web_env lb" "stale web_env old"
    using stale_rules_removed[OF l acc p lb] stale_rules_removed[OF l acc p old] by (simp_all add: gone names)
  then have "stale_calls web_env ?listing (LoxiClients demo_manager) = [(cl_Url demo_client, LbDelete old)]" "apiLog demo_manager = []"
    by (simp_all add: stale_calls_def demo_manager_def)
  then show ?thesis using stale_rules_removed[OF l acc p lb] lb old by auto
qed

end
