(* ===== verification/Lb_Recovery.thy ===== *)
theory Lb_Recovery
  imports Lb_Tables Lb_Lifecycle
begin

text \<open>
  An instance that comes up, new or after a restart, has no rules. \<open>manageLoxiLbLifeCycle\<close> then installs
  the cached rules on it. This theory says what its table holds afterwards.
\<close>

subsection \<open>The calls\<close>

lemma install_accepted:
  "accepts env \<Longrightarrow>
   installLB env c lb b m = (m\<lparr>apiLog := apiLog m @ [(cl_Url c, LbCreate (client_rule c lb b))]\<rparr>, None)"
  by (simp add: installLB_def api_send_def client_rule_def accepts_def Let_def)

definition refill_calls :: "LoxiClient \<Rightarrow> (LoadBalancerModel \<times> bool) list \<Rightarrow> (string \<times> api_call) list" where
  "refill_calls c rules = map (\<lambda>(lb, b). (cl_Url c, LbCreate (client_rule c lb b))) rules"

lemma reinstall_loop_accepted:
  assumes "accepts env"
  shows "reinstall_loop env c rules ok m = Ret (m\<lparr>apiLog := apiLog m @ refill_calls c rules\<rparr>)"
proof (induction rules arbitrary: ok m)
  case (Cons r rules)
  obtain lb b where r: "r = (lb, b)" by (cases r)
  have "try_install env 5 c lb b m = (m\<lparr>apiLog := apiLog m @ [(cl_Url c, LbCreate (client_rule c lb b))]\<rparr>, True)"
    by (simp add: numeral_eq_Suc install_accepted[OF assms])
  then show ?case by (simp add: r Cons.IH refill_calls_def)
qed (simp add: refill_calls_def)

subsection \<open>The table\<close>

lemma refill_table:
  assumes "accepts env" and "\<forall>(lb, b)\<in>set rules. svc_Oper (lb_Service lb) = 0" and "distinct (map (\<lambda>(lb, b). rule_key lb) rules)"
  shows "replay env (cl_Url c) pre (refill_calls c rules) Map.empty =
    map_of (map (\<lambda>(lb, b). (rule_key lb, client_rule c lb b)) rules)"
proof -
  have "replay env (cl_Url c) pre (refill_calls c rules) Map.empty =
      fold (\<lambda>(lb, b). table_step (LbCreate (client_rule c lb b))) rules Map.empty"
    by (simp add: replay_accepts[OF assms(1)] refill_calls_def fold_map comp_def split_def)
  also have "\<dots> = fold (\<lambda>r t. t((\<lambda>(lb, b). rule_key lb) r \<mapsto> (\<lambda>(lb, b). client_rule c lb b) r)) rules Map.empty"
    using assms(2) by (intro fold_cong) (auto simp: table_step_def fun_eq_iff)
  also have "\<dots> = Map.empty ++ map_of (map (\<lambda>r. ((\<lambda>(lb, b). rule_key lb) r, (\<lambda>(lb, b). client_rule c lb b) r)) rules)"
    by (rule fold_updates[OF assms(3)])
  finally show ?thesis by (simp add: split_def)
qed

lemma cached_rules_set:
  "(lb, b) \<in> set (cached_rules m) \<longleftrightarrow> (\<exists>key e. (key, e) \<in> set (lbCache m) \<and> lb \<in> set (entry_models e) \<and> b = ce_PrefLocal e)"
  by (fastforce simp: cached_rules_def entry_models_def)

lemma held_cached_rules:
  assumes "distinct (map fst (lbCache m))" and "\<forall>(lb, b)\<in>set (cached_rules m). lb_Endpoints lb \<noteq> []"
  shows "held_rules m c = {(rule_key lb, client_rule c lb b) | lb b. (lb, b) \<in> set (cached_rules m)}"
proof (intro set_of_pairs_eq iffI)
  fix k r assume "(k, r) \<in> held_rules m c"
  then obtain key where "(k, r) \<in> entry_held c (map_of (lbCache m) key)" by (auto simp: held_rules_def)
  then obtain e lb where "map_of (lbCache m) key = Some e" "lb \<in> set (entry_models e)" "k = rule_key lb" "r = client_rule c lb (ce_PrefLocal e)"
    by (cases "map_of (lbCache m) key") (auto simp: entry_held_def)
  then show "(k, r) \<in> {(rule_key lb, client_rule c lb b) | lb b. (lb, b) \<in> set (cached_rules m)}"
    using map_of_SomeD by (fastforce simp: cached_rules_set)
next
  fix k r assume "(k, r) \<in> {(rule_key lb, client_rule c lb b) | lb b. (lb, b) \<in> set (cached_rules m)}"
  then obtain lb b where lb: "(lb, b) \<in> set (cached_rules m)" "k = rule_key lb" "r = client_rule c lb b" by blast
  then obtain key e where e: "(key, e) \<in> set (lbCache m)" "lb \<in> set (entry_models e)" "b = ce_PrefLocal e"
    by (auto simp: cached_rules_set)
  have "map_of (lbCache m) key = Some e" using e(1) assms(1) by simp
  moreover have "lb_Endpoints lb \<noteq> []" using assms(2) lb(1) by blast
  then have "(k, r) \<in> entry_held c (Some e)" using e lb by (auto simp: entry_held_def)
  ultimately show "(k, r) \<in> held_rules m c" unfolding held_rules_def by (metis UN_I UNIV_I)
qed

text \<open>
  C8. An instance that comes up is brought up to date. When it takes every call, it is sent each cached
  rule once, and its table, empty before, then has exactly the cached rules, as they are for this
  instance. When all cached rules have endpoints, these are the rules that every other instance has by
  the agreement of cache and tables; the rules of a service without endpoints, which were deleted from the other instances,
  are installed on this one with no endpoint.
\<close>

theorem returning_instance_refilled:
  assumes "accepts env" and "\<forall>(lb, b)\<in>set (cached_rules m). svc_Oper (lb_Service lb) = 0"
    and "distinct (map (\<lambda>(lb, b). rule_key lb) (cached_rules m))" and "distinct (map fst (lbCache m))"
  shows "\<exists>m'. reinstall env c m = Ret m' \<and> lbCache m' = lbCache m \<and> apiLog m' = apiLog m @ refill_calls c (cached_rules m) \<and>
    Map.graph (replay env (cl_Url c) (apiLog m) (refill_calls c (cached_rules m)) Map.empty) =
      {(rule_key lb, client_rule c lb b) | lb b. (lb, b) \<in> set (cached_rules m)} \<and>
    ((\<forall>(lb, b)\<in>set (cached_rules m). lb_Endpoints lb \<noteq> []) \<longrightarrow>
       Map.graph (replay env (cl_Url c) (apiLog m) (refill_calls c (cached_rules m)) Map.empty) = held_rules m c)"
proof -
  let ?new = "map (\<lambda>(lb, b). (rule_key lb, client_rule c lb b)) (cached_rules m)"
  have "distinct (map fst ?new)" using assms(3) by (simp add: comp_def split_def)
  then have "(k, r) \<in> Map.graph (map_of ?new) \<longleftrightarrow> (k, r) \<in> set ?new" for k r
    unfolding in_graph_iff by (rule map_of_eq_Some_iff)
  then have "Map.graph (map_of ?new) = set ?new" by (rule set_of_pairs_eq)
  also have "set ?new = {(rule_key lb, client_rule c lb b) | lb b. (lb, b) \<in> set (cached_rules m)}" by force
  finally have g: "Map.graph (replay env (cl_Url c) (apiLog m) (refill_calls c (cached_rules m)) Map.empty) =
      {(rule_key lb, client_rule c lb b) | lb b. (lb, b) \<in> set (cached_rules m)}" by (simp add: refill_table[OF assms(1-3)])
  show ?thesis
    using g held_cached_rules[OF assms(4)] by (auto simp: reinstall_def reinstall_loop_accepted[OF assms(1)])
qed

theorem returning_instance_refilled_witness:
  "\<exists>m'. reinstall (demo_env accept) demo_client loaded_manager = Ret m' \<and> cached_rules loaded_manager = [(demo_rule, False)] \<and>
     Map.graph (replay (demo_env accept) (cl_Url demo_client) (apiLog loaded_manager)
       (refill_calls demo_client (cached_rules loaded_manager)) Map.empty) = {(rule_key demo_rule, demo_rule)}"
proof -
  have rules: "cached_rules loaded_manager = [(demo_rule, False)]"
    by (simp add: cached_rules_def loaded_manager_def demo_entry_def demo_pair_entry_def)
  have acc: "accepts (demo_env accept)" by (simp add: accepts_def accept_def)
  have "svc_Oper (lb_Service demo_rule) = 0" "distinct (map fst (lbCache loaded_manager))" by code_simp+
  then have "\<exists>m'. reinstall (demo_env accept) demo_client loaded_manager = Ret m' \<and>
      Map.graph (replay (demo_env accept) (cl_Url demo_client) (apiLog loaded_manager)
        (refill_calls demo_client (cached_rules loaded_manager)) Map.empty) = {(rule_key lb, client_rule demo_client lb b) | lb b. (lb, b) \<in> set (cached_rules loaded_manager)}"
    using returning_instance_refilled[OF acc, of loaded_manager demo_client] rules by auto
  then show ?thesis using rules by (auto simp: client_rule_def)
qed

end
