(* ===== verification/Crd_Queue.thy ===== *)
theory Crd_Queue
  imports Lb_Correct
begin

text \<open>
  What the managers of custom resources share: the handlers that put objects of an informer on
  the work queue and take them off, and the calls that go to every loxilb instance. The client
  pool is shared between all managers, so that the state is the \<open>Manager\<close> record, of which
  these managers read the clients and extend the log of calls.

  The queue holds pointers, each an address and the object found there: client-go keeps one
  entry per pointer, and delivers one object under several pointers when it changes. An item is
  \<open>None\<close> for the nil pointer that \<open>enqueueService\<close> adds after a failed conversion.
\<close>

type_synonym 'o ptr = "nat \<times> 'o"

datatype 'o informer_item = Item "'o ptr" | Tombstone "'o ptr option" | Unexpected

definition queue_Add :: "'o ptr option \<Rightarrow> 'o ptr option list \<Rightarrow> 'o ptr option list" where
  "queue_Add p queue = (if p \<in> set queue then queue else queue @ [p])"

definition enqueue_object :: "'o informer_item \<Rightarrow> 'o ptr option list \<Rightarrow> 'o ptr option list" where
  "enqueue_object obj queue =
     (case obj of
        Item p \<Rightarrow> queue_Add (Some p) queue
      | Tombstone p \<Rightarrow> queue_Add p queue
      | Unexpected \<Rightarrow> queue)"

text \<open>One round of a worker: an item whose handler fails goes back to the end of the queue.\<close>

definition process_object ::
  "('o \<Rightarrow> 's \<Rightarrow> ('s \<times> error option) go) \<Rightarrow> 'o ptr option list \<times> 's \<Rightarrow> ('o ptr option list \<times> 's) go" where
  "process_object sync st =
     (case st of
        ([], s) \<Rightarrow> Ret ([], s)
      | (None # queue, s) \<Rightarrow> Panic ''nil pointer dereference''
      | (Some p # queue, s) \<Rightarrow>
          go_map (\<lambda>(s, err). (if err = None then queue else queue_Add (Some p) queue, s)) (sync (snd p) s))"

fun worker :: "('s \<Rightarrow> 's go) \<Rightarrow> nat \<Rightarrow> 's \<Rightarrow> 's go" where
  "worker processNext 0 st = Ret st"
| "worker processNext (Suc n) st = go_bind (processNext st) (worker processNext n)"

subsection \<open>Calls to every instance\<close>

text \<open>A creation: an answer that says that the object exists counts as success.\<close>

definition create_one ::
  "'a lb_env \<Rightarrow> api_call \<Rightarrow> LoxiClient \<Rightarrow> 'a Manager \<Rightarrow> 'a Manager \<times> error option" where
  "create_one env call c m =
     (case api_send env c call m of
        (m, Some e) \<Rightarrow> (m, if \<not> contains_str e ''exist'' then Some e else None)
      | (m, None) \<Rightarrow> (m, None))"

fun create_all ::
  "'a lb_env \<Rightarrow> api_call \<Rightarrow> LoxiClient list \<Rightarrow> 'a Manager \<Rightarrow> 'a Manager \<times> error list" where
  "create_all env call [] m = (m, [])"
| "create_all env call (c # cs) m =
     (case create_one env call c m of
        (m, err) \<Rightarrow>
          (case create_all env call cs m of
             (m, errs) \<Rightarrow> (m, (case err of None \<Rightarrow> errs | Some e \<Rightarrow> e # errs))))"

text \<open>
  \<open>isError\<close> starts as true and is cleared by one success, so that it stays true when there is
  no client.
\<close>

definition broadcast_create ::
  "'a lb_env \<Rightarrow> api_call \<Rightarrow> error \<Rightarrow> 'a Manager \<Rightarrow> 'a Manager \<times> error option" where
  "broadcast_create env call msg m =
     (case create_all env call (LoxiClients m) m of
        (m, errs) \<Rightarrow> (m, if length errs < length (LoxiClients m) then None else Some msg))"

definition broadcast_delete ::
  "'a lb_env \<Rightarrow> api_call \<Rightarrow> error \<Rightarrow> 'a Manager \<Rightarrow> 'a Manager \<times> error option" where
  "broadcast_delete env call msg m =
     (case send_all env (map (\<lambda>c. (c, call)) (LoxiClients m)) m of
        (m, errs) \<Rightarrow>
          (m, if length errs < length (LoxiClients m) then None
              else Some (msg @ (if errs = [] then [] else last errs))))"

interpretation creates:
  fan_out env "create_one env call" "create_all env call" "\<lambda>c. (cl_Url c, call)" refused
  for env :: "'a lb_env" and call
  by unfold_locales (auto simp: create_one_def api_send_def refused_def split: option.split)

definition calls_to_all :: "LoxiClient list \<Rightarrow> api_call \<Rightarrow> (string \<times> api_call) list" where
  "calls_to_all cs call = map (\<lambda>c. (cl_Url c, call)) cs"

text \<open>
  A broadcast makes one call per client and fails exactly when no client took it, also when
  there is no client.
\<close>

lemma broadcast_create_result:
  "broadcast_create env call msg m =
     (m\<lparr>apiLog := apiLog m @ calls_to_all (LoxiClients m) call\<rparr>,
      if \<exists>r\<in>set (answers env (apiLog m) (calls_to_all (LoxiClients m) call)). refused r = None then None else Some msg)"
proof -
  obtain m1 errs where r: "create_all env call (LoxiClients m) m = (m1, errs)"
    by (cases "create_all env call (LoxiClients m) m")
  then have "m1 = m\<lparr>apiLog := apiLog m @ calls_to_all (LoxiClients m) call\<rparr>"
    by (simp add: creates.run_result calls_to_all_def)
  moreover have "length errs < length (LoxiClients m) \<longleftrightarrow>
      (\<exists>r\<in>set (answers env (apiLog m) (calls_to_all (LoxiClients m) call)). refused r = None)"
    using creates.run_all_refuse[of "LoxiClients m" env call m] r
    by (auto simp: not_less[symmetric] calls_to_all_def)
  ultimately show ?thesis by (simp add: broadcast_create_def r)
qed

lemma broadcast_delete_result:
  "\<exists>txt. broadcast_delete env call msg m =
     (m\<lparr>apiLog := apiLog m @ calls_to_all (LoxiClients m) call\<rparr>,
      if None \<in> set (answers env (apiLog m) (calls_to_all (LoxiClients m) call)) then None else Some (msg @ txt))"
proof -
  let ?xs = "map (\<lambda>c. (c, call)) (LoxiClients m)"
  obtain m1 errs where r: "send_all env ?xs m = (m1, errs)" by (cases "send_all env ?xs m")
  have calls: "map (\<lambda>(c, call). (cl_Url c, call)) ?xs = calls_to_all (LoxiClients m) call"
    by (simp add: calls_to_all_def)
  have "m1 = m\<lparr>apiLog := apiLog m @ calls_to_all (LoxiClients m) call\<rparr>"
    using r calls by (simp add: sends.run_result)
  moreover have "length errs < length (LoxiClients m) \<longleftrightarrow>
      None \<in> set (answers env (apiLog m) (calls_to_all (LoxiClients m) call))"
    using sends.run_all_refuse[of ?xs env m] unfolding calls r
    by (metis not_less length_map snd_conv not_None_eq)
  ultimately show ?thesis by (simp add: broadcast_delete_def r)
qed

text \<open>
  A call has reached the instances when it was made to every client and one of them took it; with
  \<open>refused\<close> as the reading of an answer, an object that already exists counts as taken.
\<close>

definition taken_by ::
  "'a lb_env \<Rightarrow> (error option \<Rightarrow> error option) \<Rightarrow> (string \<times> api_call) list \<Rightarrow> string \<Rightarrow> api_call \<Rightarrow> bool" where
  "taken_by env judge log url call \<longleftrightarrow>
     (\<exists>earlier later. log = earlier @ (url, call) # later \<and> judge (e_answer env earlier url call) = None)"

definition reached ::
  "'a lb_env \<Rightarrow> (error option \<Rightarrow> error option) \<Rightarrow> 'a Manager \<Rightarrow> api_call \<Rightarrow> bool" where
  "reached env judge m call \<longleftrightarrow>
     set (calls_to_all (LoxiClients m) call) \<subseteq> set (apiLog m) \<and>
     (\<exists>c\<in>set (LoxiClients m). taken_by env judge (apiLog m) (cl_Url c) call)"

definition extends_log :: "'a Manager \<Rightarrow> 'a Manager \<Rightarrow> bool" where
  "extends_log m m' \<longleftrightarrow> (\<exists>calls. m' = m\<lparr>apiLog := apiLog m @ calls\<rparr>)"

lemma extends_log_refl [simp]: "extends_log m m"
  unfolding extends_log_def by (rule exI[of _ "[]"]) simp

lemma extends_log_trans [trans]: "extends_log m m' \<Longrightarrow> extends_log m' m'' \<Longrightarrow> extends_log m m''"
  unfolding extends_log_def by auto

lemma extends_log_clients: "extends_log m m' \<Longrightarrow> LoxiClients m' = LoxiClients m"
  unfolding extends_log_def by auto

lemma taken_by_append: "taken_by env judge log u c \<Longrightarrow> taken_by env judge (log @ log') u c"
  unfolding taken_by_def by (metis append.assoc append_Cons)

lemma reached_extends: "reached env judge m call \<Longrightarrow> extends_log m m' \<Longrightarrow> reached env judge m' call"
  unfolding reached_def extends_log_def by (auto, blast intro: taken_by_append)

lemma answers_taken:
  assumes "r \<in> set (answers env log (map (\<lambda>c. (cl_Url c, call)) cs))" and "judge r = None"
  shows "\<exists>c\<in>set cs. taken_by env judge (log @ map (\<lambda>c. (cl_Url c, call)) cs) (cl_Url c) call"
  using assms
proof (induction cs arbitrary: log)
  case (Cons c cs)
  show ?case
  proof (cases "judge (e_answer env log (cl_Url c) call) = None")
    case True
    then have "taken_by env judge (log @ map (\<lambda>c. (cl_Url c, call)) (c # cs)) (cl_Url c) call"
      unfolding taken_by_def by (intro exI[of _ log] exI[of _ "map (\<lambda>c. (cl_Url c, call)) cs"]) simp
    then show ?thesis by (intro bexI[of _ c]) simp_all
  next
    case False
    with Cons.prems have "r \<in> set (answers env (log @ [(cl_Url c, call)]) (map (\<lambda>c. (cl_Url c, call)) cs))" by auto
    from Cons.IH[OF this Cons.prems(2)] show ?thesis by auto
  qed
qed simp

lemma broadcast_create_extends: "extends_log m (fst (broadcast_create env call msg m))"
  by (auto simp: broadcast_create_result extends_log_def)

lemma broadcast_delete_extends: "extends_log m (fst (broadcast_delete env call msg m))"
  using broadcast_delete_result[of env call msg m] by (auto simp: extends_log_def)

lemma broadcast_create_reached:
  assumes "broadcast_create env call msg m = (m', None)"
  shows "reached env refused m' call"
proof -
  let ?calls = "calls_to_all (LoxiClients m) call"
  have m': "m' = m\<lparr>apiLog := apiLog m @ ?calls\<rparr>"
    and "\<exists>r\<in>set (answers env (apiLog m) ?calls). refused r = None"
    using assms by (simp_all add: broadcast_create_result split: if_splits)
  then obtain c where "c \<in> set (LoxiClients m)" "taken_by env refused (apiLog m @ ?calls) (cl_Url c) call"
    using answers_taken[of _ env "apiLog m" call "LoxiClients m" refused] unfolding calls_to_all_def by blast
  with m' show ?thesis by (auto simp: reached_def)
qed

lemma broadcast_delete_reached:
  assumes "broadcast_delete env call msg m = (m', None)"
  shows "reached env (\<lambda>r. r) m' call"
proof -
  let ?calls = "calls_to_all (LoxiClients m) call"
  have m': "m' = m\<lparr>apiLog := apiLog m @ ?calls\<rparr>" and "None \<in> set (answers env (apiLog m) ?calls)"
    using assms broadcast_delete_result[of env call msg m] by (auto split: if_splits)
  then obtain c where "c \<in> set (LoxiClients m)" "taken_by env (\<lambda>r. r) (apiLog m @ ?calls) (cl_Url c) call"
    using answers_taken[of None env "apiLog m" call "LoxiClients m" "\<lambda>r. r"] unfolding calls_to_all_def by blast
  with m' show ?thesis by (auto simp: reached_def)
qed

text \<open>A loop of calls that returns at the first error.\<close>

fun first_error :: "('x \<Rightarrow> 's \<Rightarrow> 's \<times> error option) \<Rightarrow> 'x list \<Rightarrow> 's \<Rightarrow> 's \<times> error option" where
  "first_error f [] s = (s, None)"
| "first_error f (x # xs) s =
     (case f x s of (s, None) \<Rightarrow> first_error f xs s | (s, Some e) \<Rightarrow> (s, Some e))"

lemma first_error_extends:
  assumes "\<And>x m. extends_log m (fst (f x m))"
  shows "extends_log m (fst (first_error f xs m))"
proof (induction xs arbitrary: m)
  case (Cons x xs)
  obtain m1 e where r: "f x m = (m1, e)" by (cases "f x m")
  then have "extends_log m m1" using assms[of m x] by simp
  then show ?case using Cons.IH[of m1] r by (cases e) (auto intro: extends_log_trans)
qed simp

lemma first_error_all:
  assumes "first_error f xs m = (m', None)" and "x \<in> set xs"
    and "\<And>x m m'. f x m = (m', None) \<Longrightarrow> P x m'" and "\<And>x m. extends_log m (fst (f x m))"
    and "\<And>x m m'. P x m \<Longrightarrow> extends_log m m' \<Longrightarrow> P x m'"
  shows "P x m'"
  using assms(1,2)
proof (induction xs arbitrary: m)
  case (Cons y ys)
  then obtain m1 where r: "f y m = (m1, None)" and rest: "first_error f ys m1 = (m', None)"
    by (auto split: prod.splits option.splits)
  have "extends_log m1 m'" using first_error_extends[of f m1 ys] assms(4) rest by simp
  then show ?case using Cons.IH[OF rest] Cons.prems(2) assms(3)[OF r] assms(5) by auto
qed simp

lemma first_error_none:
  assumes "\<And>x m. ok m \<Longrightarrow> snd (f x m) = None" and "\<And>x m. ok m \<Longrightarrow> ok (fst (f x m))" and "ok m"
  shows "snd (first_error f xs m) = None"
  using assms(3)
proof (induction xs arbitrary: m)
  case (Cons x xs)
  obtain m1 where "f x m = (m1, None)" using assms(1)[OF Cons.prems, of x] by (cases "f x m") simp
  then show ?case using Cons.IH[of m1] assms(2)[OF Cons.prems, of x] by simp
qed simp

text \<open>The instances are up when there is one, and every call is taken.\<close>

definition instances_up :: "'a lb_env \<Rightarrow> 'a Manager \<Rightarrow> bool" where
  "instances_up env m \<longleftrightarrow> LoxiClients m \<noteq> [] \<and> (\<forall>log url call. e_answer env log url call = None)"

lemma instances_up_extends: "instances_up env m \<Longrightarrow> extends_log m m' \<Longrightarrow> instances_up env m'"
  by (simp add: instances_up_def extends_log_clients)

lemma answers_up: "instances_up env m \<Longrightarrow> None \<in> set (answers env log (calls_to_all (LoxiClients m) call))"
  by (cases "LoxiClients m") (auto simp: instances_up_def calls_to_all_def)

lemma broadcast_create_up: "instances_up env m \<Longrightarrow> snd (broadcast_create env call msg m) = None"
  using answers_up[of env m "apiLog m" call] by (auto simp: broadcast_create_result refused_def intro!: bexI[of _ None])

lemma broadcast_delete_up: "instances_up env m \<Longrightarrow> snd (broadcast_delete env call msg m) = None"
  using answers_up[of env m "apiLog m" call] broadcast_delete_result[of env call msg m] by auto

subsection \<open>Contract of a handler\<close>

text \<open>
  What the handler of a custom resource promises: it returns, without a crash; when it reports
  success, the object is applied; nothing that was applied is lost; and it reports success
  whenever the instances are up, which it does not change.
\<close>

locale reconciler =
  fixes sync :: "'o \<Rightarrow> 's \<Rightarrow> ('s \<times> error option) go"
    and up :: "'s \<Rightarrow> bool"
    and applied :: "'o \<Rightarrow> 's \<Rightarrow> bool"
  assumes sync_returns: "\<exists>s' err. sync x s = Ret (s', err)"
    and sync_applies: "sync x s = Ret (s', None) \<Longrightarrow> applied x s'"
    and sync_keeps: "sync x s = Ret (s', err) \<Longrightarrow> applied y s \<Longrightarrow> applied y s'"
    and sync_up: "sync x s = Ret (s', err) \<Longrightarrow> up s \<Longrightarrow> err = None \<and> up s'"
begin

lemma round:
  obtains s' err where "sync (snd p) s = Ret (s', err)"
    and "process_object sync (Some p # queue, s) = Ret (if err = None then queue else queue_Add (Some p) queue, s')"
proof -
  obtain s' err where "sync (snd p) s = Ret (s', err)" using sync_returns by blast
  then show ?thesis by (intro that[of s' err]) (simp_all add: process_object_def go_map_def)
qed

lemma never_lost:
  assumes "worker (process_object sync) n (queue, s) = Ret (queue', s')" and "Some p \<in> set queue \<or> applied (snd p) s"
  shows "Some p \<in> set queue' \<or> applied (snd p) s'"
  using assms
proof (induction n arbitrary: queue s)
  case (Suc n)
  show ?case
  proof (cases queue)
    case Nil
    then show ?thesis using Suc.IH[of "[]" s] Suc.prems by (simp add: process_object_def)
  next
    case (Cons i rest)
    then obtain q where i: "i = Some q" using Suc.prems(1) by (cases i) (auto simp: process_object_def)
    from round[of q s rest] obtain s1 err where r: "sync (snd q) s = Ret (s1, err)"
      and p: "process_object sync (queue, s) = Ret (if err = None then rest else queue_Add (Some q) rest, s1)"
      unfolding Cons i by blast
    have "worker (process_object sync) n (if err = None then rest else queue_Add (Some q) rest, s1) = Ret (queue', s')"
      using Suc.prems(1) p by simp
    moreover have "Some p \<in> set (if err = None then rest else queue_Add (Some q) rest) \<or> applied (snd p) s1"
      using Suc.prems(2) sync_keeps[OF r, of "snd p"] sync_applies[of "snd q" s s1] r
      by (auto simp: Cons i queue_Add_def)
    ultimately show ?thesis by (rule Suc.IH)
  qed
qed simp

lemma drains:
  assumes "up s" and "None \<notin> set queue"
  shows "\<exists>s'. worker (process_object sync) (length queue) (queue, s) = Ret ([], s') \<and> up s' \<and>
    (\<forall>p. Some p \<in> set queue \<longrightarrow> applied (snd p) s') \<and> (\<forall>y. applied y s \<longrightarrow> applied y s')"
  using assms
proof (induction queue arbitrary: s)
  case (Cons i queue)
  then obtain q where i: "i = Some q" by (cases i) auto
  from round[of q s queue] obtain s1 err where r: "sync (snd q) s = Ret (s1, err)"
    and p: "process_object sync (Some q # queue, s) = Ret (if err = None then queue else queue_Add (Some q) queue, s1)"
    by blast
  have err: "err = None" "up s1" using sync_up[OF r] Cons.prems(1) by auto
  obtain s' where s': "worker (process_object sync) (length queue) (queue, s1) = Ret ([], s')" "up s'"
    "\<forall>p. Some p \<in> set queue \<longrightarrow> applied (snd p) s'" "\<forall>y. applied y s1 \<longrightarrow> applied y s'"
    using Cons.IH[OF err(2)] Cons.prems(2) by auto
  have "worker (process_object sync) (length (i # queue)) (i # queue, s) = Ret ([], s')" using p s'(1) err by (simp add: i)
  moreover have "\<forall>p. Some p \<in> set (i # queue) \<longrightarrow> applied (snd p) s'"
    using s'(3,4) sync_applies[of "snd q" s s1] r err by (auto simp: i)
  moreover have "\<forall>y. applied y s \<longrightarrow> applied y s'" using sync_keeps[OF r] s'(4) by blast
  ultimately show ?case using s'(2) by blast
qed simp

end

end
