(* ===== verification/Egress_Manager.thy ===== *)
theory Egress_Manager
  imports Crd_Queue
begin

text \<open>
  The manager of egress rules (\<open>manager/egress/egress.go\<close>): an \<open>Egress\<close> object names source
  addresses, directly or by the pods of a selector, and each becomes a firewall rule on every
  instance that rewrites the source to the object's virtual address.

  The listers of the Egress objects are the arguments \<open>lister\<close> (one object by namespace and name)
  and \<open>everything\<close> (the list of all).
\<close>

record Egress =
  eg_Namespace :: string
  eg_Name :: string
  eg_Annotations :: "(string \<times> string) list"
  eg_Addresses :: "string list"
  eg_Vip :: string
  eg_Selector :: "(string \<times> string) list"

definition LoxiMultusEgressAnnotation :: string where
  "LoxiMultusEgressAnnotation = ''loxilb.io/multus-nets''"

text \<open>
  The source addresses, \<open>None\<close> where \<open>makeLoxiFirewallModel\<close> returns early because the pods
  could not be read.
\<close>

definition egress_addresses :: "'a lb_env \<Rightarrow> Egress \<Rightarrow> string list option" where
  "egress_addresses env eg =
     (let k = e_kube env; sel = labels_String k (eg_Selector eg) in
      if eg_Selector eg = [] then Some (eg_Addresses eg)
      else (case map_of (eg_Annotations eg) LoxiMultusEgressAnnotation of
              Some netListStr \<Rightarrow>
                (case GetMultusEndpoints (e_tk env) k (eg_Namespace eg) sel (split_on CHR '','' netListStr) ''ipv4'' of
                   (_, Some err) \<Rightarrow> None
                 | (multusAddresses, None) \<Rightarrow> Some (eg_Addresses eg @ multusAddresses))
            | None \<Rightarrow>
                (case list_pods k (eg_Namespace eg) sel of
                   Inl err \<Rightarrow> None
                 | Inr pods \<Rightarrow>
                     Some (eg_Addresses eg @ concat (map (\<lambda>pod. filter (\<lambda>ip. ip \<noteq> []) (pod_PodIPs pod)) pods)))))"

text \<open>The source of a rule in CIDR notation; an address that is neither is skipped.\<close>

definition egress_source :: "string \<Rightarrow> string option" where
  "egress_source address =
     (if ParseCIDR address \<noteq> None then Some address
      else (let ip = ParseIP address in
            if ip \<noteq> [] then Some (if To4 ip = [] then address @ ''/128'' else address @ ''/32'') else None))"

definition egress_rule :: "string \<Rightarrow> string \<Rightarrow> FwRuleMod" where
  "egress_rule vip cidrAddr =
     \<lparr>fw_Rule = \<lparr>fw_SrcIP = cidrAddr, fw_DstIP = [], fw_SrcPortMin = 0, fw_SrcPortMax = 0, fw_DstPortMin = 0,
                fw_DstPortMax = 0, fw_Proto = 0, fw_InPort = [], fw_Pref = 0\<rparr>,
      fw_Opts = \<lparr>fw_Drop = False, fw_Trap = False, fw_Rdr = False, fw_RdrPort = [], fw_Allow = False, fw_Mark = 0,
                fw_Record = False, fw_DoSnat = True, fw_ToIP = vip, fw_ToPort = 0, fw_OnDefault = True,
                fw_Counter = []\<rparr>\<rparr>"

definition makeLoxiFirewallModel :: "'a lb_env \<Rightarrow> Egress \<Rightarrow> FwRuleMod list" where
  "makeLoxiFirewallModel env eg =
     (case egress_addresses env eg of
        None \<Rightarrow> []
      | Some addresses \<Rightarrow> map (egress_rule (eg_Vip eg)) (List.map_filter egress_source addresses))"

definition callLoxiFirewallCreateAPI :: "'a lb_env \<Rightarrow> FwRuleMod \<Rightarrow> 'a Manager \<Rightarrow> 'a Manager \<times> error option" where
  "callLoxiFirewallCreateAPI env fw = broadcast_create env (FwCreate fw) ''failed to add loxiLB Egress firewall rule''"

definition callLoxiFirewallDeleteAPI :: "'a lb_env \<Rightarrow> FwRuleMod \<Rightarrow> 'a Manager \<Rightarrow> 'a Manager \<times> error option" where
  "callLoxiFirewallDeleteAPI env fw = broadcast_delete env (FwDelete fw) ''failed to delete loxiLB Firewall rule. Error: ''"

definition addEgress :: "'a lb_env \<Rightarrow> Egress \<Rightarrow> 'a Manager \<Rightarrow> 'a Manager \<times> error option" where
  "addEgress env eg m =
     (if LoxiClients m = [] then (m, Some ''egress cannot be added because there are no loxilb instances'')
      else first_error (callLoxiFirewallCreateAPI env) (makeLoxiFirewallModel env eg) m)"

definition deleteEgress :: "'a lb_env \<Rightarrow> Egress \<Rightarrow> 'a Manager \<Rightarrow> 'a Manager \<times> error option" where
  "deleteEgress env eg m = first_error (callLoxiFirewallDeleteAPI env) (makeLoxiFirewallModel env eg) m"

definition syncEgress ::
  "(string \<Rightarrow> string \<Rightarrow> error + Egress) \<Rightarrow> 'a lb_env \<Rightarrow> Egress \<Rightarrow> 'a Manager \<Rightarrow> ('a Manager \<times> error option) go" where
  "syncEgress lister env eg m =
     Ret (case lister (eg_Namespace eg) (eg_Name eg) of
            Inl err \<Rightarrow> deleteEgress env eg m
          | Inr _ \<Rightarrow> addEgress env eg m)"

definition egress_enqueueService :: "Egress informer_item \<Rightarrow> Egress ptr option list \<Rightarrow> Egress ptr option list" where
  "egress_enqueueService = enqueue_object"

definition egress_processNextWorkItem ::
  "(string \<Rightarrow> string \<Rightarrow> error + Egress) \<Rightarrow> 'a lb_env \<Rightarrow>
   Egress ptr option list \<times> 'a Manager \<Rightarrow> (Egress ptr option list \<times> 'a Manager) go" where
  "egress_processNextWorkItem lister env = process_object (syncEgress lister env)"

text \<open>An instance that comes up: every known object is added again, whatever the outcome.\<close>

definition egress_alive :: "(error + Egress list) \<Rightarrow> 'a lb_env \<Rightarrow> 'a Manager \<Rightarrow> 'a Manager" where
  "egress_alive everything env m =
     (case everything of
        Inl err \<Rightarrow> m
      | Inr egresses \<Rightarrow> fold (\<lambda>eg m. fst (addEgress env eg m)) egresses m)"

subsection \<open>Rules and addresses\<close>

lemma and_255 [simp]: "(b :: byte) AND 255 = b"
proof -
  have "(255 :: byte) = - 1" by simp
  then show ?thesis by (simp only:) simp
qed

lemma full_mask: "CIDRMask n n = replicate (n div 8) 255"
  by (auto simp: CIDRMask_def mask_byte_def intro!: nth_equalityI)

lemma map2_and_full: "map2 (AND) (ip :: byte list) (replicate (length ip) 255) = ip"
  by (induction ip) simp_all

lemma list_all_nth_eq: "length xs = length ys \<Longrightarrow> list_all (\<lambda>i. xs ! i = ys ! i) [0..<length ys] \<longleftrightarrow> xs = ys"
  by (auto simp: list_all_iff intro: nth_equalityI)

lemma full_net_contains:
  assumes "length ip = 4 \<or> length ip = 16 \<and> To4 ip = []"
  shows "IPNet_Contains \<lparr>net_IP = ip, net_Mask = replicate (length ip) 255\<rparr> x \<longleftrightarrow>
    (if To4 x \<noteq> [] then To4 x else x) = ip"
proof -
  let ?y = "if To4 x \<noteq> [] then To4 x else x" and ?m = "replicate (length ip) (255 :: byte)"
  have nn: "network_number \<lparr>net_IP = ip, net_Mask = ?m\<rparr> = (ip, ?m)"
    using assms by (auto simp: network_number_def Let_def To4_def)
  have "IPNet_Contains \<lparr>net_IP = ip, net_Mask = ?m\<rparr> x \<longleftrightarrow>
      length ?y = length ip \<and> (\<forall>i\<in>set [0..<length ?y]. ip ! i AND ?m ! i = ?y ! i AND ?m ! i)"
    unfolding IPNet_Contains_def nn Let_def list_all_iff by (simp only: prod.case)
  also have "\<dots> \<longleftrightarrow> length ?y = length ip \<and> (\<forall>i<length ip. ip ! i = ?y ! i)"
  proof (rule conj_cong)
    assume len: "length ?y = length ip"
    show "(\<forall>i\<in>set [0..<length ?y]. ip ! i AND ?m ! i = ?y ! i AND ?m ! i) \<longleftrightarrow> (\<forall>i<length ip. ip ! i = ?y ! i)"
      unfolding len by auto
  qed simp
  also have "\<dots> \<longleftrightarrow> ?y = ip" using list_eq_iff_nth_eq[of ip ?y] by metis
  finally show ?thesis .
qed

lemma egress_source_plain:
  assumes "ParseIP s \<noteq> []"
  shows "egress_source s = Some (s @ (if To4 (ParseIP s) = [] then ''/128'' else ''/32''))"
proof -
  have "CHR ''/'' \<notin> set s" using assms by (rule ParseIP_notin) simp
  then have "cut_at CHR ''/'' s = None" by simp
  then have "ParseCIDR s = None" unfolding ParseCIDR_def by (simp only: option.case)
  then show ?thesis using assms by (simp add: egress_source_def)
qed

lemma decimal_32 [simp]: "dec_of_nat 32 = ''32''" and decimal_128 [simp]: "dec_of_nat 128 = ''128''"
  by code_simp+

lemma IP_Mask_full: "length v = 16 \<Longrightarrow> IP_Mask v (replicate 16 255) = v"
  and IP_Mask_full4: "length v = 4 \<Longrightarrow> IP_Mask (v4InV6Prefix @ v) (replicate 4 255) = v"
  using map2_and_full[of v] by (simp_all add: IP_Mask_def Let_def)

lemma To4_eq_iff:
  assumes "length v = 16"
  shows "IP_Equal x v \<longleftrightarrow> (if To4 x \<noteq> [] then To4 x else x) = (if To4 v \<noteq> [] then To4 v else v)"
proof -
  have "x = v" if "length x = 16" "take 12 x = take 12 v" "drop 12 x = drop 12 v"
    using that by (metis append_take_drop_id)
  moreover have "drop 12 v \<noteq> v4InV6Prefix" using assms by (auto dest: arg_cong[where f = length])
  ultimately show ?thesis using assms by (auto simp: IP_Equal_def To4_def)
qed

text \<open>
  A source address given without a prefix becomes a rule for exactly that host: the CIDR of
  the rule parses, to the address itself, and its network contains an address if and only if
  it equals the given one. It holds for every address except an IPv4 address written in IPv6
  notation.
\<close>

theorem egress_rule_is_host:
  assumes "ParseIP s \<noteq> []" and "CHR '':'' \<notin> set s \<or> To4 (ParseIP s) = []"
  shows "\<exists>cidr net. egress_source s = Some cidr \<and> ParseCIDR cidr = Some (ParseIP s, net) \<and>
    (\<forall>ip. IPNet_Contains net ip \<longleftrightarrow> IP_Equal ip (ParseIP s))"
proof -
  obtain a where a: "ParseAddr s = Some a" using assms(1) by (auto simp: ParseIP_nil_iff)
  then have ip: "ParseIP s = as16 a" by (simp add: ParseIP_def)
  from a show ?thesis
  proof (cases rule: ParseAddr_cases)
    case (1 v)
    have "ParseCIDR (s @ ''/32'') = Some (ParseIP s, \<lparr>net_IP = v, net_Mask = replicate (length v) 255\<rparr>)"
      using ParseCIDR_suffix[OF a, of 32] 1 by (simp add: bit_len_def full_mask ip as16_def IP_Mask_full4)
    moreover have "To4 (ParseIP s) = v" "length (ParseIP s) = 16" using 1 by (simp_all add: ip as16_def)
    ultimately show ?thesis
      using egress_source_plain[OF assms(1)] full_net_contains[of v] To4_eq_iff[of "ParseIP s"] 1 by fastforce
  next
    case (2 v)
    have "ParseCIDR (s @ ''/128'') = Some (ParseIP s, \<lparr>net_IP = v, net_Mask = replicate (length v) 255\<rparr>)"
      using ParseCIDR_suffix[OF a, of 128] 2 by (simp add: bit_len_def full_mask ip as16_def IP_Mask_full)
    moreover have "To4 (ParseIP s) = []" "ParseIP s = v" using 2 assms(2) by (simp_all add: ip as16_def)
    ultimately show ?thesis
      using egress_source_plain[OF assms(1)] full_net_contains[of v] To4_eq_iff[of v] 2 by fastforce
  qed
qed

theorem egress_rule_is_host_witness:
  "\<exists>cidr net. egress_source ''10.0.0.1'' = Some cidr \<and> ParseCIDR cidr = Some (ParseIP ''10.0.0.1'', net) \<and>
    (\<forall>ip. IPNet_Contains net ip \<longleftrightarrow> IP_Equal ip (ParseIP ''10.0.0.1''))"
proof (rule egress_rule_is_host)
  show "ParseIP ''10.0.0.1'' \<noteq> []" by code_simp
qed simp

text \<open>
  The excepted case, such as \<open>::ffff:10.0.0.1\<close>: \<open>To4\<close> takes it for an IPv4 address, so that it gets
  the suffix \<open>/32\<close>; the result is read as an IPv6 network that does not hold the host.
\<close>

lemma mapped_address_missed:
  assumes "ParseAddr s = Some (Addr6 v)" and "To4 v \<noteq> []"
  shows "\<exists>net. egress_source s = Some (s @ ''/32'') \<and> ParseCIDR (s @ ''/32'') = Some (ParseIP s, net) \<and>
    \<not> IPNet_Contains net (ParseIP s)"
proof -
  let ?m = "CIDRMask 32 128" and ?ip = "map2 (AND) v (CIDRMask 32 128)"
  have ip: "ParseIP s = v" using assms(1) by (simp add: ParseIP_def as16_def)
  have v: "length v = 16" using length_as16[OF assms(1)] by (simp add: as16_def)
  have m: "length ?m = 16" "?m ! 10 = 0" by (simp_all add: CIDRMask_def mask_byte_def)
  have ten: "?ip ! 10 = 0" "length ?ip = 16" using v m by simp_all
  have "take 12 ?ip \<noteq> v4InV6Prefix"
  proof
    assume "take 12 ?ip = v4InV6Prefix"
    then have "take 12 ?ip ! 10 = 255" by (simp add: v4InV6Prefix_def nth_append)
    with ten show False by simp
  qed
  with ten have "To4 ?ip = []" by (simp add: To4_def)
  then have "network_number \<lparr>net_IP = ?ip, net_Mask = ?m\<rparr> = (?ip, ?m)"
    using v m by (simp add: network_number_def Let_def)
  then have "\<not> IPNet_Contains \<lparr>net_IP = ?ip, net_Mask = ?m\<rparr> v"
    using v m assms(2) by (auto simp: IPNet_Contains_def To4_def)
  moreover have "ParseCIDR (s @ ''/32'') = Some (v, \<lparr>net_IP = ?ip, net_Mask = ?m\<rparr>)"
    using ParseCIDR_suffix[OF assms(1), of 32] v m by (simp add: as16_def bit_len_def IP_Mask_def)
  moreover have "egress_source s = Some (s @ ''/32'')"
    using egress_source_plain[of s] assms(2) v by (force simp: ip)
  ultimately show ?thesis unfolding ip by blast
qed
subsection \<open>Adding and deleting\<close>

text \<open>An object is applied when each of its rules was added, or deleted if the object is gone.\<close>

definition egress_applied ::
  "(string \<Rightarrow> string \<Rightarrow> error + Egress) \<Rightarrow> 'a lb_env \<Rightarrow> Egress \<Rightarrow> 'a Manager \<Rightarrow> bool" where
  "egress_applied lister env eg m \<longleftrightarrow>
     (\<forall>fw\<in>set (makeLoxiFirewallModel env eg).
        case lister (eg_Namespace eg) (eg_Name eg) of
          Inl err \<Rightarrow> reached env (\<lambda>r. r) m (FwDelete fw)
        | Inr _ \<Rightarrow> reached env refused m (FwCreate fw))"

lemma addEgress_extends: "extends_log m (fst (addEgress env eg m))"
  by (simp add: addEgress_def callLoxiFirewallCreateAPI_def first_error_extends broadcast_create_extends)

lemma deleteEgress_extends: "extends_log m (fst (deleteEgress env eg m))"
  by (simp add: deleteEgress_def callLoxiFirewallDeleteAPI_def first_error_extends broadcast_delete_extends)

lemma addEgress_reaches:
  assumes "addEgress env eg m = (m', None)" and "fw \<in> set (makeLoxiFirewallModel env eg)"
  shows "reached env refused m' (FwCreate fw)"
proof (rule first_error_all[where P = "\<lambda>fw m. reached env refused m (FwCreate fw)"])
  show "first_error (callLoxiFirewallCreateAPI env) (makeLoxiFirewallModel env eg) m = (m', None)"
    using assms(1) by (auto simp: addEgress_def split: if_splits)
qed (use assms(2) in \<open>auto simp: callLoxiFirewallCreateAPI_def broadcast_create_extends
      intro: broadcast_create_reached reached_extends\<close>)

lemma deleteEgress_reaches:
  assumes "deleteEgress env eg m = (m', None)" and "fw \<in> set (makeLoxiFirewallModel env eg)"
  shows "reached env (\<lambda>r. r) m' (FwDelete fw)"
proof (rule first_error_all[where P = "\<lambda>fw m. reached env (\<lambda>r. r) m (FwDelete fw)"])
  show "first_error (callLoxiFirewallDeleteAPI env) (makeLoxiFirewallModel env eg) m = (m', None)"
    using assms(1) by (auto simp: deleteEgress_def split: if_splits)
qed (use assms(2) in \<open>auto simp: callLoxiFirewallDeleteAPI_def broadcast_delete_extends
      intro: broadcast_delete_reached reached_extends\<close>)

lemma syncEgress_extends: "syncEgress lister env eg m = Ret (m', err) \<Longrightarrow> extends_log m m'"
  using addEgress_extends[of m env eg] deleteEgress_extends[of m env eg]
  by (auto simp: syncEgress_def split: sum.splits)

lemma addEgress_up:
  assumes "instances_up env m"
  shows "snd (addEgress env eg m) = None"
proof -
  have "snd (first_error (callLoxiFirewallCreateAPI env) (makeLoxiFirewallModel env eg) m) = None"
    by (rule first_error_none[where ok = "instances_up env"])
       (simp_all add: assms callLoxiFirewallCreateAPI_def broadcast_create_up instances_up_extends[OF _ broadcast_create_extends])
  then show ?thesis using assms by (simp add: addEgress_def instances_up_def)
qed

lemma deleteEgress_up:
  assumes "instances_up env m"
  shows "snd (deleteEgress env eg m) = None"
proof -
  have "snd (first_error (callLoxiFirewallDeleteAPI env) (makeLoxiFirewallModel env eg) m) = None"
    by (rule first_error_none[where ok = "instances_up env"])
       (simp_all add: assms callLoxiFirewallDeleteAPI_def broadcast_delete_up instances_up_extends[OF _ broadcast_delete_extends])
  then show ?thesis using assms by (simp add: deleteEgress_def instances_up_def)
qed

interpretation egresses: reconciler "syncEgress lister env" "instances_up env" "egress_applied lister env"
  for lister and env :: "'a lb_env"
proof unfold_locales
  fix eg and m m' :: "'a Manager" and err
  show "\<exists>m' err. syncEgress lister env eg m = Ret (m', err)"
    by (cases "case lister (eg_Namespace eg) (eg_Name eg) of Inl err \<Rightarrow> deleteEgress env eg m | Inr _ \<Rightarrow> addEgress env eg m")
       (simp add: syncEgress_def)
  show "egress_applied lister env eg m'" if "syncEgress lister env eg m = Ret (m', None)"
    using that addEgress_reaches[of env eg m m'] deleteEgress_reaches[of env eg m m']
    by (auto simp: syncEgress_def egress_applied_def split: sum.splits)
  show "egress_applied lister env eg' m'"
    if "syncEgress lister env eg m = Ret (m', err)" and "egress_applied lister env eg' m" for eg'
    using that(2) syncEgress_extends[OF that(1)]
    by (auto simp: egress_applied_def intro: reached_extends split: sum.splits)
  show "err = None \<and> instances_up env m'" if "syncEgress lister env eg m = Ret (m', err)" and "instances_up env m"
    using that(1) addEgress_up[OF that(2), of eg] deleteEgress_up[OF that(2), of eg] that(2)
      extends_log_clients[OF syncEgress_extends[OF that(1)]]
    by (auto simp: syncEgress_def instances_up_def split: sum.splits)
qed

text \<open>
  C28. No egress object is lost: whatever the instances answer, and however often a worker goes
  round, an object that was put on the queue is still on it, or each of its rules has been sent to
  every instance and taken by one (added if the object exists, deleted if it is gone).
\<close>

theorem egress_never_lost:
  assumes "worker (egress_processNextWorkItem lister env) n (queue, m) = Ret (queue', m')" and "Some p \<in> set queue"
  shows "Some p \<in> set queue' \<or> egress_applied lister env (snd p) m'"
  using egresses.never_lost[OF assms(1)[unfolded egress_processNextWorkItem_def]] assms(2) by blast

definition demo_egress :: Egress where
  "demo_egress = \<lparr>eg_Namespace = ''default'', eg_Name = ''out'', eg_Annotations = [], eg_Addresses = [''10.0.0.1''],
     eg_Vip = ''192.168.0.5'', eg_Selector = []\<rparr>"

definition demo_lister :: "string \<Rightarrow> string \<Rightarrow> error + Egress" where
  "demo_lister ns name = (if name = ''out'' then Inr demo_egress else Inl ''not found'')"

theorem egress_never_lost_witness:
  "\<exists>queue' m'. worker (egress_processNextWorkItem demo_lister (demo_env accept)) 1 ([Some (0, demo_egress)], demo_manager) = Ret (queue', m') \<and>
     (Some (0, demo_egress) \<in> set queue' \<or> egress_applied demo_lister (demo_env accept) demo_egress m')"
proof -
  let ?w = "worker (egress_processNextWorkItem demo_lister (demo_env accept)) 1 ([Some (0, demo_egress)], demo_manager)"
  obtain queue' m' where w: "?w = Ret (queue', m')"
    using egresses.round[of demo_lister "demo_env accept" "(0, demo_egress)" demo_manager "[]"]
    by (fastforce simp: egress_processNextWorkItem_def)
  from egress_never_lost[OF w, of "(0, demo_egress)"] w show ?thesis by auto
qed

text \<open>
  C29. Once the instances are up, the queue drains: with at least one instance, and every call
  taken, one round per item empties the queue, without a crash, and then every object that was on
  it has been applied.
\<close>

theorem egress_queue_drains:
  assumes "instances_up env m" and "None \<notin> set queue"
  shows "\<exists>m'. worker (egress_processNextWorkItem lister env) (length queue) (queue, m) = Ret ([], m') \<and>
    (\<forall>p. Some p \<in> set queue \<longrightarrow> egress_applied lister env (snd p) m')"
  using egresses.drains[OF assms] unfolding egress_processNextWorkItem_def by blast

theorem egress_queue_drains_witness:
  "\<exists>m'. worker (egress_processNextWorkItem demo_lister (demo_env accept)) 1 ([Some (0, demo_egress)], demo_manager) = Ret ([], m') \<and>
     egress_applied demo_lister (demo_env accept) demo_egress m'"
proof -
  have "instances_up (demo_env accept) demo_manager"
    by (simp add: instances_up_def demo_env_def accept_def demo_manager_def)
  then show ?thesis using egress_queue_drains[of _ _ "[Some (0, demo_egress)]" demo_lister] by fastforce
qed

end
