(* ===== verification/Bgp_Managers.thy ===== *)
theory Bgp_Managers
  imports Crd_Queue
begin

text \<open>
  The managers of the BGP resources: \<open>manager/bgppeer/bgppeer.go\<close>,
  \<open>manager/bgppolicyapply/bgppolicyapply.go\<close>, \<open>manager/bgppolicydefinedsets/bgppolicydefinedsets.go\<close>
  and \<open>manager/bgppolicydefinition/bgppolicydefinition.go\<close>. Each takes objects of its kind from a work
  queue and sends one request to every loxilb instance: a creation while the lister knows the
  object's name, and a deletion after that.

  A lister is the argument \<open>known\<close>: whether \<open>Lister.Get\<close> finds the name. The specification of a
  peer has no \<open>SetMultiHop\<close>, which is left out of the JSON when it is false.
\<close>

record BGPPeerService =
  peer_Name :: string
  peer_IPAddress :: string
  peer_RemoteAs :: int
  peer_RemotePort :: int

record BGPPolicyApplyService =
  apply_Name :: string
  apply_Spec :: BGPPolicyApply

record BGPPolicyDefinedSetsService =
  sets_Name :: string
  sets_Spec :: BGPPolicyDefinedSets

record BGPPolicyDefinitionService =
  policy_Name :: string
  policy_Spec :: BGPPolicyDefinition

subsection \<open>Peers\<close>

definition addBGPPeerService :: "'a lb_env \<Rightarrow> BGPPeerService \<Rightarrow> 'a Manager \<Rightarrow> 'a Manager \<times> error option" where
  "addBGPPeerService env lb =
     broadcast_create env
       (CreateNeigh \<lparr>neigh_IPAddress = peer_IPAddress lb, neigh_RemoteAs = peer_RemoteAs lb,
                     neigh_RemotePort = peer_RemotePort lb, neigh_SetMultiHop = False\<rparr>)
       ''failed to add loxiLB loadBalancer''"

definition deleteBGPPeerService :: "'a lb_env \<Rightarrow> BGPPeerService \<Rightarrow> 'a Manager \<Rightarrow> 'a Manager \<times> error option" where
  "deleteBGPPeerService env lb =
     broadcast_delete env (DeleteNeigh (peer_IPAddress lb) (peer_RemoteAs lb))
       ''failed to delete loxiLB LoadBalancer. Error: ''"

definition syncBGPPeerService ::
  "(string \<Rightarrow> bool) \<Rightarrow> 'a lb_env \<Rightarrow> BGPPeerService \<Rightarrow> 'a Manager \<Rightarrow> ('a Manager \<times> error option) go" where
  "syncBGPPeerService known env lb m =
     Ret (if \<not> known (peer_Name lb) then deleteBGPPeerService env lb m else addBGPPeerService env lb m)"

definition peer_enqueueService ::
  "BGPPeerService informer_item \<Rightarrow> BGPPeerService ptr option list \<Rightarrow> BGPPeerService ptr option list" where
  "peer_enqueueService = enqueue_object"

definition peer_processNextWorkItem ::
  "(string \<Rightarrow> bool) \<Rightarrow> 'a lb_env \<Rightarrow> BGPPeerService ptr option list \<times> 'a Manager \<Rightarrow>
   (BGPPeerService ptr option list \<times> 'a Manager) go" where
  "peer_processNextWorkItem known env = process_object (syncBGPPeerService known env)"

subsection \<open>Policies applied to a neighbour\<close>

definition addBGPPolicyApplyService ::
  "'a lb_env \<Rightarrow> BGPPolicyApplyService \<Rightarrow> 'a Manager \<Rightarrow> 'a Manager \<times> error option" where
  "addBGPPolicyApplyService env bgpdf =
     broadcast_create env (CreateBGPPolicyApply (apply_Spec bgpdf)) ''failed to add loxiLB BGPPolicyApply''"

text \<open>Here a deletion counts as done when the answer contains \<open>exist\<close>, as of an object that does not exist.\<close>

definition deleteBGPPolicyApplyService ::
  "'a lb_env \<Rightarrow> BGPPolicyApplyService \<Rightarrow> 'a Manager \<Rightarrow> 'a Manager \<times> error option" where
  "deleteBGPPolicyApplyService env bgpdf m =
     (case create_all env (DeleteBGPPolicyApply (apply_Spec bgpdf)) (LoxiClients m) m of
        (m, errs) \<Rightarrow>
          (m, if length errs < length (LoxiClients m) then None
              else Some (''failed to delete loxiLB LoadBalancer. Error: '' @ (if errs = [] then [] else last errs))))"

definition syncBGPPolicyApplyService ::
  "(string \<Rightarrow> bool) \<Rightarrow> 'a lb_env \<Rightarrow> BGPPolicyApplyService \<Rightarrow> 'a Manager \<Rightarrow> ('a Manager \<times> error option) go" where
  "syncBGPPolicyApplyService known env bgpdf m =
     Ret (if \<not> known (apply_Name bgpdf) then deleteBGPPolicyApplyService env bgpdf m
          else addBGPPolicyApplyService env bgpdf m)"

definition apply_enqueueService ::
  "BGPPolicyApplyService informer_item \<Rightarrow> BGPPolicyApplyService ptr option list \<Rightarrow> BGPPolicyApplyService ptr option list" where
  "apply_enqueueService = enqueue_object"

definition apply_processNextWorkItem ::
  "(string \<Rightarrow> bool) \<Rightarrow> 'a lb_env \<Rightarrow> BGPPolicyApplyService ptr option list \<times> 'a Manager \<Rightarrow>
   (BGPPolicyApplyService ptr option list \<times> 'a Manager) go" where
  "apply_processNextWorkItem known env = process_object (syncBGPPolicyApplyService known env)"

subsection \<open>Defined sets\<close>

definition addBGPPolicyDefinedSetsService ::
  "'a lb_env \<Rightarrow> BGPPolicyDefinedSetsService \<Rightarrow> 'a Manager \<Rightarrow> 'a Manager \<times> error option" where
  "addBGPPolicyDefinedSetsService env bgpdf =
     broadcast_create env (CreateBGPPolicyDefinedSets (ds_DefinedType (sets_Spec bgpdf)) (sets_Spec bgpdf))
       ''failed to add loxiLB BGPPolicyDefinedSets''"

definition deleteBGPPolicyDefinedSetsService ::
  "'a lb_env \<Rightarrow> BGPPolicyDefinedSetsService \<Rightarrow> 'a Manager \<Rightarrow> 'a Manager \<times> error option" where
  "deleteBGPPolicyDefinedSetsService env bgpdf =
     broadcast_delete env (DeleteBGPPolicyDefinedSets (ds_DefinedType (sets_Spec bgpdf)) (ds_Name (sets_Spec bgpdf)))
       ''failed to delete loxiLB LoadBalancer. Error: ''"

definition syncBGPPolicyDefinedSetsService ::
  "(string \<Rightarrow> bool) \<Rightarrow> 'a lb_env \<Rightarrow> BGPPolicyDefinedSetsService \<Rightarrow> 'a Manager \<Rightarrow> ('a Manager \<times> error option) go" where
  "syncBGPPolicyDefinedSetsService known env bgpdf m =
     Ret (if \<not> known (sets_Name bgpdf) then deleteBGPPolicyDefinedSetsService env bgpdf m
          else addBGPPolicyDefinedSetsService env bgpdf m)"

definition sets_enqueueService ::
  "BGPPolicyDefinedSetsService informer_item \<Rightarrow> BGPPolicyDefinedSetsService ptr option list \<Rightarrow> BGPPolicyDefinedSetsService ptr option list" where
  "sets_enqueueService = enqueue_object"

definition sets_processNextWorkItem ::
  "(string \<Rightarrow> bool) \<Rightarrow> 'a lb_env \<Rightarrow> BGPPolicyDefinedSetsService ptr option list \<times> 'a Manager \<Rightarrow>
   (BGPPolicyDefinedSetsService ptr option list \<times> 'a Manager) go" where
  "sets_processNextWorkItem known env = process_object (syncBGPPolicyDefinedSetsService known env)"

subsection \<open>Policy definitions\<close>

definition addBGPPolicyDefinitionService ::
  "'a lb_env \<Rightarrow> BGPPolicyDefinitionService \<Rightarrow> 'a Manager \<Rightarrow> 'a Manager \<times> error option" where
  "addBGPPolicyDefinitionService env bgpdf =
     broadcast_create env (CreateBGPPolicyDefinition (policy_Spec bgpdf)) ''failed to add loxiLB BGPPolicyDefinition''"

definition deleteBGPPolicyDefinitionService ::
  "'a lb_env \<Rightarrow> BGPPolicyDefinitionService \<Rightarrow> 'a Manager \<Rightarrow> 'a Manager \<times> error option" where
  "deleteBGPPolicyDefinitionService env bgpdf =
     broadcast_delete env (DeleteBGPPolicyDefinition (pd_Name (policy_Spec bgpdf)))
       ''failed to delete loxiLB LoadBalancer. Error: ''"

definition syncBGPPolicyDefinitionService ::
  "(string \<Rightarrow> bool) \<Rightarrow> 'a lb_env \<Rightarrow> BGPPolicyDefinitionService \<Rightarrow> 'a Manager \<Rightarrow> ('a Manager \<times> error option) go" where
  "syncBGPPolicyDefinitionService known env bgpdf m =
     Ret (if \<not> known (policy_Name bgpdf) then deleteBGPPolicyDefinitionService env bgpdf m
          else addBGPPolicyDefinitionService env bgpdf m)"

definition policy_enqueueService ::
  "BGPPolicyDefinitionService informer_item \<Rightarrow> BGPPolicyDefinitionService ptr option list \<Rightarrow> BGPPolicyDefinitionService ptr option list" where
  "policy_enqueueService = enqueue_object"

definition policy_processNextWorkItem ::
  "(string \<Rightarrow> bool) \<Rightarrow> 'a lb_env \<Rightarrow> BGPPolicyDefinitionService ptr option list \<times> 'a Manager \<Rightarrow>
   (BGPPolicyDefinitionService ptr option list \<times> 'a Manager) go" where
  "policy_processNextWorkItem known env = process_object (syncBGPPolicyDefinitionService known env)"

subsection \<open>The contract of the four managers\<close>

text \<open>
  A manager of this shape sends one request per object. The locale names the request for a present
  and for an absent object, and the reading of an answer to the latter; every such manager is a
  \<open>reconciler\<close>.
\<close>

definition call_applied ::
  "'a lb_env \<Rightarrow> ('o \<Rightarrow> bool) \<Rightarrow> ('o \<Rightarrow> api_call) \<Rightarrow> ('o \<Rightarrow> api_call) \<Rightarrow> (error option \<Rightarrow> error option) \<Rightarrow>
   'o \<Rightarrow> 'a Manager \<Rightarrow> bool" where
  "call_applied env present add_call del_call del_judge x m \<longleftrightarrow>
     (if present x then reached env refused m (add_call x) else reached env del_judge m (del_call x))"

locale one_call_manager =
  fixes env :: "'a lb_env"
    and sync :: "'o \<Rightarrow> 'a Manager \<Rightarrow> ('a Manager \<times> error option) go"
    and present :: "'o \<Rightarrow> bool"
    and add del :: "'o \<Rightarrow> 'a Manager \<Rightarrow> 'a Manager \<times> error option"
    and add_call del_call :: "'o \<Rightarrow> api_call"
    and del_judge :: "error option \<Rightarrow> error option"
  assumes sync_eq: "sync x m = Ret (if \<not> present x then del x m else add x m)"
    and add_extends: "extends_log m (fst (add x m))" and del_extends: "extends_log m (fst (del x m))"
    and add_reached: "add x m = (m', None) \<Longrightarrow> reached env refused m' (add_call x)"
    and del_reached: "del x m = (m', None) \<Longrightarrow> reached env del_judge m' (del_call x)"
    and add_up: "instances_up env m \<Longrightarrow> snd (add x m) = None"
    and del_up: "instances_up env m \<Longrightarrow> snd (del x m) = None"
begin

lemma sync_log: "sync x m = Ret (m', err) \<Longrightarrow> extends_log m m'"
  using add_extends[of m x] del_extends[of m x] by (auto simp: sync_eq split: if_splits)

end

sublocale one_call_manager \<subseteq>
  reconciler sync "instances_up env" "call_applied env present add_call del_call del_judge"
proof unfold_locales
  fix x y and m m' :: "'a Manager" and err
  show "\<exists>m' err. sync x m = Ret (m', err)"
    by (cases "if \<not> present x then del x m else add x m") (simp add: sync_eq)
  show "call_applied env present add_call del_call del_judge x m'" if "sync x m = Ret (m', None)"
    using that add_reached del_reached by (auto simp: call_applied_def sync_eq split: if_splits)
  show "call_applied env present add_call del_call del_judge y m'"
    if "sync x m = Ret (m', err)" and "call_applied env present add_call del_call del_judge y m"
    using that(2) sync_log[OF that(1)] by (auto simp: call_applied_def intro: reached_extends split: if_splits)
  show "err = None \<and> instances_up env m'" if "sync x m = Ret (m', err)" and "instances_up env m"
    using that add_up[of m x] del_up[of m x] instances_up_extends[OF that(2) sync_log[OF that(1)]]
    by (auto simp: sync_eq split: if_splits)
qed

lemmas broadcast_laws = broadcast_create_extends broadcast_delete_extends broadcast_create_up broadcast_delete_up
  broadcast_create_reached broadcast_delete_reached

abbreviation peer_neigh :: "BGPPeerService \<Rightarrow> BGPNeigh" where
  "peer_neigh lb \<equiv> \<lparr>neigh_IPAddress = peer_IPAddress lb, neigh_RemoteAs = peer_RemoteAs lb,
     neigh_RemotePort = peer_RemotePort lb, neigh_SetMultiHop = False\<rparr>"

interpretation peers: one_call_manager env "syncBGPPeerService known env" "\<lambda>lb. known (peer_Name lb)"
    "addBGPPeerService env" "deleteBGPPeerService env" "\<lambda>lb. CreateNeigh (peer_neigh lb)"
    "\<lambda>lb. DeleteNeigh (peer_IPAddress lb) (peer_RemoteAs lb)" "\<lambda>r. r"
  for known and env :: "'a lb_env"
  by unfold_locales
     (auto simp: syncBGPPeerService_def addBGPPeerService_def deleteBGPPeerService_def intro: broadcast_laws)

interpretation definedsets: one_call_manager env "syncBGPPolicyDefinedSetsService known env" "\<lambda>b. known (sets_Name b)"
    "addBGPPolicyDefinedSetsService env" "deleteBGPPolicyDefinedSetsService env"
    "\<lambda>b. CreateBGPPolicyDefinedSets (ds_DefinedType (sets_Spec b)) (sets_Spec b)"
    "\<lambda>b. DeleteBGPPolicyDefinedSets (ds_DefinedType (sets_Spec b)) (ds_Name (sets_Spec b))" "\<lambda>r. r"
  for known and env :: "'a lb_env"
  by unfold_locales
     (auto simp: syncBGPPolicyDefinedSetsService_def addBGPPolicyDefinedSetsService_def
        deleteBGPPolicyDefinedSetsService_def intro: broadcast_laws)

interpretation definitions: one_call_manager env "syncBGPPolicyDefinitionService known env" "\<lambda>b. known (policy_Name b)"
    "addBGPPolicyDefinitionService env" "deleteBGPPolicyDefinitionService env"
    "\<lambda>b. CreateBGPPolicyDefinition (policy_Spec b)" "\<lambda>b. DeleteBGPPolicyDefinition (pd_Name (policy_Spec b))" "\<lambda>r. r"
  for known and env :: "'a lb_env"
  by unfold_locales
     (auto simp: syncBGPPolicyDefinitionService_def addBGPPolicyDefinitionService_def
        deleteBGPPolicyDefinitionService_def intro: broadcast_laws)

text \<open>The deletion of an applied policy agrees with a creation but for the text of its error.\<close>

lemma delete_apply_as_create:
  "\<exists>txt. deleteBGPPolicyApplyService env b m =
     (case broadcast_create env (DeleteBGPPolicyApply (apply_Spec b)) txt m of (m', err) \<Rightarrow> (m', err))"
  by (simp add: deleteBGPPolicyApplyService_def broadcast_create_def split: prod.split)

lemma delete_apply_laws:
  "extends_log m (fst (deleteBGPPolicyApplyService env b m))"
  "deleteBGPPolicyApplyService env b m = (m', None) \<Longrightarrow> reached env refused m' (DeleteBGPPolicyApply (apply_Spec b))"
  "instances_up env m \<Longrightarrow> snd (deleteBGPPolicyApplyService env b m) = None"
  using delete_apply_as_create[of env b m] broadcast_create_extends broadcast_create_reached broadcast_create_up
  by fastforce+

interpretation applies: one_call_manager env "syncBGPPolicyApplyService known env" "\<lambda>b. known (apply_Name b)"
    "addBGPPolicyApplyService env" "deleteBGPPolicyApplyService env"
    "\<lambda>b. CreateBGPPolicyApply (apply_Spec b)" "\<lambda>b. DeleteBGPPolicyApply (apply_Spec b)" refused
  for known and env :: "'a lb_env"
  by unfold_locales
     (auto simp: syncBGPPolicyApplyService_def addBGPPolicyApplyService_def intro: broadcast_laws delete_apply_laws)

text \<open>
  No BGP peer is lost: whatever the instances answer and whatever else is on the queue, a peer
  object that was queued is still queued, or the request for it went to every instance and one took
  it; the request creates the neighbour when the object exists, and deletes it when it is gone.
\<close>

theorem bgp_peer_never_lost:
  assumes "worker (peer_processNextWorkItem known env) n (queue, m) = Ret (queue', m')" and "Some p \<in> set queue"
  shows "Some p \<in> set queue' \<or>
    (if known (peer_Name (snd p)) then reached env refused m' (CreateNeigh (peer_neigh (snd p)))
     else reached env (\<lambda>r. r) m' (DeleteNeigh (peer_IPAddress (snd p)) (peer_RemoteAs (snd p))))"
  using peers.never_lost[OF assms(1)[unfolded peer_processNextWorkItem_def], of p] assms(2) unfolding call_applied_def by blast

definition demo_peer :: BGPPeerService where
  "demo_peer = \<lparr>peer_Name = ''tor'', peer_IPAddress = ''10.0.0.254'', peer_RemoteAs = 65000, peer_RemotePort = 179\<rparr>"

text \<open>With an instance that answers nothing, the peer stays queued.\<close>

definition down :: "(string \<times> api_call) list \<Rightarrow> string \<Rightarrow> api_call \<Rightarrow> error option" where
  "down log u c = Some ''connection refused''"

theorem bgp_peer_never_lost_witness:
  "\<exists>queue' m'. worker (peer_processNextWorkItem (\<lambda>n. n = ''tor'') (demo_env down)) 1 ([Some (7, demo_peer)], demo_manager) =
       Ret (queue', m') \<and>
     (Some (7, demo_peer) \<in> set queue' \<or> reached (demo_env down) refused m' (CreateNeigh (peer_neigh demo_peer)))"
proof -
  let ?step = "peer_processNextWorkItem (\<lambda>n. n = ''tor'') (demo_env down)"
  obtain queue' m' where w: "worker ?step 1 ([Some (7, demo_peer)], demo_manager) = Ret (queue', m')"
    using peers.round[of "\<lambda>n. n = ''tor''" "demo_env down" "(7, demo_peer)" demo_manager "[]"]
    by (fastforce simp: peer_processNextWorkItem_def)
  from bgp_peer_never_lost[OF w, of "(7, demo_peer)"] w show ?thesis by (auto simp: demo_peer_def)
qed

text \<open>
  C33. Once the instances are up, the queues of all BGP managers drain: one round per item empties
  each of them, and no handler crashes.
\<close>

theorem bgp_queues_drain:
  assumes "instances_up env m" and "None \<notin> set peers" and "None \<notin> set applies"
    and "None \<notin> set definedsets" and "None \<notin> set definitions"
  shows "(\<exists>m'. worker (peer_processNextWorkItem known env) (length peers) (peers, m) = Ret ([], m')) \<and>
    (\<exists>m'. worker (apply_processNextWorkItem known env) (length applies) (applies, m) = Ret ([], m')) \<and>
    (\<exists>m'. worker (sets_processNextWorkItem known env) (length definedsets) (definedsets, m) = Ret ([], m')) \<and>
    (\<exists>m'. worker (policy_processNextWorkItem known env) (length definitions) (definitions, m) = Ret ([], m'))"
  using peers.drains[OF assms(1,2)] applies.drains[OF assms(1,3)] definedsets.drains[OF assms(1,4)]
    definitions.drains[OF assms(1,5)]
  unfolding peer_processNextWorkItem_def apply_processNextWorkItem_def sets_processNextWorkItem_def
    policy_processNextWorkItem_def by blast

theorem bgp_queues_drain_witness:
  "\<exists>m'. worker (peer_processNextWorkItem (\<lambda>n. False) (demo_env accept)) 1 ([Some (7, demo_peer)], demo_manager) = Ret ([], m')"
proof -
  have "instances_up (demo_env accept) demo_manager"
    by (simp add: instances_up_def demo_env_def accept_def demo_manager_def)
  then show ?thesis using bgp_queues_drain[of _ _ "[Some (7, demo_peer)]" "[]" "[]" "[]" "\<lambda>n. False"] by force
qed

end
