(* ===== verification/Loxi_Url.thy ===== *)
theory Loxi_Url
  imports Lb_Lifecycle Crd_Queue
begin

text \<open>
  The manager of LoxiURL objects (\<open>manager/loxiurl/loxiurl.go\<close>), which gives the load-balancer
  manager its instances from outside the cluster, its CIDR pools and its instance addresses.

  The state is the load-balancer manager with the flag \<open>crdControlOn\<close>; what is sent is kept in
  the lists \<open>um_purgeCh\<close> (clients that leave the pool) and \<open>um_applyCh\<close> (one entry per signal that the
  instance addresses changed).
\<close>

record LoxiURL =
  lu_Name :: string
  lu_LoxiURL :: string
  lu_LoxiURLType :: string
  lu_LoxiZone :: string

record 'a UrlManager =
  um_lb :: "'a Manager"
  crdControlOn :: bool
  um_purgeCh :: "LoxiClient list"
  um_applyCh :: "string list"

definition deleteAllLoxiClients :: "'a UrlManager \<Rightarrow> 'a UrlManager" where
  "deleteAllLoxiClients s =
     s\<lparr>um_lb := (um_lb s)\<lparr>LoxiClients := []\<rparr>, um_purgeCh := um_purgeCh s @ LoxiClients (um_lb s)\<rparr>"

definition deleteSingleLoxiClientsWithName :: "string \<Rightarrow> 'a UrlManager \<Rightarrow> 'a UrlManager" where
  "deleteSingleLoxiClientsWithName name s =
     (let clients = LoxiClients (um_lb s);
          gone = filter (\<lambda>v. cl_Name v = name) clients
      in if gone \<noteq> [] then
           s\<lparr>um_lb := (um_lb s)\<lparr>LoxiClients := filter (\<lambda>v. cl_Name v \<noteq> name) clients\<rparr>,
             um_purgeCh := um_purgeCh s @ gone\<rparr>
         else s)"

definition url_client :: "'a lb_env \<Rightarrow> dial \<Rightarrow> string \<Rightarrow> string \<Rightarrow> error + LoxiClient" where
  "url_client env d name u =
     NewLoxiClient (e_tk env) (url_Parse d) (sys_certs d) (time_now d) u False False name
       (cfg_Zone (e_cfg env)) (cfg_NumZoneInst (e_cfg env))"

text \<open>The clients that could be made; an error is passed over.\<close>

definition made_clients :: "(string \<times> string \<Rightarrow> error + LoxiClient) \<Rightarrow> (string \<times> string) list \<Rightarrow> LoxiClient list" where
  "made_clients mk = List.map_filter (\<lambda>p. case mk p of Inl _ \<Rightarrow> None | Inr c \<Rightarrow> Some c)"

fun invalid_url :: "dial \<Rightarrow> string list \<Rightarrow> error option" where
  "invalid_url d [] = None"
| "invalid_url d (u # us) =
     (case url_Parse d u of
        Inl err \<Rightarrow> Some (''loxiURL '' @ u @ '' is invalid. err: '' @ err)
      | Inr _ \<Rightarrow> invalid_url d us)"

text \<open>What \<open>addLoxiLBURL\<close> and \<open>deleteLoxiLBURL\<close> do before they touch the clients: \<open>Inl\<close> is a return.\<close>

definition url_guards ::
  "'a lb_env \<Rightarrow> LoxiURL \<Rightarrow> ('a Manager \<Rightarrow> 'a Manager \<times> error option) \<Rightarrow> (IP \<Rightarrow> 'a Manager \<Rightarrow> 'a Manager \<times> bool) \<Rightarrow>
   'a UrlManager \<Rightarrow> ('a UrlManager \<times> error option) + unit" where
  "url_guards env url pool inst s =
     (if lu_LoxiZone url \<noteq> [] \<and> lu_LoxiZone url \<noteq> cfg_Zone (e_cfg env) then Inl (s, None)
      else if lu_LoxiURLType url = ''cidrpool'' then
        Inl (case pool (um_lb s) of (m, err) \<Rightarrow> (s\<lparr>um_lb := m\<rparr>, err))
      else if lu_LoxiURLType url = ''hostcidr'' then
        (let ip = ParseIP (lu_LoxiURL url) in
         if ip = [] then Inl (s, Some (''loxilb-url crd add ('' @ lu_LoxiURL url @ '') host cidr parse failed''))
         else Inl (case inst ip (um_lb s) of
                     (m, signal) \<Rightarrow> (s\<lparr>um_lb := m, um_applyCh := um_applyCh s @ (if signal then [lu_Name url] else [])\<rparr>, None)))
      else if lu_LoxiURLType url \<noteq> [] \<and> lu_LoxiURLType url \<noteq> ''default'' then Inl (s, None)
      else if cfg_LoxilbURLs (e_cfg env) = [] then Inl (s, None)
      else Inr ())"

definition addLoxiLBURL ::
  "'a lb_env \<Rightarrow> dial \<Rightarrow> LoxiURL \<Rightarrow> 'a UrlManager \<Rightarrow> 'a UrlManager \<times> error option" where
  "addLoxiLBURL env d url s =
     (case url_guards env url (AddLoxiCIDRPool env (lu_Name url) (lu_LoxiURL url)) (AddLoxiInstAddr (lu_Name url)) s of
        Inl r \<Rightarrow> r
      | Inr _ \<Rightarrow>
          (let s = (if \<not> crdControlOn s then (deleteAllLoxiClients s)\<lparr>crdControlOn := True\<rparr> else s);
               currLoxiURLs = map cl_Url (LoxiClients (um_lb s));
               newloxiURLS = split_on CHR '','' (lu_LoxiURL url)
           in case invalid_url d newloxiURLS of
                Some err \<Rightarrow> (s, Some err)
              | None \<Rightarrow>
                  (let validLoxiURLs = filter (\<lambda>nurl. \<not> list_ex (\<lambda>ourl. ourl = nurl) currLoxiURLs) newloxiURLS in
                   if validLoxiURLs = [] then (s, None)
                   else
                     (let s = deleteSingleLoxiClientsWithName (lu_Name url) s;
                          tmp = made_clients (\<lambda>(u, n). url_client env d n u) (map (\<lambda>u. (u, lu_Name url)) validLoxiURLs);
                          m = um_lb s
                      in (s\<lparr>um_lb := m\<lparr>LoxiClients := LoxiClients m @ tmp\<rparr>\<rparr>, None)))))"

definition deleteLoxiLBURL ::
  "'a lb_env \<Rightarrow> dial \<Rightarrow> LoxiURL \<Rightarrow> 'a UrlManager \<Rightarrow> 'a UrlManager \<times> error option" where
  "deleteLoxiLBURL env d url s =
     (case url_guards env url (DeleteLoxiCIDRPool env (lu_Name url) (lu_LoxiURL url)) (\<lambda>_. DeleteLoxiInstAddr (lu_Name url)) s of
        Inl r \<Rightarrow> r
      | Inr _ \<Rightarrow>
          (let currLoxiURLs = map (\<lambda>c. (cl_Url c, cl_Name c)) (LoxiClients (um_lb s));
               deleted = split_on CHR '','' (lu_LoxiURL url)
           in case invalid_url d deleted of
                Some err \<Rightarrow> (s, Some err)
              | None \<Rightarrow>
                  (let deletedloxiURLS = map (\<lambda>u. (u, lu_Name url)) deleted;
                       matchCount = length (filter (\<lambda>durl. list_ex (\<lambda>ourl. ourl = durl) currLoxiURLs) deletedloxiURLS);
                       validLoxiURLs = filter (\<lambda>ourl. \<not> list_ex (\<lambda>durl. ourl = durl) deletedloxiURLS) currLoxiURLs
                   in if matchCount = length deletedloxiURLS then
                        (let s = deleteAllLoxiClients s; m = um_lb s
                         in (s\<lparr>um_lb := m\<lparr>LoxiClients := LoxiClients m @
                                made_clients (\<lambda>(u, n). url_client env d n u) validLoxiURLs\<rparr>\<rparr>, None))
                      else (s, None))))"

definition syncLBURLs ::
  "(string \<Rightarrow> bool) \<Rightarrow> 'a lb_env \<Rightarrow> dial \<Rightarrow> LoxiURL \<Rightarrow> 'a UrlManager \<Rightarrow> ('a UrlManager \<times> error option) go" where
  "syncLBURLs known env d url s =
     Ret (if \<not> known (lu_Name url) then deleteLoxiLBURL env d url s else addLoxiLBURL env d url s)"

definition url_enqueueService :: "LoxiURL informer_item \<Rightarrow> LoxiURL ptr option list \<Rightarrow> LoxiURL ptr option list" where
  "url_enqueueService = enqueue_object"

definition url_processNextWorkItem ::
  "(string \<Rightarrow> bool) \<Rightarrow> 'a lb_env \<Rightarrow> dial \<Rightarrow>
   LoxiURL ptr option list \<times> 'a UrlManager \<Rightarrow> (LoxiURL ptr option list \<times> 'a UrlManager) go" where
  "url_processNextWorkItem known env d = process_object (syncLBURLs known env d)"

subsection \<open>Clients and URLs\<close>

text \<open>An object that names instances, for this zone, of a kube-loxilb that runs outside the cluster.\<close>

definition names_instances :: "'a lb_env \<Rightarrow> LoxiURL \<Rightarrow> bool" where
  "names_instances env url \<longleftrightarrow>
     (lu_LoxiZone url = [] \<or> lu_LoxiZone url = cfg_Zone (e_cfg env)) \<and>
     (lu_LoxiURLType url = [] \<or> lu_LoxiURLType url = ''default'') \<and> cfg_LoxilbURLs (e_cfg env) \<noteq> []"

abbreviation url_list :: "LoxiURL \<Rightarrow> string list" where
  "url_list url \<equiv> split_on CHR '','' (lu_LoxiURL url)"

abbreviation client_urls :: "'a UrlManager \<Rightarrow> (string \<times> string) list" where
  "client_urls s \<equiv> map (\<lambda>c. (cl_Url c, cl_Name c)) (LoxiClients (um_lb s))"

definition dialable :: "'a lb_env \<Rightarrow> dial \<Rightarrow> string \<times> string \<Rightarrow> bool" where
  "dialable env d p \<longleftrightarrow> (case url_client env d (snd p) (fst p) of Inl _ \<Rightarrow> False | Inr _ \<Rightarrow> True)"

lemma url_guards_pass: "names_instances env url \<Longrightarrow> url_guards env url pool inst s = Inr ()"
  by (auto simp: names_instances_def url_guards_def)

lemma url_client_id:
  "url_client env d n u = Inr c \<Longrightarrow> cl_Url c = u \<and> (n \<noteq> [] \<longrightarrow> cl_Name c = n)"
  by (auto simp: url_client_def NewLoxiClient_def Let_def split: sum.splits)

lemma made_clients_urls: "cl_Url ` set (made_clients (\<lambda>(u, n). url_client env d n u) ps) \<subseteq> fst ` set ps"
  by (force simp: made_clients_def map_filter_def dest: url_client_id split: sum.splits)

lemma made_clients_all:
  assumes "\<forall>p\<in>set ps. dialable env d p \<and> snd p \<noteq> []"
  shows "map (\<lambda>c. (cl_Url c, cl_Name c)) (made_clients (\<lambda>(u, n). url_client env d n u) ps) = ps"
  using assms
proof (induction ps)
  case (Cons p ps)
  obtain u n where p: "p = (u, n)" by (cases p)
  obtain c where "url_client env d n u = Inr c"
    using Cons.prems p by (auto simp: dialable_def split: sum.splits)
  then show ?case using Cons p url_client_id[of env d n u c] by (simp add: made_clients_def map_filter_simps)
qed (simp add: made_clients_def map_filter_simps)

text \<open>
  The clients that the first object that names instances finds: it takes control over them, which removes
  the clients of the configuration. Later objects find those of the objects before.
\<close>

definition under_control :: "'a UrlManager \<Rightarrow> 'a UrlManager" where
  "under_control s = (if crdControlOn s then s else (deleteAllLoxiClients s)\<lparr>crdControlOn := True\<rparr>)"

lemma under_control_simps:
  "crdControlOn (under_control s)" "LoxiClients (um_lb (under_control s)) = (if crdControlOn s then LoxiClients (um_lb s) else [])"
  "um_purgeCh (under_control s) = um_purgeCh s @ (if crdControlOn s then [] else LoxiClients (um_lb s))"
  by (simp_all add: under_control_def deleteAllLoxiClients_def)

lemma add_url_first: "names_instances env url \<Longrightarrow> addLoxiLBURL env d url s = addLoxiLBURL env d url (under_control s)"
  by (simp add: addLoxiLBURL_def url_guards_pass under_control_def)

lemma add_url_clients:
  assumes "names_instances env url" and "crdControlOn s" and "invalid_url d (url_list url) = None"
    and "news = filter (\<lambda>u. u \<notin> cl_Url ` set (LoxiClients (um_lb s))) (url_list url)" and "news \<noteq> []"
  shows "\<exists>s'. addLoxiLBURL env d url s = (s', None) \<and> crdControlOn s' \<and>
    um_purgeCh s' = um_purgeCh s @ filter (\<lambda>v. cl_Name v = lu_Name url) (LoxiClients (um_lb s)) \<and>
    LoxiClients (um_lb s') = filter (\<lambda>v. cl_Name v \<noteq> lu_Name url) (LoxiClients (um_lb s)) @
      made_clients (\<lambda>(u, n). url_client env d n u) (map (\<lambda>u. (u, lu_Name url)) news)"
proof -
  have news: "filter (\<lambda>nurl. \<not> list_ex (\<lambda>ourl. ourl = nurl) (map cl_Url (LoxiClients (um_lb s)))) (url_list url) = news"
    unfolding assms(4) by (rule filter_cong) (auto simp: list_ex_iff)
  let ?s = "deleteSingleLoxiClientsWithName (lu_Name url) s"
  have "crdControlOn ?s" using assms(2) by (simp add: deleteSingleLoxiClientsWithName_def Let_def)
  moreover have "LoxiClients (um_lb ?s) = filter (\<lambda>v. cl_Name v \<noteq> lu_Name url) (LoxiClients (um_lb s))"
    "um_purgeCh ?s = um_purgeCh s @ filter (\<lambda>v. cl_Name v = lu_Name url) (LoxiClients (um_lb s))"
    by (auto simp: deleteSingleLoxiClientsWithName_def Let_def filter_empty_conv)
  ultimately show ?thesis
    using assms(2,3,5) by (simp add: addLoxiLBURL_def url_guards_pass[OF assms(1)] Let_def news)
qed

text \<open>
  C23. Adding an object that names instances and deleting it again. Let the URLs and the name of the object
  be new. When objects are in control of the instances already, the clients after the addition are those
  before and one for each of its URLs, in order, and after the deletion they are those before (each
  with its URL and name). The first such object takes control: the clients of the configuration are
  sent to be purged, those of the object are the only ones, and after its deletion there is none; the
  configured ones do not come back, since objects stay in control.
\<close>

theorem url_add_delete_roundtrip:
  assumes "names_instances env url" and "invalid_url d (url_list url) = None"
    and "before = (if crdControlOn s then client_urls s else [])"
    and "set (url_list url) \<inter> fst ` set before = {}" and "lu_Name url \<notin> snd ` set before" and "lu_Name url \<noteq> []"
    and "\<forall>u\<in>set (url_list url). dialable env d (u, lu_Name url)" and "\<forall>p\<in>set before. dialable env d p \<and> snd p \<noteq> []"
  shows "\<exists>s1 s2. addLoxiLBURL env d url s = (s1, None) \<and>
    client_urls s1 = before @ map (\<lambda>u. (u, lu_Name url)) (url_list url) \<and>
    um_purgeCh s1 = um_purgeCh s @ (if crdControlOn s then [] else LoxiClients (um_lb s)) \<and>
    deleteLoxiLBURL env d url s1 = (s2, None) \<and> client_urls s2 = before \<and> crdControlOn s2"
proof -
  let ?us = "url_list url" and ?n = "lu_Name url" and ?mk = "\<lambda>(u, n). url_client env d n u" and ?s = "under_control s"
  have before: "client_urls ?s = before" using assms(3) by (simp add: under_control_simps)
  then have fresh: "set ?us \<inter> cl_Url ` set (LoxiClients (um_lb ?s)) = {}" "?n \<notin> cl_Name ` set (LoxiClients (um_lb ?s))"
    using assms(4,5) by (auto simp: before[symmetric] image_image)
  have "?us \<noteq> []" by (cases "lu_LoxiURL url") (auto split: list.splits)
  moreover have "filter (\<lambda>u. u \<notin> cl_Url ` set (LoxiClients (um_lb ?s))) ?us = ?us" using fresh(1) by (auto simp: filter_id_conv)
  moreover have "filter (\<lambda>v. cl_Name v \<noteq> ?n) (LoxiClients (um_lb ?s)) = LoxiClients (um_lb ?s)"
    using fresh(2) by (auto simp: filter_id_conv image_iff)
  moreover have "filter (\<lambda>v. cl_Name v = ?n) (LoxiClients (um_lb ?s)) = []"
    using fresh(2) by (auto simp: filter_empty_conv image_iff)
  ultimately obtain s1 where s1: "addLoxiLBURL env d url ?s = (s1, None)" "crdControlOn s1" "um_purgeCh s1 = um_purgeCh ?s"
    "LoxiClients (um_lb s1) = LoxiClients (um_lb ?s) @ made_clients ?mk (map (\<lambda>u. (u, ?n)) ?us)"
    using add_url_clients[OF assms(1) under_control_simps(1)[of s] assms(2), of ?us] by auto
  have c1: "client_urls s1 = before @ map (\<lambda>u. (u, ?n)) ?us"
    unfolding s1(4) map_append before using assms(6,7) by (simp add: made_clients_all)
  have all: "filter (\<lambda>p. list_ex (\<lambda>q. q = p) (client_urls s1)) (map (\<lambda>u. (u, ?n)) ?us) = map (\<lambda>u. (u, ?n)) ?us"
    unfolding c1 by (auto simp: filter_id_conv list_ex_iff)
  have "filter (\<lambda>p. \<not> list_ex (\<lambda>q. p = q) (map (\<lambda>u. (u, ?n)) ?us)) (client_urls s1) = before"
    unfolding c1 using assms(5) by (auto simp: filter_id_conv list_ex_iff filter_empty_conv image_iff)
  then obtain s2 where s2: "deleteLoxiLBURL env d url s1 = (s2, None)" "LoxiClients (um_lb s2) = made_clients ?mk before"
    "crdControlOn s2"
    using arg_cong[OF all, of length] s1(2)
    by (simp add: deleteLoxiLBURL_def url_guards_pass[OF assms(1)] Let_def assms(2) deleteAllLoxiClients_def)
  have "client_urls s2 = before" unfolding s2(2) by (rule made_clients_all[OF assms(8)])
  then show ?thesis
    unfolding add_url_first[OF assms(1), of d s] using s1(1) c1 s2(1,3) s1(3)[unfolded under_control_simps(3)] by blast
qed

text \<open>
  C24. Extending an object loses its instances: when a URL is added to an object that is in
  use, the clients of its other URLs are removed, although they are still listed, and no client
  is made for them.
\<close>

theorem url_update_drops_listed:
  assumes "names_instances env url" and "crdControlOn s" and "invalid_url d (url_list url) = None"
    and "new \<in> set (url_list url)" and "new \<notin> cl_Url ` set (LoxiClients (um_lb s))"
    and "u \<in> set (url_list url)" and "u \<in> cl_Url ` set (LoxiClients (um_lb s))"
    and "\<forall>c\<in>set (LoxiClients (um_lb s)). cl_Url c = u \<longrightarrow> cl_Name c = lu_Name url"
  shows "u \<notin> cl_Url ` set (LoxiClients (um_lb (fst (addLoxiLBURL env d url s))))"
proof -
  define news where "news = filter (\<lambda>u. u \<notin> cl_Url ` set (LoxiClients (um_lb s))) (url_list url)"
  have "news \<noteq> []" using assms(4,5) by (auto simp: news_def filter_empty_conv)
  from add_url_clients[OF assms(1-3) news_def this] obtain s' where s': "addLoxiLBURL env d url s = (s', None)"
    "LoxiClients (um_lb s') = filter (\<lambda>v. cl_Name v \<noteq> lu_Name url) (LoxiClients (um_lb s)) @
      made_clients (\<lambda>(u, n). url_client env d n u) (map (\<lambda>u. (u, lu_Name url)) news)" by blast
  have "u \<notin> cl_Url ` set (made_clients (\<lambda>(u, n). url_client env d n u) (map (\<lambda>u. (u, lu_Name url)) news))"
    using made_clients_urls[of env d "map (\<lambda>u. (u, lu_Name url)) news"] assms(7) by (fastforce simp: news_def)
  then show ?thesis using s' assms(8) by auto
qed

subsection \<open>An instance\<close>

definition url_env :: "(string \<times> string) list lb_env" where
  "url_env = (demo_env accept)\<lparr>e_cfg := demo_cfg\<lparr>cfg_LoxilbURLs := [''http://12.12.12.1:11111'']\<rparr>\<rparr>"

definition demo_url :: LoxiURL where
  "demo_url = \<lparr>lu_Name = ''edge'', lu_LoxiURL = ''http://14.14.14.1:11111'', lu_LoxiURLType = [], lu_LoxiZone = []\<rparr>"

definition url_state :: "(string \<times> string) list UrlManager" where
  "url_state = \<lparr>um_lb = demo_manager, crdControlOn = True, um_purgeCh = [], um_applyCh = []\<rparr>"

text \<open>The same with the client from the configuration.\<close>

definition configured_state :: "(string \<times> string) list UrlManager" where
  "configured_state = \<lparr>um_lb = demo_manager, crdControlOn = False, um_purgeCh = [], um_applyCh = []\<rparr>"

lemma demo_url_list: "url_list demo_url = [''http://14.14.14.1:11111'']" by code_simp

lemma demo_url_valid: "invalid_url demo_dial (url_list demo_url) = None" by code_simp

lemma url_env_names: "names_instances url_env url \<longleftrightarrow>
    (lu_LoxiZone url = [] \<or> lu_LoxiZone url = cfg_Zone demo_cfg) \<and> (lu_LoxiURLType url = [] \<or> lu_LoxiURLType url = ''default'')"
  by (simp add: names_instances_def url_env_def demo_env_def)

theorem url_add_delete_roundtrip_witness:
  "(\<exists>s1 s2. addLoxiLBURL url_env demo_dial demo_url url_state = (s1, None) \<and>
     client_urls s1 = [(''http://12.12.12.1:11111'', ''12.12.12.1''), (''http://14.14.14.1:11111'', ''edge'')] \<and>
     deleteLoxiLBURL url_env demo_dial demo_url s1 = (s2, None) \<and>
     client_urls s2 = [(''http://12.12.12.1:11111'', ''12.12.12.1'')]) \<and>
   (\<exists>s1 s2. addLoxiLBURL url_env demo_dial demo_url configured_state = (s1, None) \<and>
     client_urls s1 = [(''http://14.14.14.1:11111'', ''edge'')] \<and> um_purgeCh s1 = [demo_client] \<and>
     deleteLoxiLBURL url_env demo_dial demo_url s1 = (s2, None) \<and> client_urls s2 = [])"
proof -
  let ?b = "[(''http://12.12.12.1:11111'', ''12.12.12.1'')]"
  have st: "?b = (if crdControlOn url_state then client_urls url_state else [])"
    "[] = (if crdControlOn configured_state then client_urls configured_state else [])" "\<not> crdControlOn configured_state"
    "LoxiClients (um_lb configured_state) = [demo_client]" "um_purgeCh configured_state = []"
    by (simp_all add: url_state_def configured_state_def demo_manager_def demo_client_def)
  have ok: "dialable url_env demo_dial (''http://14.14.14.1:11111'', ''edge'')"
    "dialable url_env demo_dial (''http://12.12.12.1:11111'', ''12.12.12.1'')"
    by code_simp+
  have url: "names_instances url_env demo_url" "lu_Name demo_url = ''edge''"
    by (simp_all add: url_env_names demo_url_def)
  note rt = url_add_delete_roundtrip[OF url(1) demo_url_valid, unfolded demo_url_list url(2)]
  obtain s1 s2 where "addLoxiLBURL url_env demo_dial demo_url url_state = (s1, None)"
    "client_urls s1 = ?b @ map (\<lambda>u. (u, ''edge'')) [''http://14.14.14.1:11111'']"
    "deleteLoxiLBURL url_env demo_dial demo_url s1 = (s2, None)" "client_urls s2 = ?b"
    using rt[OF st(1)] ok by auto
  moreover obtain t1 t2 where "addLoxiLBURL url_env demo_dial demo_url configured_state = (t1, None)"
    "client_urls t1 = [] @ map (\<lambda>u. (u, ''edge'')) [''http://14.14.14.1:11111'']"
    "um_purgeCh t1 = um_purgeCh configured_state @ (if crdControlOn configured_state then [] else LoxiClients (um_lb configured_state))"
    "deleteLoxiLBURL url_env demo_dial demo_url t1 = (t2, None)" "client_urls t2 = []"
    using rt[OF st(2)] ok(1) by auto
  ultimately show ?thesis unfolding st(4,5) using st(3) by auto
qed

text \<open>The object of the client \<open>12.12.12.1\<close>, extended by a second URL.\<close>

definition longer_url :: LoxiURL where
  "longer_url = \<lparr>lu_Name = ''12.12.12.1'', lu_LoxiURL = ''http://12.12.12.1:11111,http://14.14.14.1:11111'',
     lu_LoxiURLType = [], lu_LoxiZone = []\<rparr>"

theorem url_update_drops_listed_witness:
  "''http://12.12.12.1:11111'' \<in> set (url_list longer_url) \<and>
   ''http://12.12.12.1:11111'' \<notin>
     cl_Url ` set (LoxiClients (um_lb (fst (addLoxiLBURL url_env demo_dial longer_url url_state))))"
proof -
  have us: "url_list longer_url = [''http://12.12.12.1:11111'', ''http://14.14.14.1:11111'']" by code_simp
  have "invalid_url demo_dial (url_list longer_url) = None" by code_simp
  then have "''http://12.12.12.1:11111'' \<notin>
      cl_Url ` set (LoxiClients (um_lb (fst (addLoxiLBURL url_env demo_dial longer_url url_state))))"
    by (intro url_update_drops_listed[where new = "''http://14.14.14.1:11111''"])
       (simp_all add: us url_env_names longer_url_def url_state_def demo_manager_def demo_client_def)
  then show ?thesis by (simp add: us)
qed

end
