(* ===== verification/Agent_Options.thy ===== *)
theory Agent_Options
  imports Lb_Lifecycle
begin

text \<open>
  The configuration of the agent (\<open>cmd/loxilb-agent/options.go\<close>) and the state it starts with
  (\<open>run\<close> in \<open>cmd/loxilb-agent/agent.go\<close>): flags and file are merged, defaults filled in, the result is
  validated, and then pools, clients and the load-balancer manager are made.

  \<open>None\<close> is the nil slice of the pool definitions, which differs from the empty one. Reading the
  file is the argument \<open>load\<close>.
\<close>

record AgentConfig =
  ac_HostProcPathPrefix :: string
  ac_WithNamespace :: bool
  ac_LoxiURLs :: "string list"
  ac_NodePortServiceVirtIP :: string
  ac_LoxilbLoadBalancerClass :: string
  ac_EnableGatewayAPI :: bool
  ac_LoxilbGatewayClass :: string
  ac_ExternalCIDR :: string
  ac_ExternalCIDRPoolDefs :: "string list option"
  ac_ExternalCIDR6PoolDefs :: "string list option"
  ac_ExtBGPPeers :: "string list"
  ac_SetBGP :: "16 word"
  ac_ListenBGPPort :: "16 word"
  ac_EBGPMultiHop :: bool
  ac_SetLBMode :: "16 word"
  ac_ExclIPAM :: bool
  ac_Monitor :: bool
  ac_AppendEPs :: bool
  ac_SetRoles :: string
  ac_Zone :: string
  ac_ExcludeRoleList :: "string list"
  ac_PrivateCIDR :: string
  ac_EnableBGPCRDs :: bool
  ac_NumZoneInst :: int
  ac_UsePodNetwork :: bool
  ac_UseExternalEndpoint :: bool
  ac_NoZoneName :: bool
  ac_EnableK8sMetadata :: bool

record Flags =
  fl_loxiURL :: string
  fl_cidrPools :: string
  fl_cidr6Pools :: string
  fl_extBGPPeers :: string
  fl_excludeRoleList :: string

definition slice :: "string list option \<Rightarrow> string list" where
  "slice xs = (case xs of None \<Rightarrow> [] | Some ys \<Rightarrow> ys)"

definition updateConfigFromCommandLine :: "Flags \<Rightarrow> AgentConfig \<Rightarrow> AgentConfig" where
  "updateConfigFromCommandLine fl c =
     (let c = (if fl_loxiURL fl \<noteq> [] then c\<lparr>ac_LoxiURLs := split_on CHR '','' (fl_loxiURL fl)\<rparr> else c);
          c = (if fl_cidrPools fl \<noteq> [] then c\<lparr>ac_ExternalCIDRPoolDefs := Some (split_on CHR '','' (fl_cidrPools fl))\<rparr> else c);
          c = (if fl_cidr6Pools fl \<noteq> [] then c\<lparr>ac_ExternalCIDR6PoolDefs := Some (split_on CHR '','' (fl_cidr6Pools fl))\<rparr> else c);
          c = (if fl_extBGPPeers fl \<noteq> [] then c\<lparr>ac_ExtBGPPeers := split_on CHR '','' (fl_extBGPPeers fl)\<rparr> else c)
      in if fl_excludeRoleList fl \<noteq> [] then c\<lparr>ac_ExcludeRoleList := split_on CHR '','' (fl_excludeRoleList fl)\<rparr> else c)"

definition setDefaults :: "AgentConfig \<Rightarrow> AgentConfig" where
  "setDefaults c =
     c\<lparr>ac_WithNamespace := True,
       ac_HostProcPathPrefix := (if ac_HostProcPathPrefix c = [] then ''/host'' else ac_HostProcPathPrefix c),
       ac_NodePortServiceVirtIP := (if ac_NodePortServiceVirtIP c = [] then ''11.187.0.1/32'' else ac_NodePortServiceVirtIP c),
       ac_LoxilbLoadBalancerClass :=
         (if ac_LoxilbLoadBalancerClass c = [] then ''loxilb.io/loxilb'' else ac_LoxilbLoadBalancerClass c),
       ac_LoxilbGatewayClass := (if ac_LoxilbGatewayClass c = [] then ''loxilb.io/loxilb'' else ac_LoxilbGatewayClass c),
       ac_ExternalCIDRPoolDefs :=
         (if ac_ExternalCIDR c \<noteq> [] then Some [''defaultPool='' @ ac_ExternalCIDR c]
          else (case ac_ExternalCIDRPoolDefs c of
                  None \<Rightarrow> Some [''defaultPool=123.123.123.1/24'']
                | Some ds \<Rightarrow> Some ds)),
       ac_ExternalCIDR6PoolDefs :=
         (case ac_ExternalCIDR6PoolDefs c of None \<Rightarrow> Some [''defaultPool=3ffe:cafe::1/96''] | Some ds \<Rightarrow> Some ds),
       ac_ListenBGPPort := (if ac_ListenBGPPort c = 0 then 179 else ac_ListenBGPPort c),
       ac_Zone := (if ac_Zone c = [] then (if ac_NoZoneName c then [] else ''llb'') else ac_Zone c),
       ac_NumZoneInst := (if ac_NumZoneInst c = 0 then 1 else ac_NumZoneInst c)\<rparr>"

definition complete ::
  "(string \<Rightarrow> AgentConfig \<Rightarrow> error + AgentConfig) \<Rightarrow> string \<Rightarrow> Flags \<Rightarrow> AgentConfig \<Rightarrow> error + AgentConfig" where
  "complete load configFile fl c =
     (case (if configFile \<noteq> [] then load configFile c else Inr c) of
        Inl e \<Rightarrow> Inl e
      | Inr c \<Rightarrow> Inr (setDefaults (updateConfigFromCommandLine fl c)))"

subsection \<open>Validation\<close>

definition check_range :: "'a loxilib \<Rightarrow> string \<Rightarrow> error option" where
  "check_range tk cidr =
     (let ipBlock = split_on CHR ''-'' cidr in
      if length ipBlock \<noteq> 2 then Some ''invalid ip-range''
      else
        (let start = ParseIP (ipBlock ! 0); lst = ParseIP (ipBlock ! 1) in
         if start = [] \<or> lst = [] then Some ''invalid ip-range ips''
         else if IsNetIPv4 tk (IP_String start) \<and> IsNetIPv6 tk (IP_String lst) \<or>
                 IsNetIPv6 tk (IP_String start) \<and> IsNetIPv4 tk (IP_String lst)
         then Some ''invalid ip-types ips'' else None))"

text \<open>One definition of a pool, by the family test \<open>fam\<close> and the name \<open>opt\<close> of the option.\<close>

definition validate_pool ::
  "'a loxilib \<Rightarrow> (string \<Rightarrow> bool) \<Rightarrow> string \<Rightarrow> string list \<Rightarrow> string \<Rightarrow> error option" where
  "validate_pool tk fam opt defs pool =
     (let poolStrSlice = split_on CHR ''='' pool in
      if length poolStrSlice \<noteq> 2 then Some (opt @ '' '' @ fmt_strings defs @ '' config is invalid'')
      else
        (let cidr = poolStrSlice ! 1 in
         if ParseCIDR cidr = None then
           (if contains_str cidr ''-'' then check_range tk cidr
            else Some (opt @ '' '' @ cidr @ '' config is invalid''))
         else if \<not> fam cidr then Some (opt @ '' '' @ cidr @ '' config is invalid'') else None))"

text \<open>The first error of a list of checks, in order.\<close>

fun first_of :: "('x \<Rightarrow> error option) \<Rightarrow> 'x list \<Rightarrow> error option" where
  "first_of f [] = None"
| "first_of f (x # xs) = (case f x of Some e \<Rightarrow> Some e | None \<Rightarrow> first_of f xs)"

text \<open>One external BGP peer; reading the missing part of an address without a colon crashes.\<close>

definition validate_peer :: "string \<Rightarrow> error option go" where
  "validate_peer bgpURL =
     (let bgpPeer = split_on CHR '':'' bgpURL in
      if 2 < length bgpPeer then Ret (Some (''bgpURL '' @ bgpURL @ '' is invalid. format err''))
      else if ParseIP (bgpPeer ! 0) = [] then Ret (Some (''bgpURL '' @ bgpPeer ! 0 @ '' is invalid. address err''))
      else if length bgpPeer < 2 then Panic ''index out of range''
      else (case Atoi (bgpPeer ! 1) of
              None \<Rightarrow> Ret (Some (''bgpURL '' @ bgpPeer ! 1 @ '' is invalid. asid err''))
            | Some asid \<Rightarrow> if asid = 0 then Ret (Some (''bgpURL '' @ bgpPeer ! 1 @ '' is invalid. asid err'')) else Ret None))"

fun validate_peers :: "string list \<Rightarrow> error option go" where
  "validate_peers [] = Ret None"
| "validate_peers (p # ps) = go_bind (validate_peer p) (\<lambda>e. if e = None then validate_peers ps else Ret e)"

definition validate_rest :: "'a loxilib \<Rightarrow> AgentConfig \<Rightarrow> error option" where
  "validate_rest tk c =
     (if ac_LoxilbLoadBalancerClass c \<noteq> [] \<and> \<not> contains_str (ac_LoxilbLoadBalancerClass c) ''/'' then
        Some ''loxilbLoadBalancerClass must be a label-style identifier''
      else if ac_EnableGatewayAPI c \<and> ac_LoxilbGatewayClass c \<noteq> [] \<and> \<not> contains_str (ac_LoxilbGatewayClass c) ''/'' then
        Some ''LoxilbGatewayClass must be a label-style identifier''
      else if ac_SetRoles c \<noteq> [] \<and> ParseIP (ac_SetRoles c) = [] then
        Some (''SetRoles '' @ ac_SetRoles c @ '' config is invalid'')
      else if ac_PrivateCIDR c \<noteq> [] \<and> (ParseCIDR (ac_PrivateCIDR c) = None \<or> \<not> IsNetIPv4 tk (ac_PrivateCIDR c)) then
        Some (''privateCIDR '' @ ac_PrivateCIDR c @ '' config is invalid'')
      else if 128 < length (ac_ExcludeRoleList c) then
        Some (''excludeRoleList '' @ fmt_strings (ac_ExcludeRoleList c) @ '' config is invalid'')
      else first_of (\<lambda>nodeIP. if ParseIP nodeIP = [] \<or> \<not> IsNetIPv4 tk nodeIP
                              then Some (''excludeRoleList '' @ nodeIP @ '' config is invalid'') else None)
             (ac_ExcludeRoleList c))"

definition validate ::
  "'a loxilib \<Rightarrow> dial \<Rightarrow> string list \<Rightarrow> AgentConfig \<Rightarrow> error option go" where
  "validate tk d args c =
     (if args \<noteq> [] then Ret (Some ''no positional arguments are supported'')
      else
        (let defs = slice (ac_ExternalCIDRPoolDefs c); defs6 = slice (ac_ExternalCIDR6PoolDefs c) in
         case first_of (\<lambda>u. case url_Parse d u of
                              Inl err \<Rightarrow> Some (''loxiURL '' @ u @ '' is invalid. err: '' @ err) | Inr _ \<Rightarrow> None)
                (ac_LoxiURLs c) of
           Some e \<Rightarrow> Ret (Some e)
         | None \<Rightarrow>
             (case first_of (validate_pool tk (IsNetIPv4 tk) ''externalCIDR'' defs) defs of
                Some e \<Rightarrow> Ret (Some e)
              | None \<Rightarrow>
                  (case first_of (validate_pool tk (IsNetIPv6 tk) ''externalCIDR6'' defs6) defs6 of
                     Some e \<Rightarrow> Ret (Some e)
                   | None \<Rightarrow>
                       if ac_ExtBGPPeers c \<noteq> [] \<and> ac_SetBGP c = 0 then
                         Ret (Some (''extBGPPeers '' @ fmt_strings (ac_ExtBGPPeers c) @ '' config is invalid''))
                       else go_bind (validate_peers (ac_ExtBGPPeers c))
                              (\<lambda>e. if e = None then Ret (validate_rest tk c) else Ret e)))))"

subsection \<open>Startup\<close>

definition networkConfig :: "AgentConfig \<Rightarrow> NetworkConfig" where
  "networkConfig c = \<lparr>cfg_LoxilbURLs = ac_LoxiURLs c, cfg_LoxilbLoadBalancerClass = ac_LoxilbLoadBalancerClass c,
     cfg_LoxilbGatewayClass = ac_LoxilbGatewayClass c, cfg_ExternalCIDRPoolDefs = slice (ac_ExternalCIDRPoolDefs c),
     cfg_ExternalCIDR6PoolDefs = slice (ac_ExternalCIDR6PoolDefs c), cfg_SetBGP = ac_SetBGP c,
     cfg_ListenBGPPort = ac_ListenBGPPort c, cfg_EBGPMultiHop = ac_EBGPMultiHop c, cfg_ExtBGPPeers = ac_ExtBGPPeers c,
     cfg_SetLBMode = ac_SetLBMode c, cfg_Monitor = ac_Monitor c, cfg_AppendEPs = ac_AppendEPs c,
     cfg_SetRoles = ac_SetRoles c, cfg_Zone = ac_Zone c, cfg_PrivateCIDR = ac_PrivateCIDR c,
     cfg_ExclIPAM = ac_ExclIPAM c, cfg_NumZoneInst = ac_NumZoneInst c, cfg_UsePodNetwork = ac_UsePodNetwork c,
     cfg_UseExternalEndpoint = False\<rparr>"

text \<open>The table of the pools: the pools are appended to a store and the table holds their indices.\<close>

fun make_pools ::
  "'a loxilib \<Rightarrow> bool \<Rightarrow> string list \<Rightarrow> string list \<Rightarrow> 'a IPPool list \<times> (string \<times> nat) list \<Rightarrow>
   error + 'a IPPool list \<times> (string \<times> nat) list" where
  "make_pools tk shared defs [] st = Inr st"
| "make_pools tk shared defs (pool # rest) (store, tbl) =
     (let poolStrSlice = split_on CHR ''='' pool in
      if length poolStrSlice \<noteq> 2 then Inl (''externalCIDR '' @ fmt_strings defs @ '' config is invalid'')
      else if has_key tbl (poolStrSlice ! 0) then Inl (''externalCIDR '' @ fmt_strings poolStrSlice @ '' already exists'')
      else (case NewIPPool tk (IpAllocatorNew tk) (poolStrSlice ! 1) shared of
              Inl err \<Rightarrow> Inl err
            | Inr ipPool \<Rightarrow>
                make_pools tk shared defs rest (store @ [ipPool], AList.update (poolStrSlice ! 0) (length store) tbl)))"

fun make_clients ::
  "(string \<Rightarrow> error + LoxiClient) \<Rightarrow> string list \<Rightarrow> LoxiClient list \<Rightarrow> error + LoxiClient list" where
  "make_clients mk [] cs = Inr cs"
| "make_clients mk (u # us) cs =
     (case mk u of Inl err \<Rightarrow> Inl err | Inr c \<Rightarrow> make_clients mk us (AddLoxiClient c cs))"

definition NewLoadBalancerManager ::
  "LoxiClient list \<Rightarrow> LoxiClient list \<Rightarrow> 'a IPPool list \<Rightarrow> (string \<times> nat) list \<Rightarrow> (string \<times> nat) list \<Rightarrow>
   NetworkConfig \<Rightarrow> 'a Manager" where
  "NewLoadBalancerManager clients peers store tbl tbl6 cfg =
     \<lparr>LoxiClients = clients, LoxiPeerClients = peers, ElectionRunOnce = False, lbCache = [],
      poolStore = store, ipPoolTbl = tbl, ip6PoolTbl = tbl6,
      zoneInstRoleMap = zone_inst_map (cfg_Zone cfg) (cfg_NumZoneInst cfg), loxiInstAddrMap = [],
      zoneInstSelHint = 0, apiLog = [], statusLog = []\<rparr>"

definition startup :: "'a loxilib \<Rightarrow> dial \<Rightarrow> AgentConfig \<Rightarrow> error + 'a Manager" where
  "startup tk d c =
     (let defs = slice (ac_ExternalCIDRPoolDefs c); defs6 = slice (ac_ExternalCIDR6PoolDefs c); shared = \<not> ac_ExclIPAM c in
      case make_pools tk shared defs defs ([], []) of
        Inl err \<Rightarrow> Inl err
      | Inr (store, tbl) \<Rightarrow>
          (case make_pools tk shared defs6 defs6 (store, []) of
             Inl err \<Rightarrow> Inl err
           | Inr (store, tbl6) \<Rightarrow>
               (case make_clients
                       (\<lambda>u. NewLoxiClient tk (url_Parse d) (sys_certs d) (time_now d) u False False []
                              (ac_Zone c) (ac_NumZoneInst c))
                       (ac_LoxiURLs c) [] of
                  Inl err \<Rightarrow> Inl err
                | Inr clients \<Rightarrow> Inr (NewLoadBalancerManager clients [] store tbl tbl6 (networkConfig c)))))"

subsection \<open>What a valid configuration gives\<close>

lemma first_of_None: "first_of f xs = None \<longleftrightarrow> (\<forall>x\<in>set xs. f x = None)"
  by (induction xs) (auto split: option.split)

lemma setDefaults_idem: "setDefaults (setDefaults c) = setDefaults c"
  by (cases c) (simp add: setDefaults_def split: option.split)

abbreviation pool_name :: "string \<Rightarrow> string" where
  "pool_name pool \<equiv> split_on CHR ''='' pool ! 0"

text \<open>A definition that passes validation makes a pool.\<close>

lemma valid_pool_made:
  assumes "validate_pool tk fam opt defs pool = None"
  shows "length (split_on CHR ''='' pool) = 2 \<and> (\<exists>p. NewIPPool tk al (split_on CHR ''='' pool ! 1) shared = Inr p)"
  using assms
  by (auto simp: validate_pool_def check_range_def NewIPPool_def Let_def split: if_splits option.splits)

lemma make_pools_wf:
  assumes "make_pools tk shared defs ps (store, tbl) = Inr (store', tbl')"
    and "list_all wf_pool store" and "\<forall>(n, i)\<in>set tbl. i < length store"
  shows "list_all wf_pool store' \<and> (\<forall>(n, i)\<in>set tbl'. i < length store') \<and> length store \<le> length store'"
  using assms
proof (induction ps arbitrary: store tbl)
  case (Cons p ps)
  then obtain q where q: "NewIPPool tk (IpAllocatorNew tk) (split_on CHR ''='' p ! 1) shared = Inr q"
    and rest: "make_pools tk shared defs ps (store @ [q], AList.update (pool_name p) (length store) tbl) = Inr (store', tbl')"
    by (auto simp: Let_def split: if_splits sum.splits)
  have "set (AList.update (pool_name p) (length store) tbl) \<subseteq> insert (pool_name p, length store) (set tbl)"
    by (induction tbl) auto
  then have "\<forall>(n, i)\<in>set (AList.update (pool_name p) (length store) tbl). i < length (store @ [q])"
    using Cons.prems(3) by fastforce
  then show ?case using Cons.IH[OF rest] Cons.prems(2) NewIPPool_wf[OF q] by auto
qed simp

lemma make_pools_total:
  assumes "\<forall>p\<in>set ps. validate_pool tk fam opt ds p = None" and "distinct (map pool_name ps)"
    and "\<forall>p\<in>set ps. \<not> has_key tbl (pool_name p)"
  shows "\<exists>store' tbl'. make_pools tk shared defs ps (store, tbl) = Inr (store', tbl') \<and>
    fst ` set tbl' = fst ` set tbl \<union> pool_name ` set ps"
  using assms
proof (induction ps arbitrary: store tbl)
  case (Cons p ps)
  obtain q where q: "length (split_on CHR ''='' p) = 2" "NewIPPool tk (IpAllocatorNew tk) (split_on CHR ''='' p ! 1) shared = Inr q"
    using valid_pool_made[of tk fam opt ds p "IpAllocatorNew tk" shared] Cons.prems(1) by auto
  let ?tbl = "AList.update (pool_name p) (length store) tbl"
  have keys: "fst ` set ?tbl = insert (pool_name p) (fst ` set tbl)"
    by (simp add: dom_update dom_map_of_conv_image_fst[symmetric] update_conv')
  have "\<forall>r\<in>set ps. \<not> has_key ?tbl (pool_name r)"
    using Cons.prems(2,3) by (auto simp: image_iff)
  then obtain store' tbl' where "make_pools tk shared defs ps (store @ [q], ?tbl) = Inr (store', tbl')"
      "fst ` set tbl' = fst ` set ?tbl \<union> pool_name ` set ps"
    using Cons.IH[of ?tbl "store @ [q]"] Cons.prems(1,2) by auto
  then show ?case using q Cons.prems(3) keys by (auto simp: Let_def)
qed simp

lemma make_clients_reach:
  assumes "make_clients (\<lambda>u. NewLoxiClient tk up ce now u False False [] zone num) us cs = Inr cs'" and "role_reach tk zone num cs"
  shows "role_reach tk zone num cs'"
  using assms
proof (induction us arbitrary: cs)
  case (Cons u us)
  then obtain c where c: "NewLoxiClient tk up ce now u False False [] zone num = Inr c"
    and "make_clients (\<lambda>u. NewLoxiClient tk up ce now u False False [] zone num) us (AddLoxiClient c cs) = Inr cs'"
    by (auto split: sum.splits)
  then show ?case using Cons.IH role_reach.join[OF Cons.prems(2) c] by blast
qed simp

lemma make_clients_total:
  "\<forall>u\<in>set us. \<exists>c. mk u = Inr c \<Longrightarrow> \<exists>cs'. make_clients mk us cs = Inr cs' \<and> length cs' = length cs + length us"
  by (induction us arbitrary: cs) (fastforce simp: AddLoxiClient_def)+

lemma make_clients_urls:
  "make_clients (\<lambda>u. NewLoxiClient tk up ce now u False False [] zone num) us cs = Inr cs' \<Longrightarrow>
   map cl_Url cs' = map cl_Url cs @ us"
  by (induction us arbitrary: cs)
     (auto simp: AddLoxiClient_def NewLoxiClient_def Let_def split: sum.splits prod.splits)

lemma startup_parts:
  assumes "startup tk d c = Inr m"
  obtains store tbl store6 tbl6 clients where
    "make_pools tk (\<not> ac_ExclIPAM c) (slice (ac_ExternalCIDRPoolDefs c)) (slice (ac_ExternalCIDRPoolDefs c)) ([], []) = Inr (store, tbl)"
    "make_pools tk (\<not> ac_ExclIPAM c) (slice (ac_ExternalCIDR6PoolDefs c)) (slice (ac_ExternalCIDR6PoolDefs c)) (store, []) = Inr (store6, tbl6)"
    "make_clients (\<lambda>u. NewLoxiClient tk (url_Parse d) (sys_certs d) (time_now d) u False False [] (ac_Zone c) (ac_NumZoneInst c))
       (ac_LoxiURLs c) [] = Inr clients"
    "m = NewLoadBalancerManager clients [] store6 tbl tbl6 (networkConfig c)"
  using assms by (auto simp: startup_def Let_def split: sum.splits prod.splits)

lemma startup_wf_manager:
  assumes "startup tk d c = Inr m"
  shows "wf_manager m"
proof -
  obtain store tbl store6 tbl6 clients where p: "make_pools tk (\<not> ac_ExclIPAM c) (slice (ac_ExternalCIDRPoolDefs c))
      (slice (ac_ExternalCIDRPoolDefs c)) ([], []) = Inr (store, tbl)"
    "make_pools tk (\<not> ac_ExclIPAM c) (slice (ac_ExternalCIDR6PoolDefs c)) (slice (ac_ExternalCIDR6PoolDefs c)) (store, []) = Inr (store6, tbl6)"
    "m = NewLoadBalancerManager clients [] store6 tbl tbl6 (networkConfig c)"
    using assms by (rule startup_parts)
  have "list_all wf_pool store \<and> (\<forall>(n, i)\<in>set tbl. i < length store)" using make_pools_wf[OF p(1)] by simp
  moreover have "list_all wf_pool store6 \<and> (\<forall>(n, i)\<in>set tbl6. i < length store6) \<and> length store \<le> length store6"
    using make_pools_wf[OF p(2)] calculation by simp
  ultimately show ?thesis
    unfolding p(3) by (fastforce simp: wf_manager_def wf_pools_def NewLoadBalancerManager_def)
qed

lemma startup_fleet:
  assumes "startup tk d c = Inr m"
  shows "role_reach tk (ac_Zone c) (ac_NumZoneInst c) (LoxiClients m) \<and>
    zoneInstRoleMap m = zone_inst_map (ac_Zone c) (ac_NumZoneInst c) \<and> lbCache m = [] \<and>
    map cl_Url (LoxiClients m) = ac_LoxiURLs c"
proof -
  obtain store tbl store6 tbl6 clients where
    cs: "make_clients (\<lambda>u. NewLoxiClient tk (url_Parse d) (sys_certs d) (time_now d) u False False [] (ac_Zone c) (ac_NumZoneInst c))
       (ac_LoxiURLs c) [] = Inr clients"
    and m: "m = NewLoadBalancerManager clients [] store6 tbl tbl6 (networkConfig c)"
    using assms by (rule startup_parts)
  show ?thesis
    using make_clients_reach[OF cs role_reach.start] make_clients_urls[OF cs]
    by (simp add: m NewLoadBalancerManager_def networkConfig_def)
qed

text \<open>
  The agent starts in a good state: whenever \<open>run\<close> gets as far as a load-balancer manager, the
  manager is well-formed (the invariant the handlers rely on), nothing is cached, its clients
  are a state of the role machine, and there is one for each configured URL, in order.
\<close>

theorem startup_establishes_invariant:
  assumes "startup tk d c = Inr m"
  shows "wf_manager m \<and> lbCache m = [] \<and> role_reach tk (ac_Zone c) (ac_NumZoneInst c) (LoxiClients m) \<and>
    zoneInstRoleMap m = zone_inst_map (ac_Zone c) (ac_NumZoneInst c) \<and>
    map cl_Url (LoxiClients m) = ac_LoxiURLs c"
  using startup_wf_manager[OF assms] startup_fleet[OF assms] by blast

text \<open>
  A configuration that passes \<open>validate\<close> starts: if in addition no two IPv4 pools and no two IPv6
  pools have the same name and a client can be made for every URL, then \<open>run\<close> makes every pool and
  every client, and the tables hold exactly the configured names.
\<close>

theorem valid_config_starts:
  assumes "validate tk d [] c = Ret None"
    and "distinct (map pool_name (slice (ac_ExternalCIDRPoolDefs c)))"
    and "distinct (map pool_name (slice (ac_ExternalCIDR6PoolDefs c)))"
    and "\<forall>u\<in>set (ac_LoxiURLs c). \<exists>cl. NewLoxiClient tk (url_Parse d) (sys_certs d) (time_now d) u False False []
      (ac_Zone c) (ac_NumZoneInst c) = Inr cl"
  shows "\<exists>m. startup tk d c = Inr m \<and> length (LoxiClients m) = length (ac_LoxiURLs c) \<and>
    fst ` set (ipPoolTbl m) = pool_name ` set (slice (ac_ExternalCIDRPoolDefs c)) \<and>
    fst ` set (ip6PoolTbl m) = pool_name ` set (slice (ac_ExternalCIDR6PoolDefs c))"
proof -
  let ?ds = "slice (ac_ExternalCIDRPoolDefs c)" and ?ds6 = "slice (ac_ExternalCIDR6PoolDefs c)"
  have "\<forall>p\<in>set ?ds. validate_pool tk (IsNetIPv4 tk) ''externalCIDR'' ?ds p = None"
    "\<forall>p\<in>set ?ds6. validate_pool tk (IsNetIPv6 tk) ''externalCIDR6'' ?ds6 p = None"
    using assms(1) by (auto simp: validate_def Let_def first_of_None[symmetric] split: option.splits)
  note v = make_pools_total[OF this(1) assms(2), of "[]"] make_pools_total[OF this(2) assms(3), of "[]"]
  obtain store tbl where p: "make_pools tk (\<not> ac_ExclIPAM c) ?ds ?ds ([], []) = Inr (store, tbl)"
    "fst ` set tbl = pool_name ` set ?ds" using v(1) by (fastforce simp: has_key_iff)
  obtain store6 tbl6 where p6: "make_pools tk (\<not> ac_ExclIPAM c) ?ds6 ?ds6 (store, []) = Inr (store6, tbl6)"
    "fst ` set tbl6 = pool_name ` set ?ds6" using v(2) by (fastforce simp: has_key_iff)
  obtain clients where "make_clients (\<lambda>u. NewLoxiClient tk (url_Parse d) (sys_certs d) (time_now d) u False False []
      (ac_Zone c) (ac_NumZoneInst c)) (ac_LoxiURLs c) [] = Inr clients" "length clients = length (ac_LoxiURLs c)"
    using make_clients_total[OF assms(4), of "[]"] by auto
  then show ?thesis using p p6 by (simp add: startup_def Let_def NewLoadBalancerManager_def)
qed

subsection \<open>An instance\<close>

text \<open>The library with the family tests it has: by the number of colons.\<close>

definition colon_ipam :: "(string \<times> string) list loxilib" where
  "colon_ipam = list_ipam\<lparr>IsNetIPv4 := (\<lambda>s. length (filter (\<lambda>c. c = CHR '':'') s) < 2),
     IsNetIPv6 := (\<lambda>s. 2 \<le> length (filter (\<lambda>c. c = CHR '':'') s))\<rparr>"

definition zero_config :: AgentConfig where
  "zero_config = \<lparr>ac_HostProcPathPrefix = [], ac_WithNamespace = False, ac_LoxiURLs = [''http://12.12.12.1:11111''],
     ac_NodePortServiceVirtIP = [], ac_LoxilbLoadBalancerClass = [], ac_EnableGatewayAPI = False,
     ac_LoxilbGatewayClass = [], ac_ExternalCIDR = [], ac_ExternalCIDRPoolDefs = None,
     ac_ExternalCIDR6PoolDefs = Some [], ac_ExtBGPPeers = [], ac_SetBGP = 0, ac_ListenBGPPort = 0,
     ac_EBGPMultiHop = False, ac_SetLBMode = 0, ac_ExclIPAM = False, ac_Monitor = False, ac_AppendEPs = False,
     ac_SetRoles = [], ac_Zone = [], ac_ExcludeRoleList = [], ac_PrivateCIDR = [], ac_EnableBGPCRDs = False,
     ac_NumZoneInst = 0, ac_UsePodNetwork = False, ac_UseExternalEndpoint = False, ac_NoZoneName = False,
     ac_EnableK8sMetadata = False\<rparr>"

lemma default_config:
  "setDefaults zero_config = zero_config\<lparr>ac_WithNamespace := True, ac_HostProcPathPrefix := ''/host'',
     ac_NodePortServiceVirtIP := ''11.187.0.1/32'', ac_LoxilbLoadBalancerClass := ''loxilb.io/loxilb'',
     ac_LoxilbGatewayClass := ''loxilb.io/loxilb'',
     ac_ExternalCIDRPoolDefs := Some [''defaultPool=123.123.123.1/24''], ac_ListenBGPPort := 179, ac_Zone := ''llb'',
     ac_NumZoneInst := 1\<rparr>"
  by (simp add: setDefaults_def zero_config_def)

lemma default_config_client:
  "\<exists>cl. NewLoxiClient colon_ipam (url_Parse demo_dial) (sys_certs demo_dial) (time_now demo_dial)
     ''http://12.12.12.1:11111'' False False [] ''llb'' 1 = Inr cl"
proof -
  let ?new = "NewLoxiClient colon_ipam (url_Parse demo_dial) (sys_certs demo_dial) (time_now demo_dial)
     ''http://12.12.12.1:11111'' False False [] ''llb'' 1"
  have "case ?new of Inl _ \<Rightarrow> False | Inr _ \<Rightarrow> True" by code_simp
  then show ?thesis by (auto split: sum.splits)
qed

lemma default_pool_valid:
  "validate_pool colon_ipam (IsNetIPv4 colon_ipam) ''externalCIDR'' defs ''defaultPool=123.123.123.1/24'' = None"
proof -
  have "split_on CHR ''='' ''defaultPool=123.123.123.1/24'' = [''defaultPool'', ''123.123.123.1/24'']" by code_simp
  moreover have "ParseCIDR ''123.123.123.1/24'' \<noteq> None" by code_simp
  moreover have "IsNetIPv4 colon_ipam ''123.123.123.1/24''" by code_simp
  ultimately show ?thesis by (auto simp: validate_pool_def Let_def)
qed

lemma default_config_valid: "validate colon_ipam demo_dial [] (setDefaults zero_config) = Ret None"
proof -
  have "contains_str ''loxilb.io/loxilb'' ''/''" by code_simp
  then show ?thesis
    unfolding default_config
    by (simp add: validate_def zero_config_def slice_def default_pool_valid validate_rest_def demo_dial_def has_prefix_def)
qed

lemma default_config_starts: "\<exists>m. startup colon_ipam demo_dial (setDefaults zero_config) = Inr m"
proof -
  let ?pool = "''defaultPool=123.123.123.1/24''" and ?c = "setDefaults zero_config"
  have "\<exists>p. length (split_on CHR ''='' ?pool) = 2 \<and> NewIPPool colon_ipam (IpAllocatorNew colon_ipam) (split_on CHR ''='' ?pool ! 1) True = Inr p"
    using valid_pool_made[OF default_pool_valid] by blast
  then show ?thesis
    unfolding default_config using default_config_client
    by (auto simp: startup_def zero_config_def slice_def Let_def has_key_def)
qed

theorem valid_config_starts_witness:
  "\<exists>m. startup colon_ipam demo_dial (setDefaults zero_config) = Inr m \<and> length (LoxiClients m) = 1 \<and>
     fst ` set (ipPoolTbl m) = {''defaultPool''}"
proof -
  let ?c = "setDefaults zero_config"
  have name: "pool_name ''defaultPool=123.123.123.1/24'' = ''defaultPool''" by code_simp
  have f: "slice (ac_ExternalCIDRPoolDefs ?c) = [''defaultPool=123.123.123.1/24'']" "slice (ac_ExternalCIDR6PoolDefs ?c) = []"
    "ac_LoxiURLs ?c = [''http://12.12.12.1:11111'']" "ac_Zone ?c = ''llb''" "ac_NumZoneInst ?c = 1"
    unfolding default_config by (simp_all add: zero_config_def slice_def)
  show ?thesis
    using valid_config_starts[OF default_config_valid] default_config_client unfolding f by (auto simp: name)
qed

theorem startup_establishes_invariant_witness:
  "\<exists>m. startup colon_ipam demo_dial zero_config = Inr m \<and> wf_manager m \<and> map cl_Url (LoxiClients m) = [''http://12.12.12.1:11111'']"
proof -
  let ?new = "NewLoxiClient colon_ipam (url_Parse demo_dial) (sys_certs demo_dial) (time_now demo_dial)
     ''http://12.12.12.1:11111'' False False [] [] 0"
  have "case ?new of Inl _ \<Rightarrow> False | Inr _ \<Rightarrow> True" by code_simp
  then have "\<exists>cl. ?new = Inr cl" by (auto split: sum.splits)
  then obtain m where "startup colon_ipam demo_dial zero_config = Inr m"
    by (auto simp: startup_def zero_config_def slice_def)
  then show ?thesis using startup_establishes_invariant[of colon_ipam demo_dial zero_config m] by (auto simp: zero_config_def)
qed

end
