(* ===== verification/Log_Files.thy ===== *)
theory Log_Files
  imports Go_Prelude "HOL-Library.Multiset"
begin

text \<open>
  The log files of the agent (\<open>pkg/log/logFile.go\<close>): the limits that the flags set, and the monitor
  that removes the oldest files of a severity when there are more than the limit, with what it keeps
  and removes. Also the comparison of slices of \<open>pkg/util/utils.go\<close>.

  The directory is the list of its files. Opening and reading it and removing a file may fail, as
  the record \<open>log_disk\<close> says. \<open>sort.Slice\<close> is a parameter that takes the comparison of the code: its
  documentation promises an order of the slice for every strict weak order, and elements that are
  equal for the comparison in any order.
\<close>

subsection \<open>State and parameters\<close>

record Log_State =
  maxNumArg :: "16 word"
  logFileMaxNum :: "16 word"
  logDir :: string
  klog_MaxSize :: "64 word"

record log_flags =
  fl_logtostderr :: "error + bool"
  fl_log_file :: "error + string"
  fl_max_size :: "error + 64 word"
  fl_log_dir :: "error + string"

record FileInfo =
  fi_Name :: string
  fi_Regular :: bool
  fi_ModTime :: int

record log_disk =
  ld_open :: "string \<Rightarrow> error option"
  ld_readdir :: "string \<Rightarrow> error option"
  ld_remove :: "string \<Rightarrow> error option"

subsection \<open>The limits\<close>

definition maxMaxSizeMB :: "64 word" where
  "maxMaxSizeMB = 1024 * 100"

definition set_max_size :: "64 word \<Rightarrow> Log_State \<Rightarrow> Log_State" where
  "set_max_size maxSize st =
     (if maxSize > maxMaxSizeMB then st
      else let maxSize = maxSize * 1024 * 1024
           in if klog_MaxSize st \<noteq> maxSize then st\<lparr>klog_MaxSize := maxSize\<rparr> else st)"

text \<open>
  The second result is the directory that \<open>os.MkdirAll\<close> is asked for. \<open>GetString\<close> returns the
  empty string with an error, and the result is assigned before the error is looked at.
\<close>

definition InitLogFileLimits :: "log_flags \<Rightarrow> string \<Rightarrow> Log_State \<Rightarrow> Log_State \<times> string option" where
  "InitLogFileLimits fs tempDir st =
     (case fl_logtostderr fs of
        Inl _ \<Rightarrow> (st, None)
      | Inr logToStdErr \<Rightarrow>
          if logToStdErr then (st, None)
          else
            (case fl_log_file fs of
               Inl _ \<Rightarrow> (st, None)
             | Inr logFile \<Rightarrow>
                 if logFile \<noteq> [] then (st, None)
                 else
                   (case fl_max_size fs of
                      Inl _ \<Rightarrow> (st, None)
                    | Inr maxSize \<Rightarrow>
                        (let st = set_max_size maxSize st in
                         if maxNumArg st > 0 then
                           (case fl_log_dir fs of
                              Inl _ \<Rightarrow> (st\<lparr>logDir := []\<rparr>, None)
                            | Inr dir \<Rightarrow>
                                (let dir = (if dir = [] then tempDir else dir)
                                 in (st\<lparr>logFileMaxNum := maxNumArg st, logDir := dir\<rparr>, Some dir)))
                         else (st, None)))))"

subsection \<open>The monitor\<close>

datatype severity = Info | Warning | Error

definition file_severity :: "string \<Rightarrow> FileInfo \<Rightarrow> severity option" where
  "file_severity executableName f =
     (if \<not> fi_Regular f then None
      else if \<not> has_prefix (fi_Name f) executableName then None
      else if contains_str (fi_Name f) ''.log.INFO.'' then Some Info
      else if contains_str (fi_Name f) ''.log.WARNING.'' then Some Warning
      else if contains_str (fi_Name f) ''.log.ERROR.'' then Some Error
      else None)"

fun remove_files :: "log_disk \<Rightarrow> string \<Rightarrow> FileInfo list \<Rightarrow> FileInfo list \<Rightarrow> FileInfo list" where
  "remove_files d dir [] files = files"
| "remove_files d dir (f # fs) files =
     remove_files d dir fs
       (case ld_remove d (dir @ ''/'' @ fi_Name f) of
          Some _ \<Rightarrow> files
        | None \<Rightarrow> filter (\<lambda>g. fi_Name g \<noteq> fi_Name f) files)"

text \<open>The comparison \<open>files[i].ModTime().After(files[j].ModTime())\<close>.\<close>

definition newer_file :: "FileInfo \<Rightarrow> FileInfo \<Rightarrow> bool" where
  "newer_file f g = (fi_ModTime f > fi_ModTime g)"

definition checkFilesFn ::
  "log_disk \<Rightarrow> ((FileInfo \<Rightarrow> FileInfo \<Rightarrow> bool) \<Rightarrow> FileInfo list \<Rightarrow> FileInfo list) \<Rightarrow> string \<Rightarrow> nat \<Rightarrow> FileInfo list \<Rightarrow> FileInfo list \<Rightarrow> FileInfo list" where
  "checkFilesFn d sort_Slice dir maxNum fs files =
     (if length fs \<le> maxNum then files
      else remove_files d dir (drop maxNum (sort_Slice newer_file fs)) files)"

definition checkLogFiles ::
  "log_disk \<Rightarrow> ((FileInfo \<Rightarrow> FileInfo \<Rightarrow> bool) \<Rightarrow> FileInfo list \<Rightarrow> FileInfo list) \<Rightarrow> string \<Rightarrow> Log_State \<Rightarrow> FileInfo list \<Rightarrow> FileInfo list" where
  "checkLogFiles d sort_Slice executableName st files =
     (if ld_open d (logDir st) \<noteq> None then files
      else if ld_readdir d (logDir st) \<noteq> None then files
      else
        (let maxNum = unat (logFileMaxNum st) in
         if length files \<le> maxNum then files
         else
           (let infoLogFiles = filter (\<lambda>f. file_severity executableName f = Some Info) files;
                warningLogFiles = filter (\<lambda>f. file_severity executableName f = Some Warning) files;
                errorLogFiles = filter (\<lambda>f. file_severity executableName f = Some Error) files;
                check = checkFilesFn d sort_Slice (logDir st) maxNum
            in check errorLogFiles (check warningLogFiles (check infoLogFiles files)))))"

text \<open>The rounds of the monitor; before each round \<open>w\<close> is what happened to the directory since the last.\<close>

definition StartLogFileNumberMonitor ::
  "log_disk \<Rightarrow> ((FileInfo \<Rightarrow> FileInfo \<Rightarrow> bool) \<Rightarrow> FileInfo list \<Rightarrow> FileInfo list) \<Rightarrow> string \<Rightarrow> Log_State \<Rightarrow>
   (FileInfo list \<Rightarrow> FileInfo list) list \<Rightarrow> FileInfo list \<Rightarrow> FileInfo list" where
  "StartLogFileNumberMonitor d sort_Slice executableName st writes files =
     (if logFileMaxNum st = 0 then fold (\<lambda>w. w) writes files
      else fold (\<lambda>w files. checkLogFiles d sort_Slice executableName st (w files)) writes files)"

definition SliceEqual :: "'e list \<Rightarrow> 'e list \<Rightarrow> bool" where
  "SliceEqual s1 s2 =
     (if length s1 \<noteq> length s2 then False
      else list_all (\<lambda>i. s1 ! i = s2 ! i) [0..<length s1])"

subsection \<open>What the monitor keeps\<close>

text \<open>
  What the documentation of \<open>sort.Slice\<close> promises, for any comparison that is a strict weak order: the
  result has the same elements, and no element comes after one that it is less than.
\<close>

definition strict_weak :: "('x \<Rightarrow> 'x \<Rightarrow> bool) \<Rightarrow> bool" where
  "strict_weak lt \<longleftrightarrow>
     (\<forall>x. \<not> lt x x) \<and> (\<forall>x y z. lt x y \<longrightarrow> lt y z \<longrightarrow> lt x z) \<and>
     (\<forall>x y z. \<not> lt x y \<longrightarrow> \<not> lt y z \<longrightarrow> \<not> lt x z)"

definition slice_sorting :: "(('x \<Rightarrow> 'x \<Rightarrow> bool) \<Rightarrow> 'x list \<Rightarrow> 'x list) \<Rightarrow> bool" where
  "slice_sorting sort_Slice \<longleftrightarrow>
     (\<forall>lt xs. strict_weak lt \<longrightarrow>
        mset (sort_Slice lt xs) = mset xs \<and> sorted_wrt (\<lambda>x y. \<not> lt y x) (sort_Slice lt xs))"

text \<open>A function that returns the same files, the newest first.\<close>

definition newest_first :: "(FileInfo list \<Rightarrow> FileInfo list) \<Rightarrow> bool" where
  "newest_first sort_files =
     (\<forall>fs. mset (sort_files fs) = mset fs \<and> sorted_wrt (\<lambda>f g. fi_ModTime g \<le> fi_ModTime f) (sort_files fs))"

definition of_severity :: "string \<Rightarrow> severity \<Rightarrow> FileInfo list \<Rightarrow> FileInfo list" where
  "of_severity ex s fs = filter (\<lambda>f. file_severity ex f = Some s) fs"

definition removable :: "log_disk \<Rightarrow> string \<Rightarrow> FileInfo \<Rightarrow> bool" where
  "removable d dir f = (ld_remove d (dir @ ''/'' @ fi_Name f) = None)"

text \<open>The comparison of the code puts the newest files first.\<close>

lemma newer_file_order: "strict_weak newer_file"
  by (auto simp: strict_weak_def newer_file_def)

lemma slice_newest_first: "slice_sorting sort_Slice \<Longrightarrow> newest_first (sort_Slice newer_file)"
  using newer_file_order unfolding slice_sorting_def newest_first_def by (auto simp: newer_file_def not_less)

lemma newest_first_D:
  assumes "newest_first sort_files"
  shows "set (sort_files fs) = set fs" "length (sort_files fs) = length fs" "distinct (sort_files fs) = distinct fs"
    "sorted_wrt (\<lambda>f g. fi_ModTime g \<le> fi_ModTime f) (sort_files fs)"
  using assms unfolding newest_first_def
  by (metis mset_eq_setD, metis mset_eq_length, metis mset_eq_imp_distinct_iff, blast)

lemmas slice_D = newest_first_D[OF slice_newest_first]

lemma remove_files_eq:
  "remove_files d dir fs files =
   filter (\<lambda>g. \<not> (fi_Name g \<in> fi_Name ` set fs \<and> removable d dir g)) files"
proof (induction fs arbitrary: files)
  case (Cons f fs)
  show ?case
    by (auto simp: Cons.IH removable_def split: option.split intro!: filter_cong)
qed simp

lemma same_name:
  fixes f g :: FileInfo
  assumes "distinct (map fi_Name files)" and "f \<in> set files" "g \<in> set files" and "fi_Name f = fi_Name g"
  shows "f = g"
  using assms by (auto simp: distinct_map dest: inj_onD)

text \<open>One severity: the surplus is what comes after the first \<open>n\<close> files.\<close>

definition surplus :: "(FileInfo list \<Rightarrow> FileInfo list) \<Rightarrow> nat \<Rightarrow> FileInfo list \<Rightarrow> FileInfo set" where
  "surplus sort_files n fs = set (drop n (sort_files fs))"

lemma checkFilesFn_eq:
  assumes "slice_sorting srt" and "distinct (map fi_Name all)" and "set fs \<subseteq> set all" and "set files \<subseteq> set all"
  shows "checkFilesFn d srt dir n fs files =
    filter (\<lambda>g. \<not> (g \<in> surplus (srt newer_file) n fs \<and> removable d dir g)) files"
proof -
  have sub: "set (drop n (srt newer_file fs)) \<subseteq> set all"
    using assms(3) slice_D(1)[OF assms(1), of fs] set_drop_subset by fastforce
  have "fi_Name g \<in> fi_Name ` set (drop n (srt newer_file fs)) \<longleftrightarrow> g \<in> set (drop n (srt newer_file fs))" if "g \<in> set files" for g
    using that sub assms(4) by (auto dest: same_name[OF assms(2)])
  then show ?thesis
    using slice_D(2)[OF assms(1), of fs]
    by (auto simp: checkFilesFn_def remove_files_eq surplus_def intro!: filter_cong)
qed

lemma checkLogFiles_eq:
  assumes "slice_sorting srt" and "distinct (map fi_Name files)"
    and "ld_open d (logDir st) = None" and "ld_readdir d (logDir st) = None"
  shows "checkLogFiles d srt ex st files =
    filter (\<lambda>g. \<not> (removable d (logDir st) g \<and> (\<exists>s. g \<in> surplus (srt newer_file) (unat (logFileMaxNum st)) (of_severity ex s files)))) files"
proof -
  let ?n = "unat (logFileMaxNum st)"
  note fn = checkFilesFn_eq[OF assms(1,2)]
  have ex: "(\<exists>s. g \<in> surplus (srt newer_file) ?n (of_severity ex s files)) \<longleftrightarrow>
      g \<in> surplus (srt newer_file) ?n (of_severity ex Info files) \<or> g \<in> surplus (srt newer_file) ?n (of_severity ex Warning files) \<or>
      g \<in> surplus (srt newer_file) ?n (of_severity ex Error files)" for g
    by (metis severity.exhaust)
  have sub: "set (of_severity ex s files) \<subseteq> set files" for s by (auto simp: of_severity_def)
  show ?thesis
  proof (cases "length files \<le> ?n")
    case True
    then have "length (of_severity ex s files) \<le> ?n" for s by (metis length_filter_le le_trans of_severity_def)
    then have "surplus (srt newer_file) ?n (of_severity ex s files) = {}" for s
      by (simp add: surplus_def slice_D(2)[OF assms(1)])
    then show ?thesis using True assms(3,4) by (simp add: checkLogFiles_def)
  next
    case False
    then have "checkLogFiles d srt ex st files =
        (let check = checkFilesFn d srt (logDir st) ?n
         in check (of_severity ex Error files) (check (of_severity ex Warning files) (check (of_severity ex Info files) files)))"
      using assms(3,4) by (simp add: checkLogFiles_def of_severity_def Let_def)
    also have "\<dots> = filter (\<lambda>g. \<not> (removable d (logDir st) g \<and> (\<exists>s. g \<in> surplus (srt newer_file) ?n (of_severity ex s files)))) files"
      by (auto simp: fn[OF sub] ex Let_def intro!: filter_cong)
    finally show ?thesis .
  qed
qed

lemma filter_not_in_drop:
  assumes "distinct xs" and "set xs = set ys" and "distinct ys"
  shows "set (filter (\<lambda>x. x \<notin> set (drop n xs)) ys) = set (take n xs)"
    and "length (filter (\<lambda>x. x \<notin> set (drop n xs)) ys) = min (length ys) n"
proof -
  have "set (take n xs) \<inter> set (drop n xs) = {}" using assms(1) by (metis append_take_drop_id distinct_append)
  moreover have "set xs = set (take n xs) \<union> set (drop n xs)" by (metis append_take_drop_id set_append)
  ultimately show eq: "set (filter (\<lambda>x. x \<notin> set (drop n xs)) ys) = set (take n xs)" using assms(2) by auto
  have "length xs = length ys" using assms by (metis distinct_card)
  moreover have "distinct (filter (\<lambda>x. x \<notin> set (drop n xs)) ys)" "distinct (take n xs)" using assms by simp_all
  ultimately show "length (filter (\<lambda>x. x \<notin> set (drop n xs)) ys) = min (length ys) n"
    using eq by (metis distinct_card length_take)
qed

lemma surplus_severity:
  assumes "newest_first sort_files" and "g \<in> surplus sort_files n (of_severity ex s files)"
  shows "file_severity ex g = Some s"
  using assms(2) newest_first_D(1)[OF assms(1), of "of_severity ex s files"] set_drop_subset
  by (fastforce simp: surplus_def of_severity_def)

lemmas slice_surplus = surplus_severity[OF slice_newest_first]

lemma of_severity_filter: "of_severity ex s (filter P fs) = filter P (of_severity ex s fs)"
  by (auto simp: of_severity_def intro: filter_cong)

lemma check_of_severity:
  assumes "slice_sorting srt" and "distinct (map fi_Name files)"
    and "ld_open d (logDir st) = None" and "ld_readdir d (logDir st) = None" and "\<forall>p. ld_remove d p = None"
  shows "of_severity ex s (checkLogFiles d srt ex st files) =
    filter (\<lambda>g. g \<notin> set (drop (unat (logFileMaxNum st)) (srt newer_file (of_severity ex s files)))) (of_severity ex s files)"
proof -
  let ?old = "of_severity ex s files"
  have "removable d (logDir st) g" for g using assms(5) by (simp add: removable_def)
  moreover have "(\<exists>t. g \<in> surplus (srt newer_file) n (of_severity ex t files)) \<longleftrightarrow> g \<in> surplus (srt newer_file) n ?old"
    if g: "g \<in> set ?old" for g n
  proof -
    have "t = s" if t: "g \<in> surplus (srt newer_file) n (of_severity ex t files)" for t
      using slice_surplus[OF assms(1) t] g by (simp add: of_severity_def)
    then show ?thesis by blast
  qed
  ultimately have "filter (\<lambda>g. \<not> (removable d (logDir st) g \<and>
      (\<exists>t. g \<in> surplus (srt newer_file) (unat (logFileMaxNum st)) (of_severity ex t files)))) ?old =
    filter (\<lambda>g. g \<notin> surplus (srt newer_file) (unat (logFileMaxNum st)) ?old) ?old"
    by (intro filter_cong) simp_all
  then show ?thesis
    unfolding checkLogFiles_eq[OF assms(1-4)] of_severity_filter surplus_def .
qed

lemma check_count:
  assumes "slice_sorting srt" and "distinct (map fi_Name files)"
    and "ld_open d (logDir st) = None" and "ld_readdir d (logDir st) = None" and "\<forall>p. ld_remove d p = None"
  shows "length (of_severity ex s (checkLogFiles d srt ex st files)) =
    min (length (of_severity ex s files)) (unat (logFileMaxNum st))"
proof -
  have "distinct (of_severity ex s files)" using assms(2) by (simp add: of_severity_def distinct_map)
  then show ?thesis
    unfolding check_of_severity[OF assms] using slice_D[OF assms(1)] by (intro filter_not_in_drop(2)) auto
qed

lemma check_names:
  assumes "slice_sorting srt" and "distinct (map fi_Name files)"
  shows "distinct (map fi_Name (checkLogFiles d srt ex st files))"
proof (cases "ld_open d (logDir st) = None \<and> ld_readdir d (logDir st) = None")
  case True
  then show ?thesis using assms by (simp add: checkLogFiles_eq distinct_map_filter)
next
  case False
  then show ?thesis using assms(2) by (auto simp: checkLogFiles_def)
qed

text \<open>
  C37. What a round of the monitor keeps. When the directory can be read and files can be removed,
  \<open>checkLogFiles\<close> leaves of each severity as many files as there were, but at most the limit; none
  of those it keeps is older than one it removed. Of \<open>sort.Slice\<close> only its documented behaviour is
  used: files of the same time may come in any order. Files that are not log files of the program stay as they are.
\<close>

theorem check_keeps_newest:
  assumes "slice_sorting sort_Slice" and "distinct (map fi_Name files)"
    and "ld_open d (logDir st) = None" and "ld_readdir d (logDir st) = None" and "\<forall>p. ld_remove d p = None"
  shows "let files' = checkLogFiles d sort_Slice ex st files in
    (\<forall>s. length (of_severity ex s files') = min (length (of_severity ex s files)) (unat (logFileMaxNum st)) \<and>
       set (of_severity ex s files') \<subseteq> set (of_severity ex s files) \<and>
       (\<forall>f\<in>set (of_severity ex s files) - set (of_severity ex s files'). \<forall>g\<in>set (of_severity ex s files').
          fi_ModTime f \<le> fi_ModTime g)) \<and>
    filter (\<lambda>f. file_severity ex f = None) files' = filter (\<lambda>f. file_severity ex f = None) files"
proof -
  let ?n = "unat (logFileMaxNum st)" and ?files' = "checkLogFiles d sort_Slice ex st files"
  have newest: "fi_ModTime f \<le> fi_ModTime g"
    if f: "f \<in> set (of_severity ex s files) - set (of_severity ex s ?files')" and g: "g \<in> set (of_severity ex s ?files')" for s f g
  proof -
    let ?old = "of_severity ex s files"
    let ?xs = "sort_Slice newer_file ?old"
    have "distinct ?old" using assms(2) by (simp add: of_severity_def distinct_map)
    then have new: "set (of_severity ex s ?files') = set (take ?n ?xs)"
      unfolding check_of_severity[OF assms] using slice_D[OF assms(1), of ?old] by (intro filter_not_in_drop(1)) auto
    have "set ?xs = set (take ?n ?xs) \<union> set (drop ?n ?xs)" by (metis append_take_drop_id set_append)
    then have "f \<in> set (drop ?n ?xs)" "g \<in> set (take ?n ?xs)"
      using f g new slice_D(1)[OF assms(1), of ?old] by auto
    moreover have "sorted_wrt (\<lambda>f g. fi_ModTime g \<le> fi_ModTime f) (take ?n ?xs @ drop ?n ?xs)"
      using slice_D(4)[OF assms(1)] by simp
    ultimately show ?thesis unfolding sorted_wrt_append by blast
  qed
  have "filter (\<lambda>f. file_severity ex f = None) ?files' = filter (\<lambda>f. file_severity ex f = None) files"
    unfolding checkLogFiles_eq[OF assms(1-4)] filter_filter
    by (rule filter_cong[OF refl]) (metis option.distinct(1) slice_surplus[OF assms(1)])
  moreover have "set (of_severity ex s ?files') \<subseteq> set (of_severity ex s files)" for s
    by (auto simp: check_of_severity[OF assms])
  ultimately show ?thesis using newest check_count[OF assms] by (simp add: Let_def)
qed

subsection \<open>From the flags to the limit\<close>

lemma monitor_last:
  assumes "slice_sorting srt" and "distinct (map fi_Name files)" and "\<forall>w\<in>set writes. \<forall>fs. distinct (map fi_Name fs) \<longrightarrow> distinct (map fi_Name (w fs))"
    and "writes \<noteq> []"
  shows "\<exists>fs. distinct (map fi_Name fs) \<and>
    fold (\<lambda>w files. checkLogFiles d srt ex st (w files)) writes files = checkLogFiles d srt ex st fs"
  using assms(2-4)
proof (induction writes arbitrary: files)
  case (Cons w ws)
  then have w: "distinct (map fi_Name (w files))" by simp
  show ?case
  proof (cases ws)
    case Nil
    then show ?thesis using w by auto
  next
    case Cons': (Cons _ _)
    then show ?thesis using Cons.IH[OF check_names[OF assms(1) w]] Cons.prems(2) by simp
  qed
qed simp

definition limits_on :: "log_flags \<Rightarrow> Log_State \<Rightarrow> bool" where
  "limits_on fs st =
     (fl_logtostderr fs = Inr False \<and> fl_log_file fs = Inr [] \<and> (\<exists>size. fl_max_size fs = Inr size) \<and>
      (\<exists>dir. fl_log_dir fs = Inr dir) \<and> 0 < maxNumArg st)"

lemma set_max_size_fields [simp]:
  "maxNumArg (set_max_size n st) = maxNumArg st" "logFileMaxNum (set_max_size n st) = logFileMaxNum st"
  "logDir (set_max_size n st) = logDir st"
  by (simp_all add: set_max_size_def Let_def)

lemma InitLogFileLimits_num:
  assumes "logFileMaxNum st = 0"
  shows "logFileMaxNum (fst (InitLogFileLimits fs tmp st)) = (if limits_on fs st then maxNumArg st else 0)"
  using assms by (auto simp: InitLogFileLimits_def limits_on_def Let_def split: sum.split)

text \<open>
  The limit of the flags. The monitor is started on the state that \<open>InitLogFileLimits\<close> leaves. If
  logging goes to files, the flags can be read and a limit is given, then after every round there
  are at most so many files of each severity, whatever was written in between. If one of the
  flags is missing or no limit is given, the monitor never removes a file.
\<close>

theorem log_limit_kept:
  assumes "slice_sorting sort_Slice" and "distinct (map fi_Name files)"
    and "\<forall>w\<in>set writes. \<forall>fs. distinct (map fi_Name fs) \<longrightarrow> distinct (map fi_Name (w fs))" and "writes \<noteq> []"
    and "\<forall>p. ld_open d p = None \<and> ld_readdir d p = None \<and> ld_remove d p = None"
    and "logFileMaxNum st = 0" and "st' = fst (InitLogFileLimits flags tmp st)"
  shows "let files' = StartLogFileNumberMonitor d sort_Slice ex st' writes files in
    if limits_on flags st then \<forall>s. length (of_severity ex s files') \<le> unat (maxNumArg st)
    else files' = fold (\<lambda>w. w) writes files"
proof (cases "limits_on flags st")
  case True
  then have num: "logFileMaxNum st' = maxNumArg st" "maxNumArg st \<noteq> 0"
    using InitLogFileLimits_num[OF assms(6)] assms(7) by (auto simp: limits_on_def)
  obtain fs where fs: "distinct (map fi_Name fs)"
    "fold (\<lambda>w files. checkLogFiles d sort_Slice ex st' (w files)) writes files = checkLogFiles d sort_Slice ex st' fs"
    using monitor_last[OF assms(1-4)] by blast
  have "length (of_severity ex s (checkLogFiles d sort_Slice ex st' fs)) \<le> unat (maxNumArg st)" for s
    using check_count[OF assms(1) fs(1), of d st' ex s] assms(5) num(1) by simp
  then show ?thesis using True num fs(2) by (simp add: StartLogFileNumberMonitor_def)
next
  case False
  then show ?thesis using InitLogFileLimits_num[OF assms(6)] assms(7) by (simp add: StartLogFileNumberMonitor_def)
qed

text \<open>The size limit is in bytes and does not wrap around.\<close>

lemma set_max_size_bytes:
  "unat (klog_MaxSize (set_max_size n st)) = (if unat n \<le> 102400 then unat n * 1048576 else unat (klog_MaxSize st))"
proof (cases "unat n \<le> 102400")
  case True
  have "n \<le> maxMaxSizeMB" using True by (simp add: maxMaxSizeMB_def word_le_nat_alt)
  moreover have "unat (n * 1024 * 1024) = unat n * 1048576"
    using True by (simp add: unat_word_ariths)
  ultimately show ?thesis using True by (auto simp: set_max_size_def Let_def)
next
  case False
  then have "maxMaxSizeMB < n" by (simp add: maxMaxSizeMB_def word_less_nat_alt)
  then show ?thesis using False by (simp add: set_max_size_def)
qed

lemma SliceEqual_iff: "SliceEqual s1 s2 \<longleftrightarrow> s1 = s2"
  by (auto simp: SliceEqual_def list_all_iff intro: nth_equalityI)

subsection \<open>Witnesses\<close>

fun insert_by :: "('x \<Rightarrow> 'x \<Rightarrow> bool) \<Rightarrow> 'x \<Rightarrow> 'x list \<Rightarrow> 'x list" where
  "insert_by lt x [] = [x]"
| "insert_by lt x (y # ys) = (if lt y x then y # insert_by lt x ys else x # y # ys)"

definition slice_insertion :: "('x \<Rightarrow> 'x \<Rightarrow> bool) \<Rightarrow> 'x list \<Rightarrow> 'x list" where
  "slice_insertion lt xs = foldr (insert_by lt) xs []"

lemma mset_insert_by [simp]: "mset (insert_by lt x xs) = add_mset x (mset xs)"
  by (induction xs) auto

lemma set_insert_by [simp]: "set (insert_by lt x xs) = insert x (set xs)"
  by (induction xs) auto

lemma sorted_insert_by:
  "strict_weak lt \<Longrightarrow> sorted_wrt (\<lambda>x y. \<not> lt y x) xs \<Longrightarrow> sorted_wrt (\<lambda>x y. \<not> lt y x) (insert_by lt x xs)"
proof (induction xs)
  case (Cons y ys)
  then have sorted: "sorted_wrt (\<lambda>x y. \<not> lt y x) (insert_by lt x ys)" "\<forall>z\<in>set ys. \<not> lt z y" by simp_all
  have trans: "\<not> lt z x" if "\<not> lt z y" "\<not> lt y x" for z using that Cons.prems(1) unfolding strict_weak_def by metis
  have asym: "\<not> lt x y" if "lt y x" using that Cons.prems(1) unfolding strict_weak_def by metis
  show ?case using sorted trans asym Cons.prems(2) by simp
qed simp

lemma slice_insertion_sorts: "slice_sorting (slice_insertion :: ('x \<Rightarrow> 'x \<Rightarrow> bool) \<Rightarrow> 'x list \<Rightarrow> 'x list)"
proof -
  have "mset (slice_insertion lt xs) = mset xs \<and> sorted_wrt (\<lambda>x y. \<not> lt y x) (slice_insertion lt xs)"
    if "strict_weak lt" for lt and xs :: "'x list"
    using that by (induction xs) (simp_all add: slice_insertion_def sorted_insert_by)
  then show ?thesis by (simp add: slice_sorting_def)
qed

definition log_file :: "string \<Rightarrow> int \<Rightarrow> FileInfo" where
  "log_file name t = \<lparr>fi_Name = name, fi_Regular = True, fi_ModTime = t\<rparr>"

definition demo_logs :: "FileInfo list" where
  "demo_logs = [log_file ''kube-loxilb.log.INFO.1'' 1, log_file ''notes'' 2, log_file ''kube-loxilb.log.ERROR.2'' 2,
     log_file ''kube-loxilb.log.INFO.3'' 3, log_file ''kube-loxilb.log.INFO.2'' 2]"

definition working_disk :: log_disk where
  "working_disk = \<lparr>ld_open = (\<lambda>_. None), ld_readdir = (\<lambda>_. None), ld_remove = (\<lambda>_. None)\<rparr>"

definition log_start :: Log_State where
  "log_start = \<lparr>maxNumArg = 2, logFileMaxNum = 0, logDir = [], klog_MaxSize = 0\<rparr>"

definition demo_log_flags :: log_flags where
  "demo_log_flags = \<lparr>fl_logtostderr = Inr False, fl_log_file = Inr [], fl_max_size = Inr 100, fl_log_dir = Inr ''/var/log''\<rparr>"

theorem check_keeps_newest_witness:
  "let st = log_start\<lparr>logFileMaxNum := 2\<rparr>; files' = checkLogFiles working_disk slice_insertion ''kube-loxilb'' st demo_logs in
     map fi_Name files' = [''notes'', ''kube-loxilb.log.ERROR.2'', ''kube-loxilb.log.INFO.3'', ''kube-loxilb.log.INFO.2''] \<and>
     length (of_severity ''kube-loxilb'' Info files') = 2"
proof -
  let ?st = "log_start\<lparr>logFileMaxNum := 2\<rparr>"
  have "distinct (map fi_Name demo_logs)" by code_simp
  moreover have "length (of_severity ''kube-loxilb'' Info demo_logs) = 3" "unat (logFileMaxNum ?st) = 2" by code_simp+
  moreover have "map fi_Name (checkLogFiles working_disk slice_insertion ''kube-loxilb'' ?st demo_logs) =
      [''notes'', ''kube-loxilb.log.ERROR.2'', ''kube-loxilb.log.INFO.3'', ''kube-loxilb.log.INFO.2'']" by code_simp
  ultimately show ?thesis
    using check_keeps_newest[OF slice_insertion_sorts, of demo_logs working_disk ?st "''kube-loxilb''"]
    by (simp add: working_disk_def Let_def)
qed

theorem log_limit_kept_witness:
  "let st' = fst (InitLogFileLimits demo_log_flags ''/tmp'' log_start);
       files' = StartLogFileNumberMonitor working_disk slice_insertion ''kube-loxilb'' st' [\<lambda>fs. fs] demo_logs
   in length (of_severity ''kube-loxilb'' Info files') \<le> 2 \<and> logFileMaxNum st' = 2"
proof -
  let ?st = "fst (InitLogFileLimits demo_log_flags ''/tmp'' log_start)"
  have "distinct (map fi_Name demo_logs)" by code_simp
  moreover have "limits_on demo_log_flags log_start" by (simp add: limits_on_def demo_log_flags_def log_start_def)
  moreover have "logFileMaxNum ?st = 2" "unat (maxNumArg log_start) = 2" by code_simp+
  ultimately show ?thesis
    using log_limit_kept[OF slice_insertion_sorts, of demo_logs "[\<lambda>fs. fs]" working_disk log_start ?st demo_log_flags "''/tmp''" "''kube-loxilb''"]
    by (simp add: working_disk_def log_start_def Let_def)
qed

end
