(* ===== verification/Agent_Main.thy ===== *)
theory Agent_Main
  imports Agent_Options Log_Files
begin

text \<open>
  The start of the process: \<open>main\<close> and the command it runs (\<open>cmd/loxilb-agent/main.go\<close>), the clients of
  the API server (\<open>pkg/k8s/client.go\<close>), and \<open>run\<close> (\<open>cmd/loxilb-agent/agent.go\<close>) up to the point where it
  waits for the end, with the goroutines it has started. What client-go and the operating system
  answer are arguments.
\<close>

subsection \<open>Clients of the API server\<close>

text \<open>\<open>QPS\<close> is a \<open>float32\<close> that is only copied; it is kept as its bits.\<close>

record ClientConnection =
  cc_Kubeconfig :: string
  cc_AcceptContentTypes :: string
  cc_ContentType :: string
  cc_QPS :: "32 word"
  cc_Burst :: "32 word"

record rest_Config =
  rc_Host :: string
  rc_AcceptContentTypes :: string
  rc_ContentType :: string
  rc_QPS :: "32 word"
  rc_Burst :: int

datatype clientset = KubeSet | AggregatorSet | BgpCrdSet | KlbCrdSet | EgressCrdSet | ApiExtensionSet | SigsSet

record client_go =
  InClusterConfig :: "error + rest_Config"
  LoadKubeconfig :: "string \<Rightarrow> error + rest_Config"
  NewForConfig :: "clientset \<Rightarrow> rest_Config \<Rightarrow> error option"

text \<open>
  The host is overridden before the error is looked at; with an error the configuration is nil.
  The clients are made in order, up to the first error.
\<close>

definition CreateClients :: "client_go \<Rightarrow> ClientConnection \<Rightarrow> string \<Rightarrow> (error + rest_Config) go" where
  "CreateClients cg config kubeAPIServerOverride =
     (case (if cc_Kubeconfig config = [] then InClusterConfig cg else LoadKubeconfig cg (cc_Kubeconfig config)) of
        Inl err \<Rightarrow>
          if kubeAPIServerOverride \<noteq> [] then Panic ''nil pointer dereference'' else Ret (Inl err)
      | Inr kubeConfig \<Rightarrow>
          (let kubeConfig = (if kubeAPIServerOverride \<noteq> [] then kubeConfig\<lparr>rc_Host := kubeAPIServerOverride\<rparr> else kubeConfig);
               kubeConfig = kubeConfig\<lparr>rc_AcceptContentTypes := cc_AcceptContentTypes config,
                 rc_ContentType := cc_ContentType config, rc_QPS := cc_QPS config, rc_Burst := sint (cc_Burst config)\<rparr>
           in case first_of (\<lambda>s. NewForConfig cg s kubeConfig)
                     [KubeSet, AggregatorSet, BgpCrdSet, KlbCrdSet, EgressCrdSet, ApiExtensionSet, SigsSet] of
                Some err \<Rightarrow> Ret (Inl err)
              | None \<Rightarrow> Ret (Inr kubeConfig)))"

subsection \<open>Goroutines of the agent\<close>

datatype task =
  EventLoop | LogMonitor | RunLb | RunBgpPeer | RunBgpDefinedSets | RunBgpDefinition | RunBgpApply |
  RunLoxiURL | RunEgress | RunMeta | RunGatewayClass | RunGateway | RunTCPRoute | RunUDPRoute | RunHTTPRoute

definition started_tasks :: "Log_State \<Rightarrow> AgentConfig \<Rightarrow> task list" where
  "started_tasks st c =
     [EventLoop] @ (if logFileMaxNum st = 0 then [] else [LogMonitor]) @ [RunLb] @
     (if ac_EnableBGPCRDs c then [RunBgpPeer, RunBgpDefinedSets, RunBgpDefinition, RunBgpApply] else []) @
     [RunLoxiURL, RunEgress] @ (if ac_EnableK8sMetadata c then [RunMeta] else []) @
     (if ac_EnableGatewayAPI c then [RunGatewayClass, RunGateway, RunTCPRoute, RunUDPRoute, RunHTTPRoute] else [])"

text \<open>The pool of the gateways: the first that the iteration over the table, in the order \<open>ord\<close>, meets.\<close>

definition gateway_pool ::
  "((string \<times> nat) list \<Rightarrow> (string \<times> nat) list) \<Rightarrow> AgentConfig \<Rightarrow> 'a Manager \<Rightarrow> nat option" where
  "gateway_pool ord c m =
     (if ac_EnableGatewayAPI c then (case ord (ipPoolTbl m) of [] \<Rightarrow> None | (_, p) # _ \<Rightarrow> Some p) else None)"

record 'a Running =
  rn_mgr :: "'a Manager"
  rn_tasks :: "task list"
  rn_gatewayPool :: "nat option"

definition run_agent ::
  "client_go \<Rightarrow> 'a loxilib \<Rightarrow> dial \<Rightarrow> ((string \<times> nat) list \<Rightarrow> (string \<times> nat) list) \<Rightarrow> ClientConnection \<Rightarrow>
   Log_State \<Rightarrow> AgentConfig \<Rightarrow> (error + 'a Running) go" where
  "run_agent cg tk d ord conn st c =
     go_bind (CreateClients cg conn [])
       (\<lambda>r. case r of
          Inl err \<Rightarrow> Ret (Inl (''error creating k8s clients: '' @ err))
        | Inr _ \<Rightarrow>
            (case startup tk d c of
               Inl err \<Rightarrow> Ret (Inl err)
             | Inr m \<Rightarrow> Ret (Inr \<lparr>rn_mgr = m, rn_tasks = started_tasks st c, rn_gatewayPool = gateway_pool ord c m\<rparr>)))"

subsection \<open>The command\<close>

definition GetCurrentLogLevel :: "string option \<Rightarrow> string go" where
  "GetCurrentLogLevel v = (case v of None \<Rightarrow> Panic ''nil pointer dereference'' | Some level \<Rightarrow> Ret level)"

definition InitLogLevel :: "(string \<Rightarrow> error option) \<Rightarrow> string option \<Rightarrow> error option go" where
  "InitLogLevel level_Set v = go_map level_Set (GetCurrentLogLevel v)"

text \<open>What the command line and its surroundings are.\<close>

record 'a launch =
  la_tk :: "'a loxilib"
  la_dial :: dial
  la_client_go :: client_go
  la_conn :: ClientConnection
  la_order :: "(string \<times> nat) list \<Rightarrow> (string \<times> nat) list"
  la_load :: "string \<Rightarrow> AgentConfig \<Rightarrow> error + AgentConfig"
  la_configFile :: string
  la_flags :: Flags
  la_config :: AgentConfig
  la_args :: "string list"
  la_logFlags :: log_flags
  la_logState :: Log_State
  la_tempDir :: string
  la_verbosity :: "string option"
  la_setLevel :: "string \<Rightarrow> error option"

definition agent_command :: "'a launch \<Rightarrow> 'a Running go" where
  "agent_command la =
     (let st = fst (InitLogFileLimits (la_logFlags la) (la_tempDir la) (la_logState la)) in
      go_bind (InitLogLevel (la_setLevel la) (la_verbosity la)) (\<lambda>_.
        case complete (la_load la) (la_configFile la) (la_flags la) (la_config la) of
          Inl _ \<Rightarrow> Exit ''255''
        | Inr c \<Rightarrow>
            go_bind (validate (la_tk la) (la_dial la) (la_args la) c) (\<lambda>e.
              if e \<noteq> None then Exit ''255''
              else
                go_bind (run_agent (la_client_go la) (la_tk la) (la_dial la) (la_order la) (la_conn la) st c) (\<lambda>r.
                  case r of Inl _ \<Rightarrow> Exit ''255'' | Inr running \<Rightarrow> Ret running))))"

definition RunCommand :: "(string \<Rightarrow> error option) \<Rightarrow> string \<Rightarrow> bool \<Rightarrow> error option go" where
  "RunCommand bash command isFatal =
     (case bash command of
        Some err \<Rightarrow> if isFatal then Exit ''1'' else Ret (Some err)
      | None \<Rightarrow> Ret None)"

text \<open>\<open>parse\<close> is what cobra makes of the command line: an error, or the command runs.\<close>

definition agent_main ::
  "bool \<Rightarrow> (string \<Rightarrow> error option) \<Rightarrow> (error + 'a launch) \<Rightarrow> 'a Running go" where
  "agent_main caFile bash parse =
     go_bind (if caFile then RunCommand bash ''update-ca-certificates'' True else Ret None) (\<lambda>_.
       case parse of Inl _ \<Rightarrow> Exit ''1'' | Inr la \<Rightarrow> agent_command la)"

subsection \<open>What is started\<close>

lemma startup_pool_index: "startup tk d c = Inr m \<Longrightarrow> (n, p) \<in> set (ipPoolTbl m) \<Longrightarrow> p < length (poolStore m)"
  using startup_wf_manager[of tk d c m] by (auto simp: wf_manager_def)

lemma gateway_pool_valid:
  assumes "startup tk d c = Inr m" and "\<forall>t. set (ord t) = set t" and "ac_EnableGatewayAPI c" and "ipPoolTbl m \<noteq> []"
  shows "\<exists>p. gateway_pool ord c m = Some p \<and> p < length (poolStore m)"
proof -
  obtain n p r where o: "ord (ipPoolTbl m) = (n, p) # r"
    using assms(2,4) by (metis list.exhaust set_empty surj_pair)
  then have "(n, p) \<in> set (ipPoolTbl m)" using assms(2) by (metis list.set_intros(1))
  then show ?thesis using startup_pool_index[OF assms(1)] assms(3) o by (auto simp: gateway_pool_def)
qed

text \<open>The pool of the gateways is one of the configured pools, whichever the iteration meets first.\<close>

lemma agent_command_valid:
  assumes "la_verbosity la \<noteq> None" and "complete (la_load la) (la_configFile la) (la_flags la) (la_config la) = Inr c"
    and "validate (la_tk la) (la_dial la) (la_args la) c = Ret None"
    and "CreateClients (la_client_go la) (la_conn la) [] = Ret (Inr kc)" and "startup (la_tk la) (la_dial la) c = Inr m"
  shows "agent_command la = Ret \<lparr>rn_mgr = m,
    rn_tasks = started_tasks (fst (InitLogFileLimits (la_logFlags la) (la_tempDir la) (la_logState la))) c,
    rn_gatewayPool = gateway_pool (la_order la) c m\<rparr>"
  using assms by (auto simp: agent_command_def InitLogLevel_def GetCurrentLogLevel_def run_agent_def Let_def)

text \<open>
  C22. A configuration that passes \<open>validate\<close> starts. If the configuration can be read and passes
  \<open>validate\<close>, the clients of the API server can be made, no two IPv4 pools and no two IPv6 pools have the same
  name, and a client can be made for every URL, then the command gets to the point where it waits:
  the manager is well-formed, its tables hold exactly the configured names of pools and one client for each
  URL, the services, the URL and the egress manager are running, those of BGP, metadata and the
  gateway API exactly if they are enabled, and the gateways draw from a pool that exists.
\<close>

theorem agent_starts:
  assumes "la_verbosity la \<noteq> None" and "complete (la_load la) (la_configFile la) (la_flags la) (la_config la) = Inr c"
    and "validate (la_tk la) (la_dial la) [] c = Ret None" and "la_args la = []"
    and "CreateClients (la_client_go la) (la_conn la) [] = Ret (Inr kc)"
    and "distinct (map pool_name (slice (ac_ExternalCIDRPoolDefs c)))"
    and "distinct (map pool_name (slice (ac_ExternalCIDR6PoolDefs c)))"
    and "\<forall>u\<in>set (ac_LoxiURLs c). \<exists>cl. NewLoxiClient (la_tk la) (url_Parse (la_dial la)) (sys_certs (la_dial la))
      (time_now (la_dial la)) u False False [] (ac_Zone c) (ac_NumZoneInst c) = Inr cl"
    and "\<forall>t. set (la_order la t) = set t"
  shows "\<exists>r. agent_command la = Ret r \<and> wf_manager (rn_mgr r) \<and>
    map cl_Url (LoxiClients (rn_mgr r)) = ac_LoxiURLs c \<and>
    fst ` set (ipPoolTbl (rn_mgr r)) = pool_name ` set (slice (ac_ExternalCIDRPoolDefs c)) \<and>
    fst ` set (ip6PoolTbl (rn_mgr r)) = pool_name ` set (slice (ac_ExternalCIDR6PoolDefs c)) \<and>
    {EventLoop, RunLb, RunLoxiURL, RunEgress} \<subseteq> set (rn_tasks r) \<and>
    (\<forall>t\<in>{RunBgpPeer, RunBgpDefinedSets, RunBgpDefinition, RunBgpApply}. (t \<in> set (rn_tasks r)) = ac_EnableBGPCRDs c) \<and>
    (RunMeta \<in> set (rn_tasks r)) = ac_EnableK8sMetadata c \<and>
    (\<forall>t\<in>{RunGatewayClass, RunGateway, RunTCPRoute, RunUDPRoute, RunHTTPRoute}. (t \<in> set (rn_tasks r)) = ac_EnableGatewayAPI c) \<and>
    (ac_EnableGatewayAPI c \<and> slice (ac_ExternalCIDRPoolDefs c) \<noteq> [] \<longrightarrow>
       (\<exists>p. rn_gatewayPool r = Some p \<and> p < length (poolStore (rn_mgr r))))"
proof -
  let ?st = "fst (InitLogFileLimits (la_logFlags la) (la_tempDir la) (la_logState la))"
  obtain m where m: "startup (la_tk la) (la_dial la) c = Inr m"
    "fst ` set (ipPoolTbl m) = pool_name ` set (slice (ac_ExternalCIDRPoolDefs c))"
    "fst ` set (ip6PoolTbl m) = pool_name ` set (slice (ac_ExternalCIDR6PoolDefs c))"
    using valid_config_starts[OF assms(3,6,7,8)] by blast
  have run: "agent_command la = Ret \<lparr>rn_mgr = m, rn_tasks = started_tasks ?st c, rn_gatewayPool = gateway_pool (la_order la) c m\<rparr>"
    using agent_command_valid[OF assms(1,2) _ assms(5) m(1)] assms(3,4) by simp
  have "ipPoolTbl m \<noteq> []" if "slice (ac_ExternalCIDRPoolDefs c) \<noteq> []" using m(2) that by auto
  then have pool: "ac_EnableGatewayAPI c \<and> slice (ac_ExternalCIDRPoolDefs c) \<noteq> [] \<longrightarrow>
      (\<exists>p. gateway_pool (la_order la) c m = Some p \<and> p < length (poolStore m))"
    using gateway_pool_valid[OF m(1) assms(9)] by blast
  have tasks: "{EventLoop, RunLb, RunLoxiURL, RunEgress} \<subseteq> set (started_tasks ?st c)"
    "\<forall>t\<in>{RunBgpPeer, RunBgpDefinedSets, RunBgpDefinition, RunBgpApply}. (t \<in> set (started_tasks ?st c)) = ac_EnableBGPCRDs c"
    "(RunMeta \<in> set (started_tasks ?st c)) = ac_EnableK8sMetadata c"
    "\<forall>t\<in>{RunGatewayClass, RunGateway, RunTCPRoute, RunUDPRoute, RunHTTPRoute}. (t \<in> set (started_tasks ?st c)) = ac_EnableGatewayAPI c"
    by (auto simp: started_tasks_def)
  show ?thesis
    by (rule exI[of _ "\<lparr>rn_mgr = m, rn_tasks = started_tasks ?st c, rn_gatewayPool = gateway_pool (la_order la) c m\<rparr>"])
      (use run m pool tasks startup_wf_manager[OF m(1)] startup_fleet[OF m(1)] in simp)
qed

text \<open>
  An agent that does not start leaves with status 255, and one that starts has a valid configuration
  and the manager that \<open>startup\<close> made from it.
\<close>

lemma go_bind_eq_Exit: "go_bind m f = Exit s \<longleftrightarrow> m = Exit s \<or> (\<exists>x. m = Ret x \<and> f x = Exit s)"
  by (cases m) (auto simp: go_bind_def)

lemma validate_no_exit: "validate tk d args c \<noteq> Exit s"
proof -
  have "validate_peer p \<noteq> Exit s" for p
    by (auto simp: validate_peer_def Let_def split: option.splits)
  then have "validate_peers ps \<noteq> Exit s" for ps
    by (induction ps) (auto simp: go_bind_eq_Exit split: if_splits)
  then show ?thesis
    by (auto simp: validate_def Let_def go_bind_eq_Exit simp del: validate_peers.simps split: option.splits if_splits)
qed

lemma CreateClients_no_exit: "CreateClients cg conn override \<noteq> Exit s"
  by (auto simp: CreateClients_def Let_def simp del: first_of.simps split: sum.splits option.splits)

lemma run_agent_no_exit: "run_agent cg tk d ord conn st c \<noteq> Exit s"
  by (auto simp: run_agent_def go_bind_eq_Exit CreateClients_no_exit split: sum.splits)

lemma agent_command_status: "agent_command la = Exit s \<Longrightarrow> s = ''255''"
proof -
  have "InitLogLevel f v \<noteq> Exit s" for f v
    by (auto simp: InitLogLevel_def GetCurrentLogLevel_def go_map_def split: option.splits)
  then show "agent_command la = Exit s \<Longrightarrow> s = ''255''"
    by (auto simp: agent_command_def Let_def go_bind_eq_Exit validate_no_exit run_agent_no_exit
        split: sum.splits if_splits) (metis sum.exhaust)
qed

subsection \<open>Witness\<close>

definition demo_client_go :: client_go where
  "demo_client_go = (let rc = \<lparr>rc_Host = ''10.96.0.1'', rc_AcceptContentTypes = [], rc_ContentType = [], rc_QPS = 0, rc_Burst = 0\<rparr>
     in \<lparr>InClusterConfig = Inr rc, LoadKubeconfig = (\<lambda>_. Inl ''no such file''), NewForConfig = (\<lambda>_ _. None)\<rparr>)"

definition demo_launch :: "(string \<times> string) list launch" where
  "demo_launch = \<lparr>la_tk = colon_ipam, la_dial = demo_dial, la_client_go = demo_client_go,
     la_conn = \<lparr>cc_Kubeconfig = [], cc_AcceptContentTypes = [], cc_ContentType = [], cc_QPS = 0, cc_Burst = 100\<rparr>,
     la_order = rev, la_load = (\<lambda>_. Inr), la_configFile = [],
     la_flags = \<lparr>fl_loxiURL = [], fl_cidrPools = [], fl_cidr6Pools = [], fl_extBGPPeers = [], fl_excludeRoleList = []\<rparr>,
     la_config = zero_config, la_args = [], la_logFlags = demo_log_flags, la_logState = log_start, la_tempDir = ''/tmp'',
     la_verbosity = Some ''0'', la_setLevel = (\<lambda>_. None)\<rparr>"

theorem agent_starts_witness:
  "\<exists>r. agent_command demo_launch = Ret r \<and> map cl_Url (LoxiClients (rn_mgr r)) = [''http://12.12.12.1:11111''] \<and>
     fst ` set (ipPoolTbl (rn_mgr r)) = {''defaultPool''} \<and> RunMeta \<notin> set (rn_tasks r)"
proof -
  let ?c = "setDefaults zero_config"
  have name: "pool_name ''defaultPool=123.123.123.1/24'' = ''defaultPool''" by code_simp
  have f: "slice (ac_ExternalCIDRPoolDefs ?c) = [''defaultPool=123.123.123.1/24'']" "slice (ac_ExternalCIDR6PoolDefs ?c) = []"
    "ac_LoxiURLs ?c = [''http://12.12.12.1:11111'']" "ac_Zone ?c = ''llb''" "ac_NumZoneInst ?c = 1" "\<not> ac_EnableK8sMetadata ?c"
    unfolding default_config by (simp_all add: zero_config_def slice_def)
  have l: "complete (la_load demo_launch) (la_configFile demo_launch) (la_flags demo_launch) (la_config demo_launch) = Inr ?c"
    by (simp add: demo_launch_def complete_def updateConfigFromCommandLine_def)
  have cc: "\<exists>kc. CreateClients (la_client_go demo_launch) (la_conn demo_launch) [] = Ret (Inr kc)"
    by (simp add: demo_launch_def demo_client_go_def CreateClients_def Let_def)
  have e: "la_tk demo_launch = colon_ipam" "la_dial demo_launch = demo_dial" "la_args demo_launch = []"
    "la_verbosity demo_launch \<noteq> None" "la_order demo_launch = rev"
    by (simp_all add: demo_launch_def)
  obtain kc where kc: "CreateClients (la_client_go demo_launch) (la_conn demo_launch) [] = Ret (Inr kc)" using cc by blast
  have v: "validate (la_tk demo_launch) (la_dial demo_launch) [] ?c = Ret None" unfolding e by (rule default_config_valid)
  have urls: "\<forall>u\<in>set (ac_LoxiURLs ?c). \<exists>cl. NewLoxiClient (la_tk demo_launch) (url_Parse (la_dial demo_launch))
      (sys_certs (la_dial demo_launch)) (time_now (la_dial demo_launch)) u False False [] (ac_Zone ?c) (ac_NumZoneInst ?c) = Inr cl"
    unfolding e f using default_config_client by simp
  have names: "distinct (map pool_name (slice (ac_ExternalCIDRPoolDefs ?c)))" "distinct (map pool_name (slice (ac_ExternalCIDR6PoolDefs ?c)))"
    unfolding f by simp_all
  have ord: "\<forall>t. set (la_order demo_launch t) = set t" unfolding e by simp
  have name1: "pool_name ` set (slice (ac_ExternalCIDRPoolDefs ?c)) = {''defaultPool''}"
    unfolding f by (simp only: list.set image_insert image_empty name)
  show ?thesis
    using agent_starts[OF e(4) l v e(3) kc names urls ord]
  proof (elim exE conjE)
    fix r
    assume "agent_command demo_launch = Ret r" "map cl_Url (LoxiClients (rn_mgr r)) = ac_LoxiURLs ?c"
      "fst ` set (ipPoolTbl (rn_mgr r)) = pool_name ` set (slice (ac_ExternalCIDRPoolDefs ?c))"
      "(RunMeta \<in> set (rn_tasks r)) = ac_EnableK8sMetadata ?c"
    then show ?thesis using name1 f(3,6) by metis
  qed
qed

end
