(* ===== verification/Gateway_Api.thy ===== *)
theory Gateway_Api
  imports Crd_Queue
begin

text \<open>
  The managers of the Gateway API (\<open>manager/gatewayapi\<close>): gateway classes, gateways, and the routes
  that become services (TCP and UDP) or ingresses (HTTP).

  The API server is the parameter \<open>'s kube_api\<close>: \<open>'s\<close> is the state of the cluster, and each field is one
  call of a client set. A call of a typed client returns an object also when it fails, which
  \<open>gw_updateStatus\<close> keeps, as the code goes on with it. The times of conditions are left out. \<open>None\<close> is a
  nil map, a nil pointer or a nil pool.
\<close>

subsection \<open>Objects\<close>

type_synonym strings = "(string \<times> string) list"

record GwPort =
  gp_Name :: string
  gp_Protocol :: string
  gp_Port :: int
  gp_TargetPort :: int

record GwService =
  gs_Namespace :: string
  gs_Name :: string
  gs_Annotations :: "strings option"
  gs_Labels :: "strings option"
  gs_ResourceVersion :: string
  gs_Type :: string
  gs_ClusterIP :: string
  gs_ClusterIPs :: "string list"
  gs_LoadBalancerClass :: "string option"
  gs_LoadBalancerIP :: string
  gs_Ports :: "GwPort list"
  gs_Selector :: strings

record Condition =
  cd_Type :: string
  cd_Status :: string
  cd_Message :: string
  cd_Reason :: string

record CertRef =
  cr_Kind :: "string option"
  cr_Name :: string

record Listener =
  ln_Name :: string
  ln_Protocol :: string
  ln_Port :: int
  ln_Hostname :: "string option"
  ln_TLS :: "CertRef list option"

record Gateway =
  gw_Namespace :: string
  gw_Name :: string
  gw_Annotations :: "strings option"
  gw_Labels :: "strings option"
  gw_ClassName :: string
  gw_SpecAddresses :: "string list"
  gw_Listeners :: "Listener list"
  gw_StatusAddresses :: "string list"
  gw_Conditions :: "Condition list"

record GatewayClass =
  gc_Name :: string
  gc_ControllerName :: string
  gc_Conditions :: "Condition list"

record ParentRef =
  pref_Namespace :: "string option"
  pref_Name :: string
  pref_SectionName :: "string option"

record BackendRef =
  br_Namespace :: "string option"
  br_Name :: string
  br_Port :: "int option"

text \<open>A TCP or UDP route; \<open>rt_Rules\<close> has the backends of each rule.\<close>

record L4Route =
  rt_Namespace :: string
  rt_Name :: string
  rt_Labels :: strings
  rt_Annotations :: strings
  rt_ParentRefs :: "ParentRef list"
  rt_Rules :: "BackendRef list list"

record HTTPMatch =
  hm_Path :: "(string option \<times> string option) option"

record HTTPRule =
  hr_Matches :: "HTTPMatch list"
  hr_BackendRefs :: "BackendRef list"

record HTTPRoute =
  ht_Namespace :: string
  ht_Name :: string
  ht_Annotations :: strings
  ht_ParentRefs :: "ParentRef list"
  ht_Hostnames :: "string list"
  ht_Rules :: "HTTPRule list"

record IngressPath =
  ip_Path :: string
  ip_PathType :: "string option"
  ip_Service :: string
  ip_Port :: int

record GwIngress =
  gi_Namespace :: string
  gi_Name :: string
  gi_Annotations :: strings
  gi_Labels :: strings
  gi_ClassName :: string
  gi_TLS :: "(string \<times> string list) list"
  gi_Rules :: "(string \<times> IngressPath list) list"

record 's kube_api =
  svc_get :: "'s \<Rightarrow> string \<Rightarrow> string \<Rightarrow> error + GwService"
  svc_list :: "'s \<Rightarrow> string \<Rightarrow> error + GwService list"
  svc_create :: "GwService \<Rightarrow> 's \<Rightarrow> 's \<times> error option"
  svc_update :: "GwService \<Rightarrow> 's \<Rightarrow> 's \<times> error option"
  svc_delete :: "string \<Rightarrow> string \<Rightarrow> 's \<Rightarrow> 's \<times> error option"
  gw_get :: "'s \<Rightarrow> string \<Rightarrow> string \<Rightarrow> error + Gateway"
  gw_update :: "Gateway \<Rightarrow> 's \<Rightarrow> 's \<times> (error + Gateway)"
  gw_updateStatus :: "Gateway \<Rightarrow> 's \<Rightarrow> 's \<times> Gateway \<times> error option"
  class_get :: "'s \<Rightarrow> string \<Rightarrow> error + GatewayClass"
  class_updateStatus :: "GatewayClass \<Rightarrow> 's \<Rightarrow> 's \<times> error option"
  ing_list :: "'s \<Rightarrow> string \<Rightarrow> error + GwIngress list"
  ing_create :: "GwIngress \<Rightarrow> 's \<Rightarrow> 's \<times> error option"
  ing_delete :: "string \<Rightarrow> string \<Rightarrow> 's \<Rightarrow> 's \<times> error option"
  IsNotFound :: "error \<Rightarrow> bool"

definition implementation :: string where "implementation = ''kube-loxilb''"

definition set_map :: "string \<Rightarrow> string \<Rightarrow> strings option \<Rightarrow> strings option" where
  "set_map k v m = Some (AList.update k v (case m of None \<Rightarrow> [] | Some m \<Rightarrow> m))"

definition ann :: "strings option \<Rightarrow> string \<Rightarrow> string" where
  "ann m k = map_str (case m of None \<Rightarrow> [] | Some m \<Rightarrow> m) k"

text \<open>A loop that returns at the first error, over steps that may crash.\<close>

fun go_first :: "('x \<Rightarrow> 's \<Rightarrow> ('s \<times> error option) go) \<Rightarrow> 'x list \<Rightarrow> 's \<Rightarrow> ('s \<times> error option) go" where
  "go_first f [] s = Ret (s, None)"
| "go_first f (x # xs) s = go_bind (f x s) (\<lambda>(s, e). if e = None then go_first f xs s else Ret (s, e))"

subsection \<open>Gateway classes\<close>

definition updateGatewayClass :: "'s kube_api \<Rightarrow> string \<Rightarrow> GatewayClass \<Rightarrow> 's \<Rightarrow> 's \<times> error option" where
  "updateGatewayClass k gatewayClass gc s =
     (if gc_ControllerName gc = gatewayClass then
        (let conds = map (\<lambda>c. if cd_Type c = ''Accepted'' then c\<lparr>cd_Status := ''True''\<rparr> else c) (gc_Conditions gc)
         in (fst (class_updateStatus k (gc\<lparr>gc_Conditions := conds\<rparr>) s), None))
      else (s, None))"

definition class_reconcile ::
  "'s kube_api \<Rightarrow> (string \<Rightarrow> error + GatewayClass) \<Rightarrow> string \<Rightarrow> string \<Rightarrow> 's \<Rightarrow> 's \<times> error option" where
  "class_reconcile k lister gatewayClass name s =
     (case lister name of
        Inl err \<Rightarrow> (s, if IsNotFound k err then None else Some err)
      | Inr gc \<Rightarrow> updateGatewayClass k gatewayClass gc s)"

subsection \<open>Gateways\<close>

text \<open>
  The state of the gateway manager: the cluster, the pool, and the objects of the lister, which
  \<open>createGateway\<close> changes in place.
\<close>

record ('s, 'a) GatewayManager =
  gm_api :: 's
  gm_pool :: "'a IPPool option"
  gm_cache :: "((string \<times> string) \<times> Gateway) list"

fun gateway_return :: "'a loxilib \<Rightarrow> string list \<Rightarrow> string \<Rightarrow> 'a IPPool option \<Rightarrow> 'a IPPool option go" where
  "gateway_return tk [] ident p = Ret p"
| "gateway_return tk (a # as) ident p =
     (case p of
        None \<Rightarrow> Panic ''nil pointer dereference''
      | Some pool \<Rightarrow> go_bind (ReturnIPAddr tk pool a ident) (\<lambda>pool. gateway_return tk as ident (Some pool)))"

fun delete_services ::
  "'s kube_api \<Rightarrow> (GwService \<Rightarrow> string) \<Rightarrow> (GwService \<Rightarrow> bool) \<Rightarrow> GwService list \<Rightarrow> 's \<Rightarrow> 's \<times> error option" where
  "delete_services k nsOf owned [] s = (s, None)"
| "delete_services k nsOf owned (svc # svcs) s =
     (if owned svc then
        (case svc_delete k (nsOf svc) (gs_Name svc) s of
           (s, Some err) \<Rightarrow> (s, Some err)
         | (s, None) \<Rightarrow> delete_services k nsOf owned svcs s)
      else delete_services k nsOf owned svcs s)"

definition owned_by_gateway :: "string \<Rightarrow> string \<Rightarrow> GwService \<Rightarrow> bool" where
  "owned_by_gateway gatewayClass gwName svc =
     (ann (gs_Annotations svc) ''gateway-api-controller'' = gatewayClass \<and>
      ann (gs_Annotations svc) ''parent-gateway'' = gwName)"

definition deleteIngressLbService :: "'s kube_api \<Rightarrow> string \<Rightarrow> string \<Rightarrow> string \<Rightarrow> 's \<Rightarrow> 's \<times> error option" where
  "deleteIngressLbService k gatewayClass gwNs gwName s =
     (case svc_list k s gwNs of
        Inl err \<Rightarrow> (s, if IsNotFound k err then None else Some err)
      | Inr svcs \<Rightarrow> delete_services k gs_Namespace (owned_by_gateway gatewayClass gwName) svcs s)"

definition deleteGateway ::
  "'a loxilib \<Rightarrow> 's kube_api \<Rightarrow> string \<Rightarrow> Gateway \<Rightarrow> ('s, 'a) GatewayManager \<Rightarrow>
   (('s, 'a) GatewayManager \<times> error option) go" where
  "deleteGateway tk k gatewayClass entry g =
     go_bind (gateway_return tk (gw_StatusAddresses entry) (ann (gw_Annotations entry) ''ident-ipam'') (gm_pool g)) (\<lambda>p.
       let (s, err) = deleteIngressLbService k gatewayClass (gw_Namespace entry) (gw_Name entry) (gm_api g)
       in Ret (g\<lparr>gm_pool := p, gm_api := s\<rparr>, err))"

text \<open>The ports of the service of a gateway: one per HTTP or HTTPS listener.\<close>

definition listener_ports :: "Listener list \<Rightarrow> GwPort list" where
  "listener_ports ls = List.map_filter (\<lambda>l.
     if ln_Protocol l = ''HTTP'' then
       Some \<lparr>gp_Name = ln_Name l, gp_Protocol = ''TCP'', gp_Port = (if ln_Port l \<noteq> 0 then ln_Port l else 80), gp_TargetPort = 80\<rparr>
     else if ln_Protocol l = ''HTTPS'' then
       Some \<lparr>gp_Name = ln_Name l, gp_Protocol = ''TCP'', gp_Port = (if ln_Port l \<noteq> 0 then ln_Port l else 443), gp_TargetPort = 443\<rparr>
     else None) ls"

definition createIngressLbService ::
  "'s kube_api \<Rightarrow> string \<Rightarrow> string \<Rightarrow> Gateway \<Rightarrow> 's \<Rightarrow> ('s \<times> error option) go" where
  "createIngressLbService k gatewayClass lbClass gateway s =
     (let name = gw_Name gateway @ ''-ingress-service''; ns = gw_Namespace gateway in
      case svc_get k s ns name of
        Inr svc \<Rightarrow> Ret (s, None)
      | Inl _ \<Rightarrow>
          if gw_SpecAddresses gateway = [] then Ret (s, Some ''gateway has no external IP address'')
          else
            (let ports = listener_ports (gw_Listeners gateway) in
             if ports = [] then Ret (s, None)
             else if gw_StatusAddresses gateway = [] then Panic ''index out of range''
             else
               Ret (svc_create k
                 \<lparr>gs_Namespace = ns, gs_Name = name,
                  gs_Annotations = set_map ''ipam-address'' (gw_SpecAddresses gateway ! 0)
                    (set_map ''parent-gateway'' (gw_Name gateway)
                      (set_map ''gateway-api-controller'' gatewayClass (gw_Annotations gateway))),
                  gs_Labels = Some [(''implementation'', implementation)], gs_ResourceVersion = [],
                  gs_Type = ''LoadBalancer'', gs_ClusterIP = [], gs_ClusterIPs = [],
                  gs_LoadBalancerClass = Some lbClass, gs_LoadBalancerIP = gw_StatusAddresses gateway ! 0,
                  gs_Ports = ports, gs_Selector = [(''app'', ''loxilb-ingress'')]\<rparr> s)))"

text \<open>The address of a gateway that has none: the new object, stored in place in the lister.\<close>

definition assign_address :: "string \<Rightarrow> string \<Rightarrow> Gateway \<Rightarrow> Gateway" where
  "assign_address ip ident gw =
     gw\<lparr>gw_SpecAddresses := gw_SpecAddresses gw @ [ip],
        gw_Labels := set_map ''implementation'' implementation (gw_Labels gw),
        gw_Annotations := set_map ''ident-ipam'' ident (set_map ''ipam-address'' ip (gw_Annotations gw))\<rparr>"

definition accept_condition :: "Condition \<Rightarrow> Condition" where
  "accept_condition c =
     (if cd_Type c = ''Accepted'' then c\<lparr>cd_Status := ''True'', cd_Message := ''managed by kube-loxilb'', cd_Reason := ''Accepted''\<rparr>
      else if cd_Type c = ''Programmed'' then
        c\<lparr>cd_Status := ''True'', cd_Message := ''managed by kube-loxilb'', cd_Reason := ''Programmed''\<rparr>
      else c)"

definition gateway_status :: "Gateway \<Rightarrow> Gateway" where
  "gateway_status gw =
     gw\<lparr>gw_StatusAddresses := fold (\<lambda>a as. if list_ex (\<lambda>b. b = a) as then as else as @ [a])
          (gw_SpecAddresses gw) (gw_StatusAddresses gw),
        gw_Conditions := map accept_condition (gw_Conditions gw)\<rparr>"

definition gateway_finish ::
  "'s kube_api \<Rightarrow> string \<Rightarrow> string \<Rightarrow> Gateway \<Rightarrow> ('s, 'a) GatewayManager \<Rightarrow>
   (('s, 'a) GatewayManager \<times> error option) go" where
  "gateway_finish k gatewayClass lbClass updatedGw g =
     (case gw_updateStatus k (gateway_status updatedGw) (gm_api g) of
        (s, newGw, _) \<Rightarrow>
          go_map (\<lambda>(s, err). (g\<lparr>gm_api := s\<rparr>, err)) (createIngressLbService k gatewayClass lbClass newGw s))"

definition createGateway ::
  "'a loxilib \<Rightarrow> 's kube_api \<Rightarrow> string \<Rightarrow> string \<Rightarrow> Gateway \<Rightarrow> ('s, 'a) GatewayManager \<Rightarrow>
   (('s, 'a) GatewayManager \<times> error option) go" where
  "createGateway tk k gatewayClass lbClass gw g =
     (let key = (gw_Namespace gw, gw_Name gw) in
      case class_get k (gm_api g) (gw_ClassName gw) of
        Inl _ \<Rightarrow> Ret (g, None)
      | Inr _ \<Rightarrow>
          if gw_SpecAddresses gw = [] then
            (case gm_pool g of
               None \<Rightarrow> Panic ''nil pointer dereference''
             | Some pool \<Rightarrow>
                 (case GetNewIPAddr tk pool (GenKey (gw_Namespace gw) (gw_Name gw)) 0 [] of
                    (pool, newIP, identIPAM) \<Rightarrow>
                      if newIP = [] then Exit ''kube-loxilb cant run optimally anymore''
                      else
                        (let gw = assign_address (IP_String newIP) identIPAM gw;
                             g = g\<lparr>gm_pool := Some pool, gm_cache := AList.update key gw (gm_cache g)\<rparr>
                         in case gw_update k gw (gm_api g) of
                              (s, Inl err) \<Rightarrow>
                                go_map (\<lambda>pool. (g\<lparr>gm_pool := Some pool, gm_api := s\<rparr>, Some ''unable to update gateway configuration''))
                                  (ReturnIPAddr tk pool (IP_String newIP) identIPAM)
                            | (s, Inr updatedGw) \<Rightarrow>
                                gateway_finish k gatewayClass lbClass updatedGw (g\<lparr>gm_api := s\<rparr>))))
          else gateway_finish k gatewayClass lbClass gw (g\<lparr>gm_cache := AList.update key (gateway_status gw) (gm_cache g)\<rparr>))"

text \<open>
  The lister reads the cache of the informer, \<open>gm_cache\<close>; the only error it returns is that the object
  is not there, and the branch for other errors is not taken.
\<close>

definition gateway_reconcile ::
  "'a loxilib \<Rightarrow> 's kube_api \<Rightarrow> string \<Rightarrow> string \<Rightarrow> Gateway \<Rightarrow> ('s, 'a) GatewayManager \<Rightarrow>
   (('s, 'a) GatewayManager \<times> error option) go" where
  "gateway_reconcile tk k gatewayClass lbClass entry g =
     (case map_of (gm_cache g) (gw_Namespace entry, gw_Name entry) of
        None \<Rightarrow> deleteGateway tk k gatewayClass entry g
      | Some gw \<Rightarrow> createGateway tk k gatewayClass lbClass gw g)"

definition gateway_processNextWorkItem ::
  "'a loxilib \<Rightarrow> 's kube_api \<Rightarrow> string \<Rightarrow> string \<Rightarrow> Gateway ptr option list \<times> ('s, 'a) GatewayManager \<Rightarrow>
   (Gateway ptr option list \<times> ('s, 'a) GatewayManager) go" where
  "gateway_processNextWorkItem tk k gatewayClass lbClass = process_object (gateway_reconcile tk k gatewayClass lbClass)"

text \<open>
  The handlers of the informers convert a \<open>DeletedFinalStateUnknown\<close> itself and not the object in it,
  which always gives nil.
\<close>

definition gateway_enqueueObject :: "Gateway informer_item \<Rightarrow> Gateway ptr option list \<Rightarrow> Gateway ptr option list" where
  "gateway_enqueueObject obj queue =
     (case obj of Item p \<Rightarrow> queue_Add (Some p) queue | Tombstone _ \<Rightarrow> queue_Add None queue | Unexpected \<Rightarrow> queue)"

definition name_enqueueObject :: "('o \<Rightarrow> 'n) \<Rightarrow> 'o informer_item \<Rightarrow> 'n list \<Rightarrow> 'n list go" where
  "name_enqueueObject name obj queue =
     (case obj of
        Item p \<Rightarrow> Ret (if name (snd p) \<in> set queue then queue else queue @ [name (snd p)])
      | Tombstone _ \<Rightarrow> Panic ''nil pointer dereference''
      | Unexpected \<Rightarrow> Ret queue)"

subsection \<open>TCP and UDP routes\<close>

text \<open>The two managers differ in an annotation and in the protocol of the ports, which TCP leaves empty.\<close>

datatype route_kind = TCPRoute | UDPRoute

definition parent_route :: "route_kind \<Rightarrow> string" where
  "parent_route rk = (case rk of TCPRoute \<Rightarrow> ''parent-tcp-route'' | UDPRoute \<Rightarrow> ''parent-udp-route'')"

definition route_port :: "route_kind \<Rightarrow> Listener \<Rightarrow> int \<Rightarrow> GwPort" where
  "route_port rk l target =
     \<lparr>gp_Name = [], gp_Protocol = (case rk of TCPRoute \<Rightarrow> [] | UDPRoute \<Rightarrow> ''UDP''), gp_Port = ln_Port l, gp_TargetPort = target\<rparr>"

definition owned_by_route :: "route_kind \<Rightarrow> string \<Rightarrow> string \<Rightarrow> GwService \<Rightarrow> bool" where
  "owned_by_route rk gwProvider name svc =
     (ann (gs_Annotations svc) ''gateway-api-controller'' = gwProvider \<and> ann (gs_Annotations svc) (parent_route rk) = name)"

text \<open>The test before an update also wants both annotations to be present.\<close>

definition created_by_route :: "route_kind \<Rightarrow> string \<Rightarrow> string \<Rightarrow> GwService \<Rightarrow> bool" where
  "created_by_route rk gwProvider name svc =
     (case gs_Annotations svc of
        None \<Rightarrow> False
      | Some m \<Rightarrow> map_of m ''gateway-api-controller'' = Some gwProvider \<and> map_of m (parent_route rk) = Some name)"

definition mark_service :: "route_kind \<Rightarrow> string \<Rightarrow> string \<Rightarrow> strings option \<Rightarrow> strings option" where
  "mark_service rk gwProvider name m = set_map (parent_route rk) name (set_map ''gateway-api-controller'' gwProvider m)"

definition findGateway :: "'s kube_api \<Rightarrow> string \<Rightarrow> ParentRef \<Rightarrow> 's \<Rightarrow> error + Gateway" where
  "findGateway k routeNs parentRef s =
     gw_get k s (case pref_Namespace parentRef of Some ns \<Rightarrow> ns | None \<Rightarrow> routeNs) (pref_Name parentRef)"

definition findListener :: "Gateway \<Rightarrow> ParentRef \<Rightarrow> Listener option" where
  "findListener gateway parentRef =
     (case pref_SectionName parentRef of
        None \<Rightarrow> None
      | Some sn \<Rightarrow> find (\<lambda>l. ln_Name l = sn) (gw_Listeners gateway))"

definition createService ::
  "'s kube_api \<Rightarrow> route_kind \<Rightarrow> string \<Rightarrow> string \<Rightarrow> BackendRef \<Rightarrow> L4Route \<Rightarrow> Gateway \<Rightarrow> Listener \<Rightarrow> 's \<Rightarrow> ('s \<times> error option) go" where
  "createService k rk gwProvider ns br rt gateway listener s =
     (case br_Port br of
        None \<Rightarrow> Panic ''nil pointer dereference''
      | Some port \<Rightarrow>
          Ret (svc_create k
            \<lparr>gs_Namespace = ns, gs_Name = br_Name br,
             gs_Annotations = mark_service rk gwProvider (rt_Name rt) (Some (rt_Annotations rt)),
             gs_Labels = Some [(''ipam-address'', gw_StatusAddresses gateway ! 0), (''implementation'', implementation)],
             gs_ResourceVersion = [], gs_Type = ''LoadBalancer'', gs_ClusterIP = [], gs_ClusterIPs = [],
             gs_LoadBalancerClass = Some gwProvider, gs_LoadBalancerIP = gw_StatusAddresses gateway ! 0,
             gs_Ports = [route_port rk listener port],
             gs_Selector = (case (map_of (rt_Labels rt) ''selectorkey'', map_of (rt_Labels rt) ''selectorvalue'') of
                              (Some key, Some v) \<Rightarrow> [(key, v)] | _ \<Rightarrow> [])\<rparr> s))"

definition duplicateService ::
  "'s kube_api \<Rightarrow> route_kind \<Rightarrow> string \<Rightarrow> GwService \<Rightarrow> BackendRef \<Rightarrow> L4Route \<Rightarrow> Gateway \<Rightarrow> Listener \<Rightarrow> 's \<Rightarrow>
   ('s \<times> error option) go" where
  "duplicateService k rk gwProvider svc br rt gateway listener s =
     (let name = br_Name br @ ''-gw-api'' in
      case svc_get k s (gs_Namespace svc) name of
        Inr _ \<Rightarrow> Ret (s, Some (''unable to duplicate service '' @ gs_Namespace svc @ ''/'' @ name @ ''. it already exists''))
      | Inl err \<Rightarrow>
          if \<not> IsNotFound k err then Ret (s, Some err)
          else
            (case br_Port br of
               None \<Rightarrow> Panic ''nil pointer dereference''
             | Some port \<Rightarrow>
                 Ret (svc_create k
                   (svc\<lparr>gs_Name := name, gs_ResourceVersion := [], gs_ClusterIP := [], gs_ClusterIPs := [],
                        gs_Annotations := mark_service rk gwProvider (rt_Name rt) (Some (rt_Annotations rt)),
                        gs_Labels := set_map ''implementation'' implementation
                          (set_map ''ipam-address'' (gw_StatusAddresses gateway ! 0) (gs_Labels svc)),
                        gs_Type := ''LoadBalancer'', gs_LoadBalancerClass := Some gwProvider,
                        gs_LoadBalancerIP := gw_StatusAddresses gateway ! 0,
                        gs_Ports := [route_port rk listener port]\<rparr>) s)))"

text \<open>Annotations of loxilb that the route no longer has are removed; then those of the route are set.\<close>

definition route_annotations :: "strings \<Rightarrow> strings \<Rightarrow> strings" where
  "route_annotations rtAnn m =
     fold (\<lambda>(key, v). AList.update key v) rtAnn
       (filter (\<lambda>(key, _). \<not> (contains_str key ''loxilb.io'' \<and> \<not> has_key rtAnn key)) m)"

definition route_updateService ::
  "'s kube_api \<Rightarrow> route_kind \<Rightarrow> string \<Rightarrow> GwService \<Rightarrow> BackendRef \<Rightarrow> L4Route \<Rightarrow> Gateway \<Rightarrow> Listener \<Rightarrow> 's \<Rightarrow>
   ('s \<times> error option) go" where
  "route_updateService k rk gwProvider svc br rt gateway listener s =
     (case gs_Annotations svc of
        None \<Rightarrow> Panic ''assignment to entry in nil map''
      | Some m \<Rightarrow>
          (case gs_LoadBalancerClass svc of
             None \<Rightarrow> Panic ''nil pointer dereference''
           | Some _ \<Rightarrow>
               (case br_Port br of
                  None \<Rightarrow> Panic ''nil pointer dereference''
                | Some port \<Rightarrow>
                    Ret (svc_update k
                      (svc\<lparr>gs_Annotations := mark_service rk gwProvider (rt_Name rt) (Some (route_annotations (rt_Annotations rt) m)),
                           gs_LoadBalancerClass := Some gwProvider, gs_Type := ''LoadBalancer'',
                           gs_LoadBalancerIP := gw_StatusAddresses gateway ! 0,
                           gs_Ports := [route_port rk listener port],
                           gs_Labels := set_map ''implementation'' implementation
                             (set_map ''ipam-address'' (gw_StatusAddresses gateway ! 0) (gs_Labels svc))\<rparr>) s))))"

definition route_behaviour :: "L4Route \<Rightarrow> string" where
  "route_behaviour rt = (let b = map_str (rt_Labels rt) ''serviceBehaviour'' in if b = [] then ''create'' else b)"

definition reconcileService ::
  "'s kube_api \<Rightarrow> route_kind \<Rightarrow> string \<Rightarrow> L4Route \<Rightarrow> Gateway \<Rightarrow> Listener \<Rightarrow> BackendRef \<Rightarrow> 's \<Rightarrow> ('s \<times> error option) go" where
  "reconcileService k rk gwProvider rt gateway listener br s =
     (let ns = (case br_Namespace br of Some ns \<Rightarrow> ns | None \<Rightarrow> rt_Namespace rt);
          got = svc_get k s ns (br_Name br)
      in if route_behaviour rt = ''create'' then
           (case got of
              Inr svc \<Rightarrow>
                if created_by_route rk gwProvider (rt_Name rt) svc then route_updateService k rk gwProvider svc br rt gateway listener s
                else Ret (s, Some (''unable to create service '' @ ns @ ''/'' @ br_Name br @ ''. it already exists''))
            | Inl err \<Rightarrow>
                if \<not> IsNotFound k err then Ret (s, Some err)
                else createService k rk gwProvider ns br rt gateway listener s)
         else if route_behaviour rt = ''duplicate'' then
           (case got of
              Inl err \<Rightarrow> Ret (s, Some err)
            | Inr svc \<Rightarrow> duplicateService k rk gwProvider svc br rt gateway listener s)
         else if route_behaviour rt = ''update'' then
           (case got of
              Inl err \<Rightarrow> Ret (s, Some err)
            | Inr svc \<Rightarrow> route_updateService k rk gwProvider svc br rt gateway listener s)
         else Ret (s, Some (''unknown service action '' @ route_behaviour rt)))"

definition route_parent ::
  "'s kube_api \<Rightarrow> route_kind \<Rightarrow> string \<Rightarrow> L4Route \<Rightarrow> ParentRef \<Rightarrow> 's \<Rightarrow> ('s \<times> error option) go" where
  "route_parent k rk gwProvider rt parentRef s =
     (case findGateway k (rt_Namespace rt) parentRef s of
        Inl err \<Rightarrow> if pref_Namespace parentRef = None then Panic ''nil pointer dereference'' else Ret (s, Some err)
      | Inr gateway \<Rightarrow>
          if gw_StatusAddresses gateway = [] then
            Ret (s, Some (''gateway '' @ gw_Namespace gateway @ ''/'' @ gw_Name gateway @ '' has no addresses assigned''))
          else (case findListener gateway parentRef of
                  None \<Rightarrow> Ret (s, None)
                | Some listener \<Rightarrow>
                    go_first (\<lambda>rule. go_first (reconcileService k rk gwProvider rt gateway listener) rule) (rt_Rules rt) s))"

definition create_route ::
  "'s kube_api \<Rightarrow> route_kind \<Rightarrow> string \<Rightarrow> L4Route \<Rightarrow> 's \<Rightarrow> ('s \<times> error option) go" where
  "create_route k rk gwProvider rt s = go_first (route_parent k rk gwProvider rt) (rt_ParentRefs rt) s"

definition delete_route ::
  "'s kube_api \<Rightarrow> route_kind \<Rightarrow> string \<Rightarrow> string \<Rightarrow> string \<Rightarrow> 's \<Rightarrow> 's \<times> error option" where
  "delete_route k rk gwProvider ns name s =
     (case svc_list k s ns of
        Inl err \<Rightarrow> (s, Some err)
      | Inr svcs \<Rightarrow> delete_services k (\<lambda>_. ns) (owned_by_route rk gwProvider name) svcs s)"

definition route_reconcile ::
  "'s kube_api \<Rightarrow> (string \<Rightarrow> string \<Rightarrow> error + L4Route) \<Rightarrow> route_kind \<Rightarrow> string \<Rightarrow> string \<times> string \<Rightarrow> 's \<Rightarrow>
   ('s \<times> error option) go" where
  "route_reconcile k lister rk gwProvider key s =
     (case lister (fst key) (snd key) of
        Inl err \<Rightarrow> if IsNotFound k err then Ret (delete_route k rk gwProvider (fst key) (snd key) s) else Ret (s, Some err)
      | Inr rt \<Rightarrow> create_route k rk gwProvider rt s)"

text \<open>A queue of names: client-go keeps each once.\<close>

definition process_name ::
  "('n \<Rightarrow> 's \<Rightarrow> ('s \<times> error option) go) \<Rightarrow> 'n list \<times> 's \<Rightarrow> ('n list \<times> 's) go" where
  "process_name reconcile st =
     (case st of
        ([], s) \<Rightarrow> Ret ([], s)
      | (key # queue, s) \<Rightarrow>
          go_map (\<lambda>(s, err). (if err = None \<or> key \<in> set queue then queue else queue @ [key], s)) (reconcile key s))"

definition createTCPRoute :: "'s kube_api \<Rightarrow> string \<Rightarrow> L4Route \<Rightarrow> 's \<Rightarrow> ('s \<times> error option) go" where
  "createTCPRoute k gwProvider = create_route k TCPRoute gwProvider"

definition deleteTCPRoute :: "'s kube_api \<Rightarrow> string \<Rightarrow> string \<Rightarrow> string \<Rightarrow> 's \<Rightarrow> 's \<times> error option" where
  "deleteTCPRoute k gwProvider = delete_route k TCPRoute gwProvider"

definition tcp_reconcileService ::
  "'s kube_api \<Rightarrow> string \<Rightarrow> L4Route \<Rightarrow> Gateway \<Rightarrow> Listener \<Rightarrow> BackendRef \<Rightarrow> 's \<Rightarrow> ('s \<times> error option) go" where
  "tcp_reconcileService k gwProvider = reconcileService k TCPRoute gwProvider"

definition tcp_reconcile ::
  "'s kube_api \<Rightarrow> (string \<Rightarrow> string \<Rightarrow> error + L4Route) \<Rightarrow> string \<Rightarrow> string \<times> string \<Rightarrow> 's \<Rightarrow> ('s \<times> error option) go" where
  "tcp_reconcile k lister gwProvider = route_reconcile k lister TCPRoute gwProvider"

definition tcp_processNextWorkItem ::
  "'s kube_api \<Rightarrow> (string \<Rightarrow> string \<Rightarrow> error + L4Route) \<Rightarrow> string \<Rightarrow> (string \<times> string) list \<times> 's \<Rightarrow>
   ((string \<times> string) list \<times> 's) go" where
  "tcp_processNextWorkItem k lister gwProvider = process_name (tcp_reconcile k lister gwProvider)"

definition createUDPRoute :: "'s kube_api \<Rightarrow> string \<Rightarrow> L4Route \<Rightarrow> 's \<Rightarrow> ('s \<times> error option) go" where
  "createUDPRoute k gwProvider = create_route k UDPRoute gwProvider"

definition deleteUDPRoute :: "'s kube_api \<Rightarrow> string \<Rightarrow> string \<Rightarrow> string \<Rightarrow> 's \<Rightarrow> 's \<times> error option" where
  "deleteUDPRoute k gwProvider = delete_route k UDPRoute gwProvider"

definition udp_createService ::
  "'s kube_api \<Rightarrow> string \<Rightarrow> string \<Rightarrow> BackendRef \<Rightarrow> L4Route \<Rightarrow> Gateway \<Rightarrow> Listener \<Rightarrow> 's \<Rightarrow> ('s \<times> error option) go" where
  "udp_createService k gwProvider = createService k UDPRoute gwProvider"

definition udp_duplicateService ::
  "'s kube_api \<Rightarrow> string \<Rightarrow> GwService \<Rightarrow> BackendRef \<Rightarrow> L4Route \<Rightarrow> Gateway \<Rightarrow> Listener \<Rightarrow> 's \<Rightarrow> ('s \<times> error option) go" where
  "udp_duplicateService k gwProvider = duplicateService k UDPRoute gwProvider"

definition udp_updateService ::
  "'s kube_api \<Rightarrow> string \<Rightarrow> GwService \<Rightarrow> BackendRef \<Rightarrow> L4Route \<Rightarrow> Gateway \<Rightarrow> Listener \<Rightarrow> 's \<Rightarrow> ('s \<times> error option) go" where
  "udp_updateService k gwProvider = route_updateService k UDPRoute gwProvider"

definition udp_reconcileService ::
  "'s kube_api \<Rightarrow> string \<Rightarrow> L4Route \<Rightarrow> Gateway \<Rightarrow> Listener \<Rightarrow> BackendRef \<Rightarrow> 's \<Rightarrow> ('s \<times> error option) go" where
  "udp_reconcileService k gwProvider = reconcileService k UDPRoute gwProvider"

definition udp_reconcile ::
  "'s kube_api \<Rightarrow> (string \<Rightarrow> string \<Rightarrow> error + L4Route) \<Rightarrow> string \<Rightarrow> string \<times> string \<Rightarrow> 's \<Rightarrow> ('s \<times> error option) go" where
  "udp_reconcile k lister gwProvider = route_reconcile k lister UDPRoute gwProvider"

definition udp_processNextWorkItem ::
  "'s kube_api \<Rightarrow> (string \<Rightarrow> string \<Rightarrow> error + L4Route) \<Rightarrow> string \<Rightarrow> (string \<times> string) list \<times> 's \<Rightarrow>
   ((string \<times> string) list \<times> 's) go" where
  "udp_processNextWorkItem k lister gwProvider = process_name (udp_reconcile k lister gwProvider)"

definition class_processNextWorkItem ::
  "'s kube_api \<Rightarrow> (string \<Rightarrow> error + GatewayClass) \<Rightarrow> string \<Rightarrow> string list \<times> 's \<Rightarrow> (string list \<times> 's) go" where
  "class_processNextWorkItem k lister gatewayClass =
     process_name (\<lambda>name s. Ret (class_reconcile k lister gatewayClass name s))"

subsection \<open>HTTP routes\<close>

definition http_path :: "HTTPMatch \<Rightarrow> BackendRef \<Rightarrow> IngressPath" where
  "http_path match br =
     \<lparr>ip_Path = (case hm_Path match of Some (Some v, _) \<Rightarrow> v | _ \<Rightarrow> []),
      ip_PathType = (case hm_Path match of
                       Some (_, Some ty) \<Rightarrow> Some (if ty = ''Exact'' then ''Exact'' else ''Prefix'')
                     | _ \<Rightarrow> None),
      ip_Service = br_Name br, ip_Port = (case br_Port br of Some p \<Rightarrow> p | None \<Rightarrow> 0)\<rparr>"

definition external_backend :: "string \<Rightarrow> BackendRef \<Rightarrow> strings \<Rightarrow> strings" where
  "external_backend ingNs br m =
     (case br_Namespace br of
        None \<Rightarrow> m
      | Some ns \<Rightarrow>
          if ingNs \<noteq> ns then
            AList.update (''service-'' @ br_Name br @ ''-namespace'') ns (AList.update ''external-backend-service'' ''true'' m)
          else m)"

definition http_hostnames :: "HTTPRoute \<Rightarrow> Listener \<Rightarrow> string list" where
  "http_hostnames rt listener = (case ln_Hostname listener of Some h \<Rightarrow> [h] | None \<Rightarrow> ht_Hostnames rt)"

definition http_ingress :: "string \<Rightarrow> HTTPRoute \<Rightarrow> Gateway \<Rightarrow> Listener \<Rightarrow> GwIngress" where
  "http_ingress gwProvider rt gateway listener =
     (let hostnames = http_hostnames rt listener;
          pairs = (\<lambda>rule. [(match, br). match \<leftarrow> hr_Matches rule, br \<leftarrow> hr_BackendRefs rule]);
          base = AList.update ''parent-http-route'' (ht_Name rt)
                   (AList.update ''parent-gateway-namespace'' (gw_Namespace gateway)
                     (AList.update ''parent-gateway'' (gw_Name gateway)
                       (AList.update ''gateway-api-controller'' gwProvider (ht_Annotations rt))))
      in \<lparr>gi_Namespace = ht_Namespace rt, gi_Name = ht_Name rt,
          gi_Annotations = fold (\<lambda>(_, br). external_backend (ht_Namespace rt) br) (concat (map pairs (ht_Rules rt))) base,
          gi_Labels = [(''implementation'', implementation)], gi_ClassName = ''loxilb'',
          gi_TLS = (case ln_TLS listener of
                      None \<Rightarrow> []
                    | Some refs \<Rightarrow> map (\<lambda>r. (cr_Name r, hostnames)) (filter (\<lambda>r. cr_Kind r = Some ''Secret'') refs)),
          gi_Rules = concat (map (\<lambda>rule. map (\<lambda>h. (h, map (\<lambda>(match, br). http_path match br) (pairs rule))) hostnames) (ht_Rules rt))\<rparr>)"

definition createIngress ::
  "'s kube_api \<Rightarrow> string \<Rightarrow> HTTPRoute \<Rightarrow> Gateway \<Rightarrow> Listener \<Rightarrow> 's \<Rightarrow> 's \<times> error option" where
  "createIngress k gwProvider rt gateway listener s = ing_create k (http_ingress gwProvider rt gateway listener) s"

text \<open>An error of the creation is logged and dropped.\<close>

definition reconcileIngress ::
  "'s kube_api \<Rightarrow> string \<Rightarrow> HTTPRoute \<Rightarrow> Gateway \<Rightarrow> Listener \<Rightarrow> 's \<Rightarrow> 's \<times> error option" where
  "reconcileIngress k gwProvider rt gateway listener s = (fst (createIngress k gwProvider rt gateway listener s), None)"

definition http_parent :: "'s kube_api \<Rightarrow> string \<Rightarrow> HTTPRoute \<Rightarrow> ParentRef \<Rightarrow> 's \<Rightarrow> 's \<times> error option" where
  "http_parent k gwProvider rt parentRef s =
     (case findGateway k (ht_Namespace rt) parentRef s of
        Inl err \<Rightarrow> (s, Some err)
      | Inr gateway \<Rightarrow>
          if gw_StatusAddresses gateway = [] then
            (s, Some (''gateway '' @ gw_Namespace gateway @ ''/'' @ gw_Name gateway @ '' has no addresses assigned''))
          else (case findListener gateway parentRef of
                  None \<Rightarrow> (s, None)
                | Some listener \<Rightarrow> reconcileIngress k gwProvider rt gateway listener s))"

definition createHTTPRoute :: "'s kube_api \<Rightarrow> string \<Rightarrow> HTTPRoute \<Rightarrow> 's \<Rightarrow> 's \<times> error option" where
  "createHTTPRoute k gwProvider rt s = first_error (http_parent k gwProvider rt) (ht_ParentRefs rt) s"

fun delete_ingresses :: "'s kube_api \<Rightarrow> string \<Rightarrow> (GwIngress \<Rightarrow> bool) \<Rightarrow> GwIngress list \<Rightarrow> 's \<Rightarrow> 's \<times> error option" where
  "delete_ingresses k ns owned [] s = (s, None)"
| "delete_ingresses k ns owned (i # is) s =
     (if owned i then
        (case ing_delete k ns (gi_Name i) s of
           (s, Some err) \<Rightarrow> (s, Some err)
         | (s, None) \<Rightarrow> delete_ingresses k ns owned is s)
      else delete_ingresses k ns owned is s)"

definition deleteHTTPRoute :: "'s kube_api \<Rightarrow> string \<Rightarrow> string \<Rightarrow> string \<Rightarrow> 's \<Rightarrow> 's \<times> error option" where
  "deleteHTTPRoute k gwProvider ns name s =
     (case ing_list k s ns of
        Inl err \<Rightarrow> (s, Some err)
      | Inr is \<Rightarrow>
          delete_ingresses k ns
            (\<lambda>i. map_str (gi_Annotations i) ''gateway-api-controller'' = gwProvider \<and>
                 map_str (gi_Annotations i) ''parent-http-route'' = name) is s)"

definition http_reconcile ::
  "'s kube_api \<Rightarrow> (string \<Rightarrow> string \<Rightarrow> error + HTTPRoute) \<Rightarrow> string \<Rightarrow> string \<times> string \<Rightarrow> 's \<Rightarrow> ('s \<times> error option) go" where
  "http_reconcile k lister gwProvider key s =
     Ret (case lister (fst key) (snd key) of
            Inl err \<Rightarrow> if IsNotFound k err then deleteHTTPRoute k gwProvider (fst key) (snd key) s else (s, Some err)
          | Inr rt \<Rightarrow> createHTTPRoute k gwProvider rt s)"

definition http_processNextWorkItem ::
  "'s kube_api \<Rightarrow> (string \<Rightarrow> string \<Rightarrow> error + HTTPRoute) \<Rightarrow> string \<Rightarrow> (string \<times> string) list \<times> 's \<Rightarrow>
   ((string \<times> string) list \<times> 's) go" where
  "http_processNextWorkItem k lister gwProvider = process_name (http_reconcile k lister gwProvider)"

end
