(* ===== verification/Gateway_Correct.thy ===== *)
theory Gateway_Correct
  imports Gateway_Api
begin

text \<open>
  What the managers of the Gateway API promise: which services a route and a gateway may touch, which
  ones they remove, and what becomes of the address of a gateway.

  What they rely on is the documented behaviour of the API server on services, stated over the
  abstraction \<open>svcs\<close> of its state: objects are kept under their namespace and name; a reading that succeeds
  returns what is there, and one that reports that there is nothing is right, but any reading may fail; a
  creation fails if there is an object, an update if there is none, and a call that fails changes nothing.
\<close>

type_synonym svc_map = "string \<times> string \<Rightarrow> GwService option"

definition svc_key :: "GwService \<Rightarrow> string \<times> string" where
  "svc_key x = (gs_Namespace x, gs_Name x)"

definition reads_services :: "'s kube_api \<Rightarrow> ('s \<Rightarrow> svc_map) \<Rightarrow> bool" where
  "reads_services k svcs \<longleftrightarrow>
     (\<forall>s key x. svcs s key = Some x \<longrightarrow> svc_key x = key) \<and>
     (\<forall>s ns n x. svc_get k s ns n = Inr x \<longrightarrow> svcs s (ns, n) = Some x) \<and>
     (\<forall>s ns n e. svc_get k s ns n = Inl e \<longrightarrow> IsNotFound k e \<longrightarrow> svcs s (ns, n) = None) \<and>
     (\<forall>s ns xs. svc_list k s ns = Inr xs \<longrightarrow> set xs = {x. \<exists>n. svcs s (ns, n) = Some x})"

definition writes_services :: "'s kube_api \<Rightarrow> ('s \<Rightarrow> svc_map) \<Rightarrow> bool" where
  "writes_services k svcs \<longleftrightarrow>
     (\<forall>x s s' r. svc_create k x s = (s', r) \<longrightarrow>
        (r = None \<longrightarrow> svcs s (svc_key x) = None \<and> (\<exists>y. gs_Annotations y = gs_Annotations x \<and> svcs s' = (svcs s)(svc_key x \<mapsto> y))) \<and>
        (r \<noteq> None \<longrightarrow> svcs s' = svcs s)) \<and>
     (\<forall>x s s' r. svc_update k x s = (s', r) \<longrightarrow>
        (r = None \<longrightarrow> svcs s (svc_key x) \<noteq> None \<and> (\<exists>y. gs_Annotations y = gs_Annotations x \<and> svcs s' = (svcs s)(svc_key x \<mapsto> y))) \<and>
        (r \<noteq> None \<longrightarrow> svcs s' = svcs s)) \<and>
     (\<forall>ns n s s' r. svc_delete k ns n s = (s', r) \<longrightarrow> svcs s' = (if r = None then (svcs s)((ns, n) := None) else svcs s))"

lemma create_effect:
  assumes "writes_services k svcs" and "svc_create k x s = (s', r)"
  shows "r = None \<Longrightarrow> \<exists>z. gs_Annotations z = gs_Annotations x \<and> svcs s' = (svcs s)(svc_key x \<mapsto> z)"
    and "r \<noteq> None \<Longrightarrow> svcs s' = svcs s"
  using assms(1)[unfolded writes_services_def, THEN conjunct1, rule_format, OF assms(2)] by auto

lemma update_effect:
  assumes "writes_services k svcs" and "svc_update k x s = (s', r)"
  shows "r = None \<Longrightarrow> \<exists>z. gs_Annotations z = gs_Annotations x \<and> svcs s' = (svcs s)(svc_key x \<mapsto> z)" and "r \<noteq> None \<Longrightarrow> svcs s' = svcs s"
  using assms(1)[unfolded writes_services_def, THEN conjunct2, THEN conjunct1, rule_format, OF assms(2)] by auto

lemma delete_effect:
  "writes_services k svcs \<Longrightarrow> svc_delete k ns n s = (s', r) \<Longrightarrow>
   svcs s' = (if r = None then (svcs s)((ns, n) := None) else svcs s)"
  unfolding writes_services_def by blast

subsection \<open>The steps of a UDP route\<close>

text \<open>What happens to one backend of a UDP route, by the behaviour its label asks for.\<close>

lemma udp_reconcileService_eq:
  assumes "ns = (case br_Namespace br of Some ns \<Rightarrow> ns | None \<Rightarrow> rt_Namespace rt)"
  shows "udp_reconcileService k gwProvider rt gateway listener br s =
    (case (route_behaviour rt, svc_get k s ns (br_Name br)) of
       (b, Inl err) \<Rightarrow>
         if b = ''create'' \<and> IsNotFound k err then udp_createService k gwProvider ns br rt gateway listener s
         else if b \<in> {''create'', ''duplicate'', ''update''} then Ret (s, Some err)
         else Ret (s, Some (''unknown service action '' @ b))
     | (b, Inr svc) \<Rightarrow>
         if b = ''update'' \<or> b = ''create'' \<and> created_by_route UDPRoute gwProvider (rt_Name rt) svc
         then udp_updateService k gwProvider svc br rt gateway listener s
         else if b = ''duplicate'' then udp_duplicateService k gwProvider svc br rt gateway listener s
         else if b = ''create'' then Ret (s, Some (''unable to create service '' @ ns @ ''/'' @ br_Name br @ ''. it already exists''))
         else Ret (s, Some (''unknown service action '' @ b)))"
  using assms
  by (auto simp: udp_reconcileService_def reconcileService_def udp_createService_def udp_duplicateService_def
      udp_updateService_def Let_def split: sum.split)

subsection \<open>Routes keep to their own services\<close>

lemma go_first_keeps:
  assumes "\<And>x s s' e. x \<in> set xs \<Longrightarrow> f x s = Ret (s', e) \<Longrightarrow> P s \<Longrightarrow> P s'" and "go_first f xs s = Ret (s', e)" and "P s"
  shows "P s'"
  using assms
proof (induction xs arbitrary: s)
  case (Cons x xs)
  from Cons.prems(2) obtain s1 e1 where s1: "f x s = Ret (s1, e1)" by (cases "f x s") auto
  have P1: "P s1" using Cons.prems(1)[OF _ s1] Cons.prems(3) by simp
  show ?case
  proof (cases "e1 = None")
    case True
    then have "go_first f xs s1 = Ret (s', e)" using Cons.prems(2) s1 by simp
    then show ?thesis using Cons.IH[of s1] Cons.prems(1) P1 by (meson list.set_intros(2))
  next
    case False
    then show ?thesis using Cons.prems(2) s1 P1 by (auto split: if_splits)
  qed
qed simp

definition backend_key :: "L4Route \<Rightarrow> BackendRef \<Rightarrow> string \<times> string" where
  "backend_key rt br = ((case br_Namespace br of Some ns \<Rightarrow> ns | None \<Rightarrow> rt_Namespace rt), br_Name br)"

definition route_backends :: "L4Route \<Rightarrow> (string \<times> string) set" where
  "route_backends rt = backend_key rt ` (\<Union>rule\<in>set (rt_Rules rt). set rule)"

lemma mark_service_marks:
  "gs_Annotations z = mark_service rk p name (Some m) \<Longrightarrow> created_by_route rk p name z"
  by (cases rk) (auto simp: created_by_route_def mark_service_def set_map_def parent_route_def update_conv')

text \<open>Only the service of \<open>key\<close> may change, from absent or marked to marked.\<close>

definition marked_change :: "(GwService \<Rightarrow> bool) \<Rightarrow> string \<times> string \<Rightarrow> svc_map \<Rightarrow> svc_map \<Rightarrow> bool" where
  "marked_change marked key t t' \<longleftrightarrow>
     t' = t \<or> (\<exists>z. t' = t(key \<mapsto> z) \<and> marked z \<and> (\<forall>y. t key = Some y \<longrightarrow> marked y))"

lemma route_update_change:
  assumes "writes_services k svcs" and "route_updateService k rk p svc br rt gw l s = Ret (s', e)"
    and "svcs s (svc_key svc) = Some svc" and "created_by_route rk p (rt_Name rt) svc"
  shows "marked_change (created_by_route rk p (rt_Name rt)) (svc_key svc) (svcs s) (svcs s')"
proof -
  obtain x m where u: "svc_update k x s = (s', e)" "svc_key x = svc_key svc" "gs_Annotations x = mark_service rk p (rt_Name rt) (Some m)"
    using assms(2) by (auto simp: route_updateService_def svc_key_def split: option.splits)
  show ?thesis
    using update_effect[OF assms(1) u(1)] u(2,3) assms(3,4) by (cases "e = None") (auto simp: marked_change_def mark_service_marks)
qed

lemma createService_change:
  assumes "writes_services k svcs" and "createService k rk p ns br rt gw l s = Ret (s', e)" and "svcs s (ns, br_Name br) = None"
  shows "marked_change (created_by_route rk p (rt_Name rt)) (ns, br_Name br) (svcs s) (svcs s')"
proof -
  obtain x m where c: "svc_create k x s = (s', e)" "svc_key x = (ns, br_Name br)" "gs_Annotations x = mark_service rk p (rt_Name rt) (Some m)"
    using assms(2) by (auto simp: createService_def svc_key_def split: option.splits)
  show ?thesis
    using create_effect[OF assms(1) c(1)] c(2,3) assms(3) by (cases "e = None") (auto simp: marked_change_def mark_service_marks)
qed

lemma reconcileService_change:
  assumes "reads_services k svcs" and "writes_services k svcs" and "route_behaviour rt = ''create''"
    and "reconcileService k rk p rt gw l br s = Ret (s', e)"
  shows "marked_change (created_by_route rk p (rt_Name rt)) (backend_key rt br) (svcs s) (svcs s')"
proof -
  obtain ns where ns: "backend_key rt br = (ns, br_Name br)" "ns = (case br_Namespace br of Some ns \<Rightarrow> ns | None \<Rightarrow> rt_Namespace rt)"
    by (simp add: backend_key_def)
  have same: "marked_change marked key (svcs s) (svcs s)" for marked key by (simp add: marked_change_def)
  show ?thesis
  proof (cases "svc_get k s ns (br_Name br)")
    case (Inl err)
    show ?thesis
    proof (cases "IsNotFound k err")
      case True
      then have "svcs s (ns, br_Name br) = None" using assms(1) Inl unfolding reads_services_def by blast
      moreover have "createService k rk p ns br rt gw l s = Ret (s', e)"
        using assms(3,4) Inl True by (simp add: reconcileService_def ns(2)[symmetric] Let_def)
      ultimately show ?thesis unfolding ns(1) using createService_change[OF assms(2)] by blast
    next
      case False
      then have "s' = s" using assms(3,4) Inl by (simp add: reconcileService_def ns(2)[symmetric] Let_def)
      then show ?thesis using same by simp
    qed
  next
    case (Inr svc)
    then have svc: "svcs s (ns, br_Name br) = Some svc" "svc_key svc = (ns, br_Name br)"
      using assms(1) unfolding reads_services_def by blast+
    show ?thesis
    proof (cases "created_by_route rk p (rt_Name rt) svc")
      case True
      then have "route_updateService k rk p svc br rt gw l s = Ret (s', e)"
        using assms(3,4) Inr by (simp add: reconcileService_def ns(2)[symmetric] Let_def)
      then show ?thesis using route_update_change[OF assms(2) _ _ True] svc unfolding ns(1) by simp
    next
      case False
      then have "s' = s" using assms(3,4) Inr by (simp add: reconcileService_def ns(2)[symmetric] Let_def)
      then show ?thesis using same by simp
    qed
  qed
qed

text \<open>From the services \<open>t\<close> at the start to \<open>t'\<close> at most the backends changed, from absent or marked to marked.\<close>

definition marked_changes :: "(GwService \<Rightarrow> bool) \<Rightarrow> (string \<times> string) set \<Rightarrow> svc_map \<Rightarrow> svc_map \<Rightarrow> bool" where
  "marked_changes marked keys t t' \<longleftrightarrow>
     (\<forall>key. t' key = t key \<or>
        key \<in> keys \<and> (\<forall>y. t key = Some y \<longrightarrow> marked y) \<and> (\<exists>z. t' key = Some z \<and> marked z))"

lemma marked_changes_step:
  assumes "marked_changes marked keys t t1" and "marked_change marked key t1 t2" and "key \<in> keys"
  shows "marked_changes marked keys t t2"
  using assms unfolding marked_changes_def marked_change_def by (metis fun_upd_other fun_upd_same option.distinct(1) option.inject)

lemma route_parent_changes:
  assumes "reads_services k svcs" and "writes_services k svcs" and "route_behaviour rt = ''create''"
    and "route_parent k rk p rt ref s = Ret (s', e)" and "marked_changes (created_by_route rk p (rt_Name rt)) (route_backends rt) t (svcs s)"
  shows "marked_changes (created_by_route rk p (rt_Name rt)) (route_backends rt) t (svcs s')"
proof -
  let ?P = "\<lambda>s. marked_changes (created_by_route rk p (rt_Name rt)) (route_backends rt) t (svcs s)"
  have backend: "?P s2" if "br \<in> set rule" "rule \<in> set (rt_Rules rt)" "reconcileService k rk p rt gw l br s1 = Ret (s2, e2)" "?P s1"
    for br rule gw l s1 s2 e2
    using marked_changes_step[OF that(4) reconcileService_change[OF assms(1-3) that(3)]] that(1,2) unfolding route_backends_def by blast
  have rule: "?P s2" if "rule \<in> set (rt_Rules rt)" "go_first (reconcileService k rk p rt gw l) rule s1 = Ret (s2, e2)" "?P s1"
    for rule gw l s1 s2 e2
    using that(2,3) by (rule go_first_keeps[where P = ?P, rotated]) (rule backend[OF _ that(1)])
  have "?P s2" if "go_first (\<lambda>rule. go_first (reconcileService k rk p rt gw l) rule) (rt_Rules rt) s = Ret (s2, e2)" for gw l s2 e2
    using that assms(5) by (rule go_first_keeps[where P = ?P, rotated]) (rule rule)
  then show ?thesis using assms(4,5) by (auto simp: route_parent_def split: sum.splits if_splits option.splits)
qed

text \<open>
  C25. What a route that creates its services may change. However the reading and writing of services
  fails, and also when an error occurs on the way: a service that is not the same after the manager
  worked on the route is a backend of the route; it either did not exist or carried the annotations with
  the provider and the name of the route; and it carries them now. Every other service is as before. The
  annotations do not have the namespace of the route, so that this holds a route back from the
  services of a route of another name only.
\<close>

theorem route_changes_only_marked_backends:
  assumes "reads_services k svcs" and "writes_services k svcs" and "route_behaviour rt = ''create''"
    and "create_route k rk p rt s = Ret (s', e)" and "svcs s' key \<noteq> svcs s key"
  shows "key \<in> route_backends rt \<and> (\<forall>y. svcs s key = Some y \<longrightarrow> created_by_route rk p (rt_Name rt) y) \<and>
    (\<exists>z. svcs s' key = Some z \<and> created_by_route rk p (rt_Name rt) z)"
proof -
  let ?P = "\<lambda>s'. marked_changes (created_by_route rk p (rt_Name rt)) (route_backends rt) (svcs s) (svcs s')"
  have "?P s" by (simp add: marked_changes_def)
  with assms(4)[unfolded create_route_def] have "?P s'"
    by (rule go_first_keeps[where P = ?P, rotated]) (rule route_parent_changes[OF assms(1-3)])
  then show ?thesis using assms(5) unfolding marked_changes_def by blast
qed

subsection \<open>Deletion of a route\<close>

lemma delete_services_effect:
  assumes "writes_services k svcs" and "delete_services k nsOf owned xs s = (s', None)"
  shows "svcs s' = (\<lambda>key. if key \<in> (\<lambda>x. (nsOf x, gs_Name x)) ` {x \<in> set xs. owned x} then None else svcs s key)"
  using assms(2)
proof (induction xs arbitrary: s)
  case (Cons x xs)
  show ?case
  proof (cases "owned x")
    case True
    then obtain s1 where d: "svc_delete k (nsOf x) (gs_Name x) s = (s1, None)" and "delete_services k nsOf owned xs s1 = (s', None)"
      using Cons.prems by (auto split: prod.splits option.splits)
    then show ?thesis using Cons.IH[of s1] delete_effect[OF assms(1) d] True by (auto simp: fun_eq_iff)
  next
    case False
    then have "delete_services k nsOf owned xs s = (s', None)" using Cons.prems by simp
    moreover have "{y \<in> set (x # xs). owned y} = {y \<in> set xs. owned y}" using False by auto
    ultimately show ?thesis using Cons.IH[of s] by simp
  qed
qed simp

text \<open>
  C26. Deleting a route removes exactly its services: when the manager has worked without an error on a
  route that is gone, the services of its namespace that carry its marks are gone, and every other
  service, in this and in every other namespace, is as before.
\<close>

theorem route_delete_exact:
  assumes "reads_services k svcs" and "writes_services k svcs"
    and "lister ns name = Inl err" and "IsNotFound k err"
    and "route_reconcile k lister rk p (ns, name) s = Ret (s', None)"
  shows "svcs s' (ns', n) =
    (case svcs s (ns', n) of
       Some x \<Rightarrow> if ns' = ns \<and> owned_by_route rk p name x then None else Some x
     | None \<Rightarrow> None)"
proof -
  have "delete_route k rk p ns name s = (s', None)" using assms(3-5) by (simp add: route_reconcile_def)
  then obtain xs where xs: "svc_list k s ns = Inr xs"
    and del: "delete_services k (\<lambda>_. ns) (owned_by_route rk p name) xs s = (s', None)"
    by (auto simp: delete_route_def split: sum.splits)
  have mem: "set xs = {x. \<exists>n. svcs s (ns, n) = Some x}" using assms(1) xs unfolding reads_services_def by blast
  have key: "gs_Name x = m" if "svcs s (ns, m) = Some x" for x m
    using assms(1) that unfolding reads_services_def svc_key_def by blast
  have "(ns', n) \<in> (\<lambda>x. (ns, gs_Name x)) ` {x \<in> set xs. owned_by_route rk p name x} \<longleftrightarrow>
      ns' = ns \<and> (\<exists>x. svcs s (ns, n) = Some x \<and> owned_by_route rk p name x)"
    using key by (auto simp: mem image_iff)
  then show ?thesis unfolding delete_services_effect[OF assms(2) del] by (auto split: option.split)
qed

subsection \<open>The address of a gateway\<close>

lemma gateway_finish_keeps:
  "gateway_finish k gc lc gw g = Ret (g', e) \<Longrightarrow> gm_pool g' = gm_pool g \<and> gm_cache g' = gm_cache g"
  by (auto simp: gateway_finish_def go_map_def split: prod.splits go.splits)

lemma fold_add_new: "set (fold (\<lambda>a as. if list_ex (\<lambda>b. b = a) as then as else as @ [a]) xs ys) = set xs \<union> set ys"
  by (induction xs arbitrary: ys) (auto simp: list_ex_iff)

lemma gateway_status_addresses: "set (gw_StatusAddresses (gateway_status gw)) = set (gw_SpecAddresses gw) \<union> set (gw_StatusAddresses gw)"
  by (simp add: gateway_status_def fold_add_new)

text \<open>
  C27. After a failed update a gateway is given an address that is free: when the update of a gateway
  with a new address fails, the address goes back to the pool, but it stays in the object of the lister;
  the next round finds it there, takes no address from the pool, and publishes it in the status.
\<close>

theorem gateway_retry_uses_freed_address:
  assumes "ipam_contract tk held" and "wf_pool p" and "gm_pool g = Some p"
    and "map_of (gm_cache g) (gw_Namespace gw, gw_Name gw) = Some gw" and "gw_SpecAddresses gw = []"
    and "GetNewIPAddr tk p (GenKey (gw_Namespace gw) (gw_Name gw)) 0 [] = (q, ip, ident)" and "ip \<noteq> []"
    and "ParseIP (IP_String ip) \<noteq> []" and "in_pool tk p (ParseIP (IP_String ip))"
    and "\<forall>s. class_get k s (gw_ClassName gw) = Inr gc"
    and "gw_update k (assign_address (IP_String ip) ident gw) (gm_api g) = (s1, Inl err)"
  shows "\<exists>g1 r. gateway_reconcile tk k cls lbc gw g = Ret (g1, Some ''unable to update gateway configuration'') \<and>
    gm_pool g1 = Some r \<and> held (IPAlloc r) = held (IPAlloc p) \<and>
    (\<forall>g2 e. gateway_reconcile tk k cls lbc gw g1 = Ret (g2, e) \<longrightarrow> gm_pool g2 = Some r \<and>
       (\<exists>gw2. map_of (gm_cache g2) (gw_Namespace gw, gw_Name gw) = Some gw2 \<and> IP_String ip \<in> set (gw_StatusAddresses gw2)))"
proof -
  let ?key = "(gw_Namespace gw, gw_Name gw)" and ?gw = "assign_address (IP_String ip) ident gw"
  obtain r where r: "ReturnIPAddr tk q (IP_String ip) ident = Ret r" "held (IPAlloc r) = held (IPAlloc p)"
    using return_after_alloc[OF assms(1,2,6-9)] by blast
  define g1 where "g1 = g\<lparr>gm_pool := Some r, gm_cache := AList.update ?key ?gw (gm_cache g), gm_api := s1\<rparr>"
  have id: "gw_Namespace ?gw = gw_Namespace gw" "gw_Name ?gw = gw_Name gw" "gw_ClassName ?gw = gw_ClassName gw"
    "gw_SpecAddresses ?gw = [IP_String ip]"
    using assms(5) by (simp_all add: assign_address_def)
  have "gateway_reconcile tk k cls lbc gw g = Ret (g1, Some ''unable to update gateway configuration'')"
    using assms(3-7,10,11) r(1) by (simp add: gateway_reconcile_def createGateway_def Let_def go_map_def g1_def)
  moreover have "gm_pool g2 = Some r \<and> (\<exists>gw2. map_of (gm_cache g2) ?key = Some gw2 \<and> IP_String ip \<in> set (gw_StatusAddresses gw2))"
    if "gateway_reconcile tk k cls lbc gw g1 = Ret (g2, e)" for g2 e
  proof -
    have "gateway_finish k cls lbc ?gw (g1\<lparr>gm_cache := AList.update ?key (gateway_status ?gw) (gm_cache g1)\<rparr>) = Ret (g2, e)"
      using that assms(10) by (simp add: gateway_reconcile_def createGateway_def Let_def id g1_def update_conv')
    from gateway_finish_keeps[OF this] show ?thesis
      by (simp add: g1_def update_conv' gateway_status_addresses id)
  qed
  ultimately show ?thesis using r(2) by (intro exI[of _ g1] exI[of _ r]) (simp add: g1_def)
qed

subsection \<open>A small cluster\<close>

text \<open>
  A cluster whose state is a list of services, the newest entry of a key first, with one gateway, and
  with an API server that refuses to change it.
\<close>

definition demo_gateway :: Gateway where
  "demo_gateway = \<lparr>gw_Namespace = ''ns'', gw_Name = ''gw'', gw_Annotations = None, gw_Labels = None,
     gw_ClassName = ''lx'', gw_SpecAddresses = [],
     gw_Listeners = [\<lparr>ln_Name = ''l'', ln_Protocol = ''TCP'', ln_Port = 80, ln_Hostname = None, ln_TLS = None\<rparr>],
     gw_StatusAddresses = [''1.1.1.1''], gw_Conditions = []\<rparr>"

definition listed_services :: "GwService list \<Rightarrow> svc_map" where
  "listed_services s key = find (\<lambda>x. svc_key x = key) s"

definition list_kube :: "GwService list kube_api" where
  "list_kube = \<lparr>
     svc_get = (\<lambda>s ns n. case listed_services s (ns, n) of Some x \<Rightarrow> Inr x | None \<Rightarrow> Inl ''not found''),
     svc_list = (\<lambda>s ns. Inr (filter (\<lambda>x. gs_Namespace x = ns \<and> listed_services s (svc_key x) = Some x) s)),
     svc_create = (\<lambda>x s. if listed_services s (svc_key x) = None then (x # s, None) else (s, Some ''already exists'')),
     svc_update = (\<lambda>x s. if listed_services s (svc_key x) = None then (s, Some ''not found'') else (x # s, None)),
     svc_delete = (\<lambda>ns n s. if listed_services s (ns, n) = None then (s, Some ''not found'')
                            else (filter (\<lambda>x. svc_key x \<noteq> (ns, n)) s, None)),
     gw_get = (\<lambda>s ns n. Inr demo_gateway), gw_update = (\<lambda>g s. (s, Inl ''conflict'')),
     gw_updateStatus = (\<lambda>g s. (s, g, None)),
     class_get = (\<lambda>s n. Inr \<lparr>gc_Name = n, gc_ControllerName = ''lx'', gc_Conditions = []\<rparr>),
     class_updateStatus = (\<lambda>c s. (s, None)),
     ing_list = (\<lambda>s ns. Inr []), ing_create = (\<lambda>i s. (s, None)), ing_delete = (\<lambda>ns n s. (s, None)),
     IsNotFound = (\<lambda>e. e = ''not found'')\<rparr>"

lemma listed_services_key: "listed_services s key = Some x \<Longrightarrow> svc_key x = key \<and> x \<in> set s"
  by (auto simp: listed_services_def find_Some_iff)

lemma listed_services_cons: "listed_services (x # s) = (listed_services s)(svc_key x \<mapsto> x)"
  by (auto simp: listed_services_def fun_eq_iff)

lemma listed_services_filter: "listed_services (filter (\<lambda>x. svc_key x \<noteq> key) s) = (listed_services s)(key := None)"
  by (induction s) (auto simp: listed_services_def fun_eq_iff)

lemma list_kube_reads: "reads_services list_kube listed_services"
proof -
  have "set xs = {x. \<exists>n. listed_services s (ns, n) = Some x}" if "svc_list list_kube s ns = Inr xs" for s ns xs
  proof (intro set_eqI iffI)
    fix x
    have xs: "x \<in> set xs \<longleftrightarrow> x \<in> set s \<and> gs_Namespace x = ns \<and> listed_services s (svc_key x) = Some x"
      using that by (auto simp: list_kube_def)
    show "x \<in> {x. \<exists>n. listed_services s (ns, n) = Some x}" if "x \<in> set xs" using that xs by (auto simp: svc_key_def)
    show "x \<in> set xs" if ex: "x \<in> {x. \<exists>n. listed_services s (ns, n) = Some x}"
    proof -
      obtain n where n: "listed_services s (ns, n) = Some x" using ex by blast
      then show ?thesis using listed_services_key[OF n] xs by (simp add: svc_key_def)
    qed
  qed
  moreover have "listed_services s (ns, n) = None" if "svc_get list_kube s ns n = Inl e" for s ns n e
    using that by (simp add: list_kube_def split: option.splits)
  moreover have "listed_services s (ns, n) = Some x" if "svc_get list_kube s ns n = Inr x" for s ns n x
    using that by (simp add: list_kube_def split: option.splits)
  ultimately show ?thesis unfolding reads_services_def by (blast dest: listed_services_key)
qed

text \<open>The contract allows every reading of a service to fail.\<close>

lemma timeout_kube_reads: "reads_services (list_kube\<lparr>svc_get := \<lambda>_ _ _. Inl ''timeout''\<rparr>) listed_services"
  using list_kube_reads unfolding reads_services_def by (simp add: list_kube_def)

lemma list_kube_writes: "writes_services list_kube listed_services"
  unfolding writes_services_def
  by (auto simp: list_kube_def listed_services_cons listed_services_filter split: if_splits)

definition demo_service :: "string \<Rightarrow> strings \<Rightarrow> GwService" where
  "demo_service name m = \<lparr>gs_Namespace = ''ns'', gs_Name = name, gs_Annotations = Some m, gs_Labels = None,
     gs_ResourceVersion = [], gs_Type = ''ClusterIP'', gs_ClusterIP = [], gs_ClusterIPs = [],
     gs_LoadBalancerClass = None, gs_LoadBalancerIP = [], gs_Ports = [], gs_Selector = []\<rparr>"

definition demo_route :: L4Route where
  "demo_route = \<lparr>rt_Namespace = ''ns'', rt_Name = ''rt'', rt_Labels = [], rt_Annotations = [],
     rt_ParentRefs = [\<lparr>pref_Namespace = None, pref_Name = ''gw'', pref_SectionName = Some ''l''\<rparr>],
     rt_Rules = [[\<lparr>br_Namespace = None, br_Name = ''new'', br_Port = Some 80\<rparr>,
                  \<lparr>br_Namespace = None, br_Name = ''db'', br_Port = Some 80\<rparr>]]\<rparr>"

lemmas demo_defs = demo_route_def demo_service_def demo_gateway_def list_kube_def listed_services_def svc_key_def

definition demo_marks :: strings where
  "demo_marks = [(''gateway-api-controller'', ''lx''), (''parent-tcp-route'', ''rt'')]"

text \<open>The route creates the service of its first backend and stops at the second, which is not its own.\<close>

theorem route_changes_only_marked_backends_witness:
  "\<exists>s z. create_route list_kube TCPRoute ''lx'' demo_route [demo_service ''db'' [], demo_service ''web'' demo_marks] =
       Ret (s, Some ''unable to create service ns/db. it already exists'') \<and>
     listed_services s (''ns'', ''new'') = Some z \<and> created_by_route TCPRoute ''lx'' ''rt'' z \<and>
     listed_services s (''ns'', ''db'') = Some (demo_service ''db'' []) \<and>
     listed_services s (''ns'', ''web'') = Some (demo_service ''web'' demo_marks)"
proof -
  let ?s = "[demo_service ''db'' [], demo_service ''web'' demo_marks]"
  have "case create_route list_kube TCPRoute ''lx'' demo_route ?s of
      Ret (s, e) \<Rightarrow> e = Some ''unable to create service ns/db. it already exists'' \<and> listed_services s (''ns'', ''new'') \<noteq> None
    | _ \<Rightarrow> False" by code_simp
  then obtain s where s: "create_route list_kube TCPRoute ''lx'' demo_route ?s =
      Ret (s, Some ''unable to create service ns/db. it already exists'')" "listed_services s (''ns'', ''new'') \<noteq> None"
    by (auto split: go.splits)
  have route: "route_behaviour demo_route = ''create''" "rt_Name demo_route = ''rt''"
    by (simp_all add: demo_route_def route_behaviour_def map_str_def)
  have old: "listed_services ?s (''ns'', ''new'') = None" "listed_services ?s (''ns'', ''db'') = Some (demo_service ''db'' [])"
    "listed_services ?s (''ns'', ''web'') = Some (demo_service ''web'' demo_marks)"
    by (simp_all add: listed_services_def svc_key_def demo_service_def)
  have "\<not> created_by_route TCPRoute ''lx'' ''rt'' (demo_service ''db'' [])" "(''ns'', ''web'') \<notin> route_backends demo_route"
    by (simp_all add: demo_service_def created_by_route_def route_backends_def backend_key_def demo_route_def)
  then show ?thesis
    using route_changes_only_marked_backends[OF list_kube_reads list_kube_writes route(1) s(1)] s old unfolding route(2)
    by (metis option.inject)
qed

text \<open>
  Routes of the same name in two namespaces: the route \<open>other/rt\<close> names the service \<open>ns/web\<close> that the
  route \<open>ns/rt\<close> created, and changes it.
\<close>

lemma namesake_service_changed:
  "(let web = (demo_service ''web'' demo_marks)\<lparr>gs_LoadBalancerClass := Some ''lx''\<rparr>;
        rt = demo_route\<lparr>rt_Namespace := ''other'', rt_Rules := [[\<lparr>br_Namespace = Some ''ns'', br_Name = ''web'', br_Port = Some 81\<rparr>]]\<rparr>
    in case create_route list_kube TCPRoute ''lx'' rt [web] of
         Ret (s, None) \<Rightarrow> listed_services s (''ns'', ''web'') \<notin> {None, Some web}
       | _ \<Rightarrow> False)"
  by code_simp

theorem route_delete_exact_witness:
  "\<exists>s. route_reconcile list_kube (\<lambda>ns n. Inl ''not found'') TCPRoute ''lx'' (''ns'', ''rt'')
        [demo_service ''a'' [(''gateway-api-controller'', ''lx''), (''parent-tcp-route'', ''rt'')], demo_service ''db'' []] = Ret (s, None) \<and>
     listed_services s (''ns'', ''a'') = None \<and> listed_services s (''ns'', ''db'') = Some (demo_service ''db'' [])"
proof -
  let ?s = "[demo_service ''a'' [(''gateway-api-controller'', ''lx''), (''parent-tcp-route'', ''rt'')], demo_service ''db'' []]"
  let ?l = "\<lambda>ns n. Inl ''not found'' :: error + L4Route"
  have "case route_reconcile list_kube ?l TCPRoute ''lx'' (''ns'', ''rt'') ?s of Ret (s, e) \<Rightarrow> e = None | _ \<Rightarrow> False" by code_simp
  then obtain s where s: "route_reconcile list_kube ?l TCPRoute ''lx'' (''ns'', ''rt'') ?s = Ret (s, None)"
    by (auto split: go.splits)
  have found: "IsNotFound list_kube ''not found''" by (simp add: list_kube_def)
  note eff = route_delete_exact[OF list_kube_reads list_kube_writes _ found s, OF refl]
  have "listed_services s (''ns'', ''a'') = None" "listed_services s (''ns'', ''db'') = Some (demo_service ''db'' [])"
    unfolding eff by (simp_all add: demo_defs owned_by_route_def ann_def parent_route_def map_str_def)
  then show ?thesis using s by blast
qed

theorem gateway_retry_uses_freed_address_witness:
  "\<exists>g1 r. gateway_reconcile list_ipam list_kube ''lx'' ''lx'' demo_gateway
        \<lparr>gm_api = [], gm_pool = Some demo_pool, gm_cache = [((''ns'', ''gw''), demo_gateway)]\<rparr> =
      Ret (g1, Some ''unable to update gateway configuration'') \<and> gm_pool g1 = Some r \<and> set (IPAlloc r) = {}"
proof -
  let ?g = "\<lparr>gm_api = [], gm_pool = Some demo_pool, gm_cache = [((''ns'', ''gw''), demo_gateway)]\<rparr>"
  let ?ip = "v4InV6Prefix @ [10, 0, 0, 1]"
  have "fst (snd (GetNewIPAddr list_ipam demo_pool (GenKey ''ns'' ''gw'') 0 [])) = ?ip" by code_simp
  then obtain q ident where new: "GetNewIPAddr list_ipam demo_pool (GenKey ''ns'' ''gw'') 0 [] = (q, ?ip, ident)"
    by (metis prod.collapse)
  have str: "IP_String ?ip = ''10.0.0.1''" by code_simp
  have ok: "?ip \<noteq> []" "ParseIP (IP_String ?ip) \<noteq> []" "in_pool list_ipam demo_pool (ParseIP (IP_String ?ip))"
    unfolding str by (code_simp | simp add: in_pool_def, code_simp)+
  have gw: "gw_Namespace demo_gateway = ''ns''" "gw_Name demo_gateway = ''gw''" "gw_SpecAddresses demo_gateway = []"
    "gw_ClassName demo_gateway = ''lx''"
    by (simp_all add: demo_gateway_def)
  have acls: "\<forall>s. class_get list_kube s (gw_ClassName demo_gateway) = Inr \<lparr>gc_Name = ''lx'', gc_ControllerName = ''lx'', gc_Conditions = []\<rparr>"
    and upd: "gw_update list_kube (assign_address (IP_String ?ip) ident demo_gateway) (gm_api ?g) = ([], Inl ''conflict'')"
    by (simp_all add: list_kube_def gw)
  have "gm_pool ?g = Some demo_pool" "set (IPAlloc demo_pool) = {}" by (simp_all add: demo_pool_def)
  then show ?thesis
    using gateway_retry_uses_freed_address[OF list_ipam_contract demo_pool_wf _ _ gw(3) _ ok acls upd] new
    by (fastforce simp: gw)
qed

end
