(* ===== verification/Agent_Loop.thy ===== *)
theory Agent_Loop
  imports Agent_Options Egress_Manager Loxi_Url Lb_Invariant Gateway_Correct
begin

text \<open>
  The event loop of the agent (the goroutine of \<open>run\<close> in \<open>cmd/loxilb-agent/agent.go\<close>) with the loops
  it talks to: the life cycle of the load-balancer manager, the egress manager, the health checks of
  the clients and the LoxiURL manager.

  The channels have the capacities of the code. \<open>ag_pending\<close> is what the case of the \<open>select\<close>
  that was taken has still to do: the loop goes on with the first of these actions, and takes a new
  case when none is left. A send to a full channel is not enabled, and the loop waits. Of the two
  cases that read \<open>loxiLBDeadCh\<close> Go takes either.
\<close>

datatype msg = ToClientAlive LoxiClient | ToEgressAlive LoxiClient | ToClientDead | ToClientPurge LoxiClient
  | ToPurge LoxiClient | ToSelMaster

datatype act = Send msg | Discover | DropClients | DiscoverPeers | DropPeers | SelectRoles

record 'a Agent =
  ag_life :: "'a Life"
  ag_crdControlOn :: bool
  ag_live :: "LoxiClient list"
  ag_dead :: nat
  ag_purge :: "LoxiClient list"
  ag_egressAlive :: "LoxiClient list"
  ag_clientDead :: nat
  ag_clientPurge :: "LoxiClient list"
  ag_pending :: "act list"

abbreviation ag_mgr :: "'a Agent \<Rightarrow> 'a Manager" where
  "ag_mgr s \<equiv> lf_mgr (ag_life s)"

definition set_mgr :: "'a Manager \<Rightarrow> 'a Agent \<Rightarrow> 'a Agent" where
  "set_mgr m s = s\<lparr>ag_life := (ag_life s)\<lparr>lf_mgr := m\<rparr>\<rparr>"

text \<open>A send, \<open>None\<close> while the channel is full. \<open>ClientSelMasterCh\<close> has no buffer.\<close>

fun send_msg :: "msg \<Rightarrow> 'a Agent \<Rightarrow> 'a Agent option" where
  "send_msg (ToClientAlive c) s =
     (let l = ag_life s in if length (lf_alive l) < 50 then Some (s\<lparr>ag_life := l\<lparr>lf_alive := lf_alive l @ [c]\<rparr>\<rparr>) else None)"
| "send_msg (ToEgressAlive c) s =
     (if length (ag_egressAlive s) < 50 then Some (s\<lparr>ag_egressAlive := ag_egressAlive s @ [c]\<rparr>) else None)"
| "send_msg ToClientDead s = (if ag_clientDead s < 64 then Some (s\<lparr>ag_clientDead := ag_clientDead s + 1\<rparr>) else None)"
| "send_msg (ToClientPurge c) s =
     (if length (ag_clientPurge s) < 5 then Some (s\<lparr>ag_clientPurge := ag_clientPurge s @ [c]\<rparr>) else None)"
| "send_msg (ToPurge c) s = (if length (ag_purge s) < 5 then Some (s\<lparr>ag_purge := ag_purge s @ [c]\<rparr>) else None)"
| "send_msg ToSelMaster s = None"

text \<open>
  Discovery in the steps of the code: the clients are marked and the new ones appended, the marked
  ones are sent to the purge channel one by one, and then they are dropped.
\<close>

definition discover_marks :: "(string \<Rightarrow> error + LoxiClient) \<Rightarrow> string list \<Rightarrow> LoxiClient list \<Rightarrow> LoxiClient list" where
  "discover_marks mk ips cs = (let cs = map (mark_purge ips) cs in cs @ new_clients mk cs ips)"

fun do_act :: "'a lb_env \<Rightarrow> dial \<Rightarrow> string list \<Rightarrow> act \<Rightarrow> 'a Agent \<Rightarrow> 'a Agent option go" where
  "do_act env d excl (Send ms) s = Ret (send_msg ms s)"
| "do_act env d excl Discover s =
     (let m = ag_mgr s;
          cs = discover_marks (\<lambda>ip. discovered_client env d False (list_ex (\<lambda>n. n = ip) excl) ip)
                 (service_ips env ''loxilb-lb-service'' (zone_nodes env)) (LoxiClients m);
          s = set_mgr (m\<lparr>LoxiClients := cs\<rparr>) s
      in Ret (Some (s\<lparr>ag_pending := map (\<lambda>c. Send (ToPurge c)) (filter Purge cs) @ DropClients # ag_pending s\<rparr>)))"
| "do_act env d excl DropClients s =
     (let m = ag_mgr s in Ret (Some (set_mgr (m\<lparr>LoxiClients := filter (\<lambda>v. \<not> Purge v) (LoxiClients m)\<rparr>) s)))"
| "do_act env d excl DiscoverPeers s =
     (let m = ag_mgr s;
          cs = discover_marks (discovered_client env d True True) (service_ips env ''loxilb-peer-service'' []) (LoxiPeerClients m);
          s = set_mgr (m\<lparr>LoxiPeerClients := cs\<rparr>) s
      in Ret (Some (s\<lparr>ag_pending := map (\<lambda>c. Send (ToPurge c)) (filter Purge cs) @ DropPeers # ag_pending s\<rparr>)))"
| "do_act env d excl DropPeers s =
     (let m = ag_mgr s in Ret (Some (set_mgr (m\<lparr>LoxiPeerClients := filter (\<lambda>v. \<not> Purge v) (LoxiPeerClients m)\<rparr>) s)))"
| "do_act env d excl SelectRoles s =
     (let m = ag_mgr s; cfg = e_cfg env in
      go_map (\<lambda>(cs, selMaster, sig).
         let s = set_mgr (m\<lparr>LoxiClients := cs, ElectionRunOnce := ElectionRunOnce m \<or> selMaster\<rparr>) s
         in Some (if sig then s\<lparr>ag_pending := Send ToSelMaster # ag_pending s\<rparr> else s))
       (SelectLoxiLBRoles (zoneInstRoleMap m) (cfg_SetRoles cfg) (cfg_ExclIPAM cfg) True (LoxiClients m)))"

definition tick_acts :: "NetworkConfig \<Rightarrow> act list" where
  "tick_acts cfg =
     (if cfg_LoxilbURLs cfg = [] then [Discover] else []) @ [DiscoverPeers] @
     (if cfg_SetRoles cfg \<noteq> [] then [SelectRoles] else [])"

text \<open>The signals of a health check, as far as the channels have room.\<close>

definition deliver :: "LoxiClient \<Rightarrow> health_signal list \<Rightarrow> 'a Agent \<Rightarrow> 'a Agent" where
  "deliver c sigs s =
     s\<lparr>ag_live := ag_live s @ (if AliveSignal \<in> set sigs then [c] else []),
       ag_dead := ag_dead s + (if DeadSignal \<in> set sigs then 1 else 0)\<rparr>"

text \<open>
  The system: the loop of the agent takes a case or goes on with it, the life cycle takes an event,
  the egress manager takes an event (once its resource definition is installed, \<open>crd\<close>), a health check
  runs, an object of the LoxiURL manager is added or deleted, a worker handles the event of a service,
  the rules are compared with the services, the gateway manager handles an object, or another manager
  sends requests to the instances. The gateway manager works on the pool \<open>gp\<close>, one of those of the
  load-balancer manager, which \<open>run\<close> picks when gateways are enabled; \<open>gk\<close> is the API server it writes to.
  The cluster changes at any time: each step that reads it finds some \<open>k\<close>, and the gateway manager any
  queue, lister and state of the API server. The managers of routes and gateway classes only write to
  the API server.
\<close>

abbreviation at_cluster :: "'a lb_env \<Rightarrow> kube \<Rightarrow> 'a lb_env" where
  "at_cluster env k \<equiv> env\<lparr>e_kube := k\<rparr>"

inductive agent_step ::
  "'a lb_env \<Rightarrow> dial \<Rightarrow> string list \<Rightarrow> bool \<Rightarrow> 's kube_api \<Rightarrow> nat option \<Rightarrow> 'a Agent \<Rightarrow> 'a Agent \<Rightarrow> bool"
  for env d excl crd gk gp where
  action: "ag_pending s = a # rest \<Longrightarrow> do_act (at_cluster env k) d excl a (s\<lparr>ag_pending := rest\<rparr>) = Ret (Some s') \<Longrightarrow>
    agent_step env d excl crd gk gp s s'"
| dead_roles: "ag_pending s = [] \<Longrightarrow> ag_dead s = Suc n \<Longrightarrow>
    agent_step env d excl crd gk gp s
      (s\<lparr>ag_dead := n, ag_pending := (if cfg_SetRoles (e_cfg env) \<noteq> [] then [SelectRoles] else [])\<rparr>)"
| dead_forward: "ag_pending s = [] \<Longrightarrow> ag_dead s = Suc n \<Longrightarrow>
    agent_step env d excl crd gk gp s (s\<lparr>ag_dead := n, ag_pending := [Send ToClientDead]\<rparr>)"
| alive: "ag_pending s = [] \<Longrightarrow> ag_live s = c # cs \<Longrightarrow>
    agent_step env d excl crd gk gp s (s\<lparr>ag_live := cs, ag_pending := [Send (ToClientAlive c), Send (ToEgressAlive c)]\<rparr>)"
| purged: "ag_pending s = [] \<Longrightarrow> ag_purge s = c # cs \<Longrightarrow>
    agent_step env d excl crd gk gp s (s\<lparr>ag_purge := cs, ag_pending := [Send (ToClientPurge c)]\<rparr>)"
| tick: "ag_pending s = [] \<Longrightarrow> agent_step env d excl crd gk gp s (s\<lparr>ag_pending := tick_acts (e_cfg env)\<rparr>)"
| life_alive: "lf_alive (ag_life s) = c # cs \<Longrightarrow>
    life_step (at_cluster env k) (ClientAlive c) ((ag_life s)\<lparr>lf_alive := cs\<rparr>) = Ret l \<Longrightarrow>
    agent_step env d excl crd gk gp s (s\<lparr>ag_life := l\<rparr>)"
| life_purge: "ag_clientPurge s = c # cs \<Longrightarrow> life_step (at_cluster env k) (ClientPurge c) (ag_life s) = Ret l \<Longrightarrow>
    agent_step env d excl crd gk gp s (s\<lparr>ag_life := l, ag_clientPurge := cs\<rparr>)"
| life_inst: "life_step (at_cluster env k) InstAddrApply (ag_life s) = Ret l \<Longrightarrow>
    agent_step env d excl crd gk gp s (s\<lparr>ag_life := l\<rparr>)"
| sel_master: "ag_pending s = Send ToSelMaster # rest \<Longrightarrow>
    life_step (at_cluster env k) ClientSelMaster (ag_life s) = Ret l \<Longrightarrow>
    agent_step env d excl crd gk gp s (s\<lparr>ag_life := l, ag_pending := rest\<rparr>)"
| egress: "crd \<Longrightarrow> ag_egressAlive s = c # cs \<Longrightarrow>
    agent_step env d excl crd gk gp s
      (set_mgr (egress_alive everything (at_cluster env k) (ag_mgr s)) s\<lparr>ag_egressAlive := cs\<rparr>)"
| health: "i < length (LoxiClients (ag_mgr s)) \<Longrightarrow> health_tick now err (LoxiClients (ag_mgr s) ! i) = (c, sigs) \<Longrightarrow>
    s' = deliver c sigs (set_mgr ((ag_mgr s)\<lparr>LoxiClients := (LoxiClients (ag_mgr s))[i := c]\<rparr>) s) \<Longrightarrow>
    length (ag_live s') \<le> 50 \<Longrightarrow> ag_dead s' \<le> 64 \<Longrightarrow> agent_step env d excl crd gk gp s s'"
| url: "syncLBURLs known (at_cluster env k) d u
      \<lparr>um_lb = ag_mgr s, crdControlOn = ag_crdControlOn s, um_purgeCh = [], um_applyCh = []\<rparr> = Ret (um, err) \<Longrightarrow>
    length (ag_purge s @ um_purgeCh um) \<le> 5 \<Longrightarrow>
    agent_step env d excl crd gk gp s
      (set_mgr (um_lb um) s\<lparr>ag_crdControlOn := crdControlOn um, ag_purge := ag_purge s @ um_purgeCh um\<rparr>)"
| service: "syncLoadBalancer (at_cluster env k) ns name (ag_mgr s) = Ret (m, err) \<Longrightarrow>
    agent_step env d excl crd gk gp s (set_mgr m s)"
| compare: "compareLoxiLBToK8sService (at_cluster env k) listing (ag_mgr s) = (m, err) \<Longrightarrow>
    agent_step env d excl crd gk gp s (set_mgr m s)"
| gateway: "gp = Some p \<Longrightarrow> p < length (poolStore (ag_mgr s)) \<Longrightarrow>
    gateway_processNextWorkItem (e_tk env) gk (cfg_LoxilbGatewayClass (e_cfg env)) (cfg_LoxilbLoadBalancerClass (e_cfg env))
      (queue, \<lparr>gm_api = cluster, gm_pool = Some (poolStore (ag_mgr s) ! p), gm_cache = lister\<rparr>) = Ret (queue', g) \<Longrightarrow>
    gm_pool g = Some q \<Longrightarrow>
    agent_step env d excl crd gk gp s (set_mgr ((ag_mgr s)\<lparr>poolStore := (poolStore (ag_mgr s))[p := q]\<rparr>) s)"
| requests: "extends_log (ag_mgr s) m \<Longrightarrow> agent_step env d excl crd gk gp s (set_mgr m s)"

inductive_cases agent_stepE: "agent_step env d excl crd gk gp s s'"

definition agent_start :: "'a Manager \<Rightarrow> 'a Agent" where
  "agent_start m = \<lparr>ag_life = \<lparr>lf_mgr = m, lf_flags = [], lf_alive = []\<rparr>, ag_crdControlOn = False, ag_live = [],
     ag_dead = 0, ag_purge = [], ag_egressAlive = [], ag_clientDead = 0, ag_clientPurge = [], ag_pending = []\<rparr>"

lemma discover_marks_filter:
  "(filter (\<lambda>v. \<not> Purge v) (discover_marks mk ips cs), filter Purge (discover_marks mk ips cs)) = discover mk ips cs"
  by (simp add: discover_marks_def discover_def Let_def)

subsection \<open>The fleet\<close>

text \<open>The clients and the table of the instances, which is all that elections look at.\<close>

abbreviation same_fleet :: "'a Manager \<Rightarrow> 'a Manager \<Rightarrow> bool" where
  "same_fleet m m' \<equiv> LoxiClients m' = LoxiClients m \<and> zoneInstRoleMap m' = zoneInstRoleMap m"

text \<open>The rules, the pools and their tables, which is all that \<open>wf_manager\<close> looks at.\<close>

abbreviation same_store :: "'a Manager \<Rightarrow> 'a Manager \<Rightarrow> bool" where
  "same_store m m' \<equiv> lbCache m' = lbCache m \<and> poolStore m' = poolStore m \<and> ipPoolTbl m' = ipPoolTbl m \<and> ip6PoolTbl m' = ip6PoolTbl m"

lemma wf_same_store: "same_store m m' \<Longrightarrow> wf_manager m \<Longrightarrow> wf_manager m'"
  by (simp add: wf_manager_def wf_pools_def wf_entry_def)

lemma extends_log_fleet: "extends_log m m' \<Longrightarrow> same_fleet m m'"
  by (auto simp: extends_log_def)

lemma extends_log_store: "extends_log m m' \<Longrightarrow> same_store m m'"
  by (auto simp: extends_log_def)

lemma extends_log_wf: "extends_log m m' \<Longrightarrow> wf_manager m \<Longrightarrow> wf_manager m'"
  by (rule wf_same_store[OF extends_log_store])

lemma extends_log_fold: "(\<And>x m. extends_log m (f x m)) \<Longrightarrow> extends_log m (fold f xs m)"
proof (induction xs arbitrary: m)
  case (Cons x xs)
  then show ?case using extends_log_trans[of m "f x m" "fold f xs (f x m)"] by simp
qed simp

lemma api_send_log: "api_send env c call m = (m', r) \<Longrightarrow> extends_log m m'"
  by (auto simp: api_send_def extends_log_def)

lemma send_retry_log: "extends_log m (send_retry env n c call m)"
proof (induction n arbitrary: m)
  case (Suc n)
  obtain m1 r where "api_send env c call m = (m1, r)" by (cases "api_send env c call m")
  then show ?case using api_send_log[of env c call m m1 r] Suc.IH[of m1] by (cases r) (auto intro: extends_log_trans)
qed simp

lemma report_roles_log: "extends_log m (report_roles env c m)"
  unfolding report_roles_def by (rule extends_log_fold) (rule send_retry_log)

lemma sel_master_log: "extends_log m (sel_master_event env m)"
  unfolding sel_master_event_def by (rule extends_log_fold) (rule report_roles_log)

lemma purge_event_log: "extends_log m (purge_event env c m)"
proof -
  have "extends_log m (fst (api_send env x call m))" for x call m by (auto simp: api_send_def extends_log_def)
  then show ?thesis unfolding purge_event_def by (auto intro: extends_log_fold)
qed

lemma bgp_send_log: "extends_log (lf_mgr l) (lf_mgr (bgp_send env c call l))"
  by (auto simp: bgp_send_def api_send_def checkHandleBGPCfgErrors_def extends_log_def split: option.splits)

abbreviation life_log :: "'a Life \<Rightarrow> 'a Life \<Rightarrow> bool" where
  "life_log l l' \<equiv> extends_log (lf_mgr l) (lf_mgr l')"

lemma life_log_fold: "(\<And>x l. life_log l (f x l)) \<Longrightarrow> life_log l (fold f xs l)"
proof (induction xs arbitrary: l)
  case (Cons x xs)
  then show ?case using extends_log_trans[of "lf_mgr l" "lf_mgr (f x l)" "lf_mgr (fold f xs (f x l))"] by simp
qed simp

lemma life_log_go_fold: "(\<And>x l l'. f x l = Ret l' \<Longrightarrow> life_log l l') \<Longrightarrow> go_fold f xs l = Ret l' \<Longrightarrow> life_log l l'"
proof (induction xs arbitrary: l)
  case (Cons x xs)
  from Cons.prems(2) obtain l1 where l1: "f x l = Ret l1" "go_fold f xs l1 = Ret l'"
    by (cases "f x l") auto
  show ?case using extends_log_trans[OF Cons.prems(1)[OF l1(1)] Cons.IH[OF Cons.prems(1) l1(2)]] .
qed simp

lemma bgp_mesh_log: "life_log l (bgp_mesh env c l)"
  unfolding bgp_mesh_def Let_def
  by (rule extends_log_trans[OF bgp_send_log life_log_fold]) (rule extends_log_trans[OF bgp_send_log bgp_send_log])

lemma bgp_event_log: "bgp_event env c l = Ret l' \<Longrightarrow> life_log l l'"
proof -
  assume r: "bgp_event env c l = Ret l'"
  have ext: "life_log l1 l2" if "bgp_external env c l1 = Ret l2" for l1 l2
    using that unfolding bgp_external_def
    by (rule life_log_go_fold[rotated])
       (auto simp: go_map_def split: go.splits option.splits intro: bgp_send_log)
  show ?thesis
    using r bgp_mesh_log[of l env c] ext[of "bgp_mesh env c l" l']
    by (auto simp: bgp_event_def Let_def split: if_splits intro: extends_log_trans)
qed

lemma try_install_log: "extends_log m (fst (try_install env n c lb pl m))"
proof (induction n arbitrary: m)
  case (Suc n)
  obtain m1 r where i: "installLB env c lb pl m = (m1, r)" by (cases "installLB env c lb pl m")
  then have "extends_log m m1" by (auto simp: installs.step_law extends_log_def)
  then show ?case using i Suc.IH[of m1] by (cases r) (auto intro: extends_log_trans)
qed simp

lemma reinstall_loop_log: "reinstall_loop env c rs ok m = Ret m' \<Longrightarrow> extends_log m m'"
proof (induction rs arbitrary: ok m)
  case (Cons r rs)
  obtain lb pl where r: "r = (lb, pl)" by (cases r)
  obtain m1 ok1 where t: "try_install env 5 c lb pl m = (m1, ok1)" by (cases "try_install env 5 c lb pl m")
  have "reinstall_loop env c rs (ok \<or> ok1) m1 = Ret m'" using Cons.prems t by (auto simp: r Let_def split: if_splits)
  then show ?case using Cons.IH try_install_log[of m env 5 c lb pl] t by (auto intro: extends_log_trans)
qed simp

text \<open>The roles in an alive event: the clients stay, or an election over the table gives them.\<close>

lemma alive_roles_fleet:
  assumes "alive_roles env c m = Ret m'"
  shows "same_store m m' \<and> zoneInstRoleMap m' = zoneInstRoleMap m \<and> (LoxiClients m' = LoxiClients m \<or>
    (\<exists>sel sig. SelectLoxiLBRoles (zoneInstRoleMap m) (cfg_SetRoles (e_cfg env)) (cfg_ExclIPAM (e_cfg env)) False
       (LoxiClients m) = Ret (LoxiClients m', sel, sig)))"
proof -
  have rep: "same_fleet n (report_roles env x n)" "same_store n (report_roles env x n)" for x n
    using extends_log_fleet[OF report_roles_log] extends_log_store[OF report_roles_log] by blast+
  show ?thesis
  proof (cases "cfg_SetRoles (e_cfg env) \<noteq> [] \<and> \<not> PeeringOnly c \<and> \<not> ElectionRunOnce m")
    case True
    then obtain cs sel sig where sel: "SelectLoxiLBRoles (zoneInstRoleMap m) (cfg_SetRoles (e_cfg env)) (cfg_ExclIPAM (e_cfg env)) False
        (LoxiClients m) = Ret (cs, sel, sig)"
      using assms by (auto simp: alive_roles_def Let_def go_map_def split: go.splits)
    define n where "n = m\<lparr>LoxiClients := cs, ElectionRunOnce := sel\<rparr>"
    have "m' = report_roles env (current n c) n"
      using True assms sel by (simp add: alive_roles_def Let_def go_map_def n_def)
    then show ?thesis using rep[of "current n c" n] sel by (simp add: n_def)
  next
    case False
    then have "m' = m \<or> m' = report_roles env (current m c) m"
      using assms by (auto simp: alive_roles_def Let_def go_map_def split: if_splits)
    then show ?thesis using rep by auto
  qed
qed

lemma alive_event_log:
  assumes "alive_event env c l = Ret l'"
  shows "\<exists>m. alive_roles env c (lf_mgr l) = Ret m \<and> extends_log m (lf_mgr l')"
proof -
  let ?l = "l\<lparr>lf_flags := removeAll (cl_Url c) (lf_flags l)\<rparr>"
  obtain m where m: "alive_roles env c (lf_mgr l) = Ret m"
    using assms by (auto simp: alive_event_def go_bind_def split: go.splits)
  obtain l1 where l1: "bgp_event env c (?l\<lparr>lf_mgr := m\<rparr>) = Ret l1"
    using assms m by (auto simp: alive_event_def go_bind_def split: go.splits)
  have "extends_log (lf_mgr l1) (lf_mgr l')"
    using assms m l1 by (auto simp: alive_event_def go_bind_def go_map_def reinstall_def
        split: if_splits go.splits dest!: reinstall_loop_log)
  then show ?thesis using m extends_log_trans[OF bgp_event_log[OF l1]] by auto
qed

lemma life_step_frame:
  assumes "life_step env ev l = Ret l'"
  shows "same_fleet (lf_mgr l) (lf_mgr l') \<and> same_store (lf_mgr l) (lf_mgr l') \<or>
    (\<exists>c m. ev = ClientAlive c \<and> alive_roles env c (lf_mgr l) = Ret m \<and> extends_log m (lf_mgr l'))"
proof (cases ev)
  case InstAddrApply
  have "same_fleet m (status_update env m svc) \<and> same_store m (status_update env m svc)" for m svc by (simp add: status_update_def)
  then have svcs: "same_fleet m (fold (\<lambda>svc m. status_update env m svc) svcs m) \<and>
      same_store m (fold (\<lambda>svc m. status_update env m svc) svcs m)" for svcs m
    by (induction svcs arbitrary: m) auto
  have "let m' = fold (\<lambda>ns m. case list_services (e_kube env) ns of Inl _ \<Rightarrow> m
      | Inr svcs \<Rightarrow> fold (\<lambda>svc m. status_update env m svc) svcs m) nss m in same_fleet m m' \<and> same_store m m'" for nss m
    by (induction nss arbitrary: m) (auto simp: svcs Let_def split: sum.split)
  then show ?thesis using assms InstAddrApply by (auto simp: updateAllLoxiLBServiceStatus_def Let_def split: sum.splits)
next
  case ClientSelMaster
  then show ?thesis
    using assms extends_log_fleet[OF sel_master_log[of "lf_mgr l" env]] extends_log_store[OF sel_master_log[of "lf_mgr l" env]] by auto
next
  case (ClientPurge c)
  then show ?thesis
    using assms extends_log_fleet[OF purge_event_log[of "lf_mgr l" env c]] extends_log_store[OF purge_event_log[of "lf_mgr l" env c]] by auto
next
  case (ClientAlive c)
  then show ?thesis using assms alive_event_log[of env c l l'] by auto
qed

lemma life_step_wf: "life_step env ev l = Ret l' \<Longrightarrow> wf_manager (lf_mgr l) \<Longrightarrow> wf_manager (lf_mgr l')"
  using life_step_frame[of env ev l l'] alive_roles_fleet wf_same_store extends_log_wf by metis

subsection \<open>The clients under the steps\<close>

text \<open>Each change of the clients is one of the role machine.\<close>

lemma reach_appends:
  assumes "role_reach tk zone num cs"
    and "\<forall>c\<in>set new. \<exists>up ce now u po nr nm. NewLoxiClient tk up ce now u po nr nm zone num = Inr c"
  shows "role_reach tk zone num (cs @ new)"
  using assms
proof (induction new arbitrary: cs)
  case (Cons c new)
  then obtain up ce now u po nr nm where "NewLoxiClient tk up ce now u po nr nm zone num = Inr c" by auto
  from role_reach.join[OF Cons.prems(1) this] Cons.IH[of "cs @ [c]"] Cons.prems(2) show ?case
    by (simp add: AddLoxiClient_def)
qed simp

lemma reach_marks:
  assumes "role_reach (e_tk env) (cfg_Zone (e_cfg env)) (cfg_NumZoneInst (e_cfg env)) cs"
  shows "role_reach (e_tk env) (cfg_Zone (e_cfg env)) (cfg_NumZoneInst (e_cfg env))
    (discover_marks (\<lambda>ip. discovered_client env d po (nr ip) ip) ips cs)"
proof -
  have "mark_purge ips = (\<lambda>c. c\<lparr>Purge := \<not> list_ex (\<lambda>ip. Host c = ip) ips\<rparr>)"
    by (rule ext) (simp add: mark_purge_def)
  then have "role_reach (e_tk env) (cfg_Zone (e_cfg env)) (cfg_NumZoneInst (e_cfg env)) (map (mark_purge ips) cs)"
    by (simp only: role_reach.mark[OF assms])
  then show ?thesis
    unfolding discover_marks_def Let_def
    by (rule reach_appends) (auto simp: new_clients_set discovered_client_def, blast)
qed

lemma reach_made:
  assumes "role_reach (e_tk env) (cfg_Zone (e_cfg env)) (cfg_NumZoneInst (e_cfg env)) cs"
  shows "role_reach (e_tk env) (cfg_Zone (e_cfg env)) (cfg_NumZoneInst (e_cfg env))
    (cs @ made_clients (\<lambda>(u, n). url_client env d n u) ps)"
  using assms
proof (rule reach_appends)
  show "\<forall>c\<in>set (made_clients (\<lambda>(u, n). url_client env d n u) ps). \<exists>up ce now u po nr nm.
      NewLoxiClient (e_tk env) up ce now u po nr nm (cfg_Zone (e_cfg env)) (cfg_NumZoneInst (e_cfg env)) = Inr c"
    by (fastforce simp: made_clients_def map_filter_def url_client_def split: sum.splits)
qed

definition fleet_ok :: "'a lb_env \<Rightarrow> 'a Manager \<Rightarrow> bool" where
  "fleet_ok env m \<longleftrightarrow>
     role_reach (e_tk env) (cfg_Zone (e_cfg env)) (cfg_NumZoneInst (e_cfg env)) (LoxiClients m) \<and>
     mset (zoneInstRoleMap m) = mset (zone_inst_map (cfg_Zone (e_cfg env)) (cfg_NumZoneInst (e_cfg env)))"

lemma fleet_ok_cluster [simp]: "fleet_ok (at_cluster env k) m = fleet_ok env m"
  by (simp add: fleet_ok_def)

lemma fleet_ok_same: "fleet_ok env m \<Longrightarrow> same_fleet m m' \<Longrightarrow> fleet_ok env m'"
  by (simp add: fleet_ok_def)

lemma fleet_ok_filter: "fleet_ok env m \<Longrightarrow> fleet_ok env (m\<lparr>LoxiClients := filter P (LoxiClients m)\<rparr>)"
  by (simp add: fleet_ok_def role_reach.purge)

lemma fleet_ok_elect:
  "fleet_ok env m \<Longrightarrow> SelectLoxiLBRoles (zoneInstRoleMap m) r x send (LoxiClients m) = Ret (cs, sel, sig) \<Longrightarrow>
   fleet_ok env (m\<lparr>LoxiClients := cs, ElectionRunOnce := b\<rparr>)"
  unfolding fleet_ok_def using role_reach.elect by fastforce

lemma fleet_ok_made:
  "fleet_ok env m \<Longrightarrow>
   fleet_ok env (m\<lparr>LoxiClients := LoxiClients m @ made_clients (\<lambda>(u, n). url_client env d n u) ps\<rparr>)"
  by (simp add: fleet_ok_def reach_made)

lemma fleet_ok_delete_all: "fleet_ok env (um_lb s) \<Longrightarrow> fleet_ok env (um_lb (deleteAllLoxiClients s))"
  by (simp add: fleet_ok_def deleteAllLoxiClients_def role_reach.start)

lemma fleet_ok_delete_name: "fleet_ok env (um_lb s) \<Longrightarrow> fleet_ok env (um_lb (deleteSingleLoxiClientsWithName n s))"
  by (simp add: deleteSingleLoxiClientsWithName_def Let_def fleet_ok_filter)

lemma url_guards_fleet:
  assumes "url_guards env u pool inst s = Inl (s', e)"
    and "\<And>m. same_fleet m (fst (pool m))" and "\<And>ip m. same_fleet m (fst (inst ip m))"
  shows "same_fleet (um_lb s) (um_lb s')"
  using assms(1) assms(2)[of "um_lb s"] assms(3)[where m = "um_lb s" and ip = "ParseIP (lu_LoxiURL u)"]
  by (auto simp: url_guards_def Let_def split: if_splits prod.splits)

lemma pool_fleet:
  "same_fleet m (fst (AddLoxiCIDRPool env n cidr m))" "same_fleet m (fst (DeleteLoxiCIDRPool env n cidr m))"
  "same_fleet m (fst (AddLoxiInstAddr n ip m))" "same_fleet m (fst (DeleteLoxiInstAddr n m))"
  by (auto simp: AddLoxiCIDRPool_def DeleteLoxiCIDRPool_def AddLoxiInstAddr_def DeleteLoxiInstAddr_def Let_def
      split: sum.splits option.splits)

lemma add_url_fleet:
  assumes "fleet_ok env (um_lb s)"
  shows "fleet_ok env (um_lb (fst (addLoxiLBURL env d u s)))"
proof (cases "url_guards env u (AddLoxiCIDRPool env (lu_Name u) (lu_LoxiURL u)) (AddLoxiInstAddr (lu_Name u)) s")
  case (Inl r)
  obtain s' e where r: "r = (s', e)" by (cases r)
  have "same_fleet (um_lb s) (um_lb s')"
    by (rule url_guards_fleet[OF Inl[unfolded r]]) (simp_all add: pool_fleet)
  then show ?thesis using fleet_ok_same[OF assms] Inl r by (simp add: addLoxiLBURL_def)
next
  case (Inr x)
  define s1 where "s1 = (if \<not> crdControlOn s then (deleteAllLoxiClients s)\<lparr>crdControlOn := True\<rparr> else s)"
  have s1: "fleet_ok env (um_lb s1)" using assms fleet_ok_delete_all by (auto simp: s1_def)
  then show ?thesis
    using fleet_ok_made[OF fleet_ok_delete_name[OF s1]]
    by (auto simp: addLoxiLBURL_def Inr s1_def[symmetric] Let_def split: option.split)
qed

lemma delete_url_fleet:
  assumes "fleet_ok env (um_lb s)"
  shows "fleet_ok env (um_lb (fst (deleteLoxiLBURL env d u s)))"
proof (cases "url_guards env u (DeleteLoxiCIDRPool env (lu_Name u) (lu_LoxiURL u)) (\<lambda>_. DeleteLoxiInstAddr (lu_Name u)) s")
  case (Inl r)
  obtain s' e where r: "r = (s', e)" by (cases r)
  have "same_fleet (um_lb s) (um_lb s')"
    by (rule url_guards_fleet[OF Inl[unfolded r]]) (simp_all add: pool_fleet)
  then show ?thesis using fleet_ok_same[OF assms] Inl r by (simp add: deleteLoxiLBURL_def)
next
  case (Inr x)
  then show ?thesis
    using fleet_ok_made[OF fleet_ok_delete_all[OF assms]] assms
    by (auto simp: deleteLoxiLBURL_def Let_def split: option.split)
qed

lemma egress_alive_log: "extends_log m (egress_alive everything env m)"
  unfolding egress_alive_def by (cases everything) (auto intro!: extends_log_fold addEgress_extends)

lemma set_mgr_fields [simp]:
  "ag_mgr (set_mgr m s) = m" "ag_pending (set_mgr m s) = ag_pending s" "ag_purge (set_mgr m s) = ag_purge s"
  by (simp_all add: set_mgr_def)

lemma send_msg_mgr: "send_msg ms s = Some s' \<Longrightarrow> ag_mgr s' = ag_mgr s"
  by (cases ms) (auto simp: Let_def split: if_splits)

lemma do_act_fleet:
  assumes "do_act env d excl a s = Ret (Some s')" and "fleet_ok env (ag_mgr s)"
  shows "fleet_ok env (ag_mgr s')"
proof (cases a)
  case (Send ms)
  then show ?thesis using assms send_msg_mgr[of ms s s'] by simp
next
  case SelectRoles
  let ?m = "ag_mgr s"
  obtain cs sel sig where e: "SelectLoxiLBRoles (zoneInstRoleMap ?m) (cfg_SetRoles (e_cfg env)) (cfg_ExclIPAM (e_cfg env)) True
      (LoxiClients ?m) = Ret (cs, sel, sig)"
    using assms(1) SelectRoles by (auto simp: Let_def go_map_def split: go.splits)
  then show ?thesis
    using fleet_ok_elect[OF assms(2) e] assms(1) SelectRoles by (auto simp: Let_def go_map_def)
qed (use assms in \<open>auto simp: Let_def fleet_ok_filter fleet_ok_def reach_marks role_reach.purge\<close>)

lemma life_step_fleet:
  assumes "life_step (at_cluster env k) ev l = Ret l'" and "fleet_ok env (lf_mgr l)"
  shows "fleet_ok env (lf_mgr l')"
  using life_step_frame[OF assms(1)]
proof
  assume "\<exists>c m. ev = ClientAlive c \<and> alive_roles (at_cluster env k) c (lf_mgr l) = Ret m \<and> extends_log m (lf_mgr l')"
  then obtain c m where m: "alive_roles (at_cluster env k) c (lf_mgr l) = Ret m" "extends_log m (lf_mgr l')" by blast
  then show ?thesis
    using alive_roles_fleet[OF m(1)] extends_log_fleet[OF m(2)] assms(2) fleet_ok_elect[OF assms(2), of _ _ _ "LoxiClients m"]
    by (auto simp: fleet_ok_def)
qed (use assms(2) in \<open>auto intro: fleet_ok_same\<close>)

lemma delete_stale_log: "delete_stale env c ls m = (m', err) \<Longrightarrow> extends_log m m'"
proof (induction ls arbitrary: m)
  case (Cons l ls)
  obtain m1 r where m1: "api_send env c (LbDelete l) m = (m1, r)" by (cases "api_send env c (LbDelete l) m")
  have "extends_log m m1" by (rule api_send_log[OF m1])
  then show ?case using Cons m1 by (auto split: if_splits option.splits intro: extends_log_trans)
qed simp

lemma compare_log: "compare_clients env listing cs m = (m', err) \<Longrightarrow> extends_log m m'"
proof (induction cs arbitrary: m)
  case (Cons c cs)
  obtain ls e where l: "listing c = (ls, e)" by (cases "listing c")
  obtain m1 r where m1: "delete_stale env c ls m = (m1, r)" by (cases "delete_stale env c ls m")
  have "extends_log m m1" by (rule delete_stale_log[OF m1])
  then show ?case using Cons l m1 by (auto split: option.splits intro: extends_log_trans)
qed simp

lemma steady_fleet: "steady m m' \<Longrightarrow> same_fleet m m'"
  by (simp add: steady_def)

lemma agent_step_fleet:
  assumes "agent_step env d excl crd gk gp s s'" and "fleet_ok env (ag_mgr s)" and "wf_manager (ag_mgr s)"
  shows "fleet_ok env (ag_mgr s')"
  using assms
proof (induction rule: agent_step.induct)
  case (action s a rest k s')
  then show ?case using do_act_fleet[of "at_cluster env k" d excl a "s\<lparr>ag_pending := rest\<rparr>" s'] by simp
next
  case (life_alive s c cs k l)
  then show ?case using life_step_fleet[OF life_alive.hyps(2)] by simp
next
  case (life_purge s c cs k l)
  then show ?case using life_step_fleet[OF life_purge.hyps(2)] by simp
next
  case (life_inst k s l)
  then show ?case using life_step_fleet[OF life_inst.hyps(1)] by simp
next
  case (sel_master s rest k l)
  then show ?case using life_step_fleet[OF sel_master.hyps(2)] by simp
next
  case (egress s c cs everything k)
  then show ?case
    using fleet_ok_same[OF _ extends_log_fleet[OF egress_alive_log[of "ag_mgr s" everything "at_cluster env k"]]] by (simp add: set_mgr_def)
next
  case (health i s now err c sigs s')
  then have "c = fst (health_tick now err (LoxiClients (ag_mgr s) ! i))" by simp
  then show ?case
    using health.hyps(1,3) health.prems role_reach.health[of "e_tk env" _ _ "LoxiClients (ag_mgr s)" i now err]
    by (simp add: fleet_ok_def deliver_def set_mgr_def)
next
  case (url known k u s um err)
  let ?s = "\<lparr>um_lb = ag_mgr s, crdControlOn = ag_crdControlOn s, um_purgeCh = [], um_applyCh = []\<rparr>"
  have "fleet_ok (at_cluster env k) (um_lb ?s)" using url.prems by simp
  from add_url_fleet[OF this, of d u] delete_url_fleet[OF this, of d u] url.hyps(1)
  have "fleet_ok env (um_lb um)" by (auto simp: syncLBURLs_def split: if_splits)
  then show ?case by (simp add: set_mgr_def)
next
  case (service k ns name s m err)
  then show ?case using fleet_ok_same[OF _ steady_fleet[OF syncLoadBalancer_steady[OF service.hyps(1)]]] by simp
next
  case (compare k listing s m err)
  then show ?case using fleet_ok_same[OF _ extends_log_fleet[OF compare_log]] by (simp add: compareLoxiLBToK8sService_def)
next
  case (gateway p s queue cluster lister queue' g q)
  then show ?case by (simp add: fleet_ok_def)
next
  case (requests s m)
  then show ?case using fleet_ok_same[OF _ extends_log_fleet[OF requests.hyps(1)]] by simp
qed (simp_all add: fleet_ok_def)

subsection \<open>The store under the steps\<close>

lemma pool_wf:
  assumes "wf_manager m"
  shows "wf_manager (fst (AddLoxiInstAddr n ip m))" "wf_manager (fst (DeleteLoxiInstAddr n m))"
proof -
  have "same_store m (fst (AddLoxiInstAddr n ip m))" "same_store m (fst (DeleteLoxiInstAddr n m))"
    by (auto simp: AddLoxiInstAddr_def DeleteLoxiInstAddr_def split: option.splits)
  then show "wf_manager (fst (AddLoxiInstAddr n ip m))" "wf_manager (fst (DeleteLoxiInstAddr n m))"
    using assms wf_same_store by blast+
qed

lemma url_guards_wf:
  assumes "url_guards env u pool inst s = Inl (s', e)" and "wf_manager (um_lb s)"
    and "wf_manager (fst (pool (um_lb s)))" and "\<And>ip. wf_manager (fst (inst ip (um_lb s)))"
  shows "wf_manager (um_lb s')"
  using assms(1-3) assms(4)[of "ParseIP (lu_LoxiURL u)"]
  by (auto simp: url_guards_def Let_def split: if_splits prod.splits)

lemma wf_clients [simp]:
  "wf_manager (m\<lparr>LoxiClients := cs\<rparr>) = wf_manager m" "wf_manager (m\<lparr>LoxiPeerClients := cs\<rparr>) = wf_manager m"
  "wf_manager (m\<lparr>LoxiClients := cs, ElectionRunOnce := b\<rparr>) = wf_manager m"
  by (simp_all add: wf_manager_def wf_pools_def wf_entry_def)

lemma delete_clients_wf [simp]:
  "wf_manager (um_lb (deleteAllLoxiClients s)) = wf_manager (um_lb s)"
  "wf_manager (um_lb (deleteSingleLoxiClientsWithName n s)) = wf_manager (um_lb s)"
  by (simp_all add: deleteAllLoxiClients_def deleteSingleLoxiClientsWithName_def Let_def)

lemma add_url_wf:
  assumes "wf_manager (um_lb s)"
  shows "wf_manager (um_lb (fst (addLoxiLBURL env d u s)))"
proof (cases "url_guards env u (AddLoxiCIDRPool env (lu_Name u) (lu_LoxiURL u)) (AddLoxiInstAddr (lu_Name u)) s")
  case (Inl r)
  then show ?thesis
    using url_guards_wf[of env u _ _ s "fst r" "snd r"] assms by (simp add: addLoxiLBURL_def AddLoxiCIDRPool_wf pool_wf)
qed (use assms in \<open>auto simp: addLoxiLBURL_def Let_def split: option.split\<close>)

lemma delete_url_wf:
  assumes "wf_manager (um_lb s)"
  shows "wf_manager (um_lb (fst (deleteLoxiLBURL env d u s)))"
proof (cases "url_guards env u (DeleteLoxiCIDRPool env (lu_Name u) (lu_LoxiURL u)) (\<lambda>_. DeleteLoxiInstAddr (lu_Name u)) s")
  case (Inl r)
  then show ?thesis
    using url_guards_wf[of env u _ _ s "fst r" "snd r"] assms by (simp add: deleteLoxiLBURL_def DeleteLoxiCIDRPool_wf pool_wf)
qed (use assms in \<open>auto simp: deleteLoxiLBURL_def Let_def split: option.split\<close>)

lemma do_act_wf: "do_act env d excl a s = Ret (Some s') \<Longrightarrow> wf_manager (ag_mgr s) \<Longrightarrow> wf_manager (ag_mgr s')"
  by (cases a) (auto simp: Let_def go_map_eq_Ret send_msg_mgr split: if_splits)

text \<open>The gateway manager only allocates and returns addresses of its pool.\<close>

lemma gateway_return_same: "gateway_return tk as ident (Some p) = Ret r \<Longrightarrow> \<exists>q. r = Some q \<and> same_pool p q"
  by (induction as arbitrary: p) (auto intro: same_pool_trans ReturnIPAddr_same dest!: ReturnIPAddr_same)

lemma gateway_finish_pool: "gateway_finish k gc lc gw g = Ret (g', err) \<Longrightarrow> gm_pool g' = gm_pool g"
  by (auto simp: gateway_finish_def go_map_eq_Ret split: prod.splits)

lemma createGateway_same:
  assumes "createGateway tk k gc lc gw g = Ret (g', err)" and "gm_pool g = Some p"
  shows "\<exists>q. gm_pool g' = Some q \<and> same_pool p q"
proof (cases "(\<exists>e. class_get k (gm_api g) (gw_ClassName gw) = Inl e) \<or> gw_SpecAddresses gw \<noteq> []")
  case True
  then show ?thesis using assms by (auto simp: createGateway_def Let_def split: sum.splits dest!: gateway_finish_pool)
next
  case False
  obtain p1 ip ident where n: "GetNewIPAddr tk p (GenKey (gw_Namespace gw) (gw_Name gw)) 0 [] = (p1, ip, ident)"
    by (rule prod_cases3)
  have p1: "same_pool p p1" using GetNewIPAddr_same[of p tk "GenKey (gw_Namespace gw) (gw_Name gw)" 0 "[]"] n by simp
  show ?thesis
    using assms False n p1
    by (auto simp: createGateway_def Let_def go_map_eq_Ret split: sum.splits if_splits prod.splits
        dest!: gateway_finish_pool ReturnIPAddr_same intro: same_pool_trans)
qed

lemma deleteGateway_same:
  assumes "deleteGateway tk k gc entry g = Ret (g', err)" and "gm_pool g = Some p"
  shows "\<exists>q. gm_pool g' = Some q \<and> same_pool p q"
proof -
  obtain r where r: "gateway_return tk (gw_StatusAddresses entry) (ann (gw_Annotations entry) ''ident-ipam'') (Some p) = Ret r"
    using assms by (auto simp: deleteGateway_def)
  then have "gm_pool g' = r" using assms by (auto simp: deleteGateway_def split_def Let_def)
  then show ?thesis using gateway_return_same[OF r] by simp
qed

lemma gateway_work_same:
  assumes "gateway_processNextWorkItem tk k gc lc (queue, g) = Ret (queue', g')" and "gm_pool g = Some p"
  shows "\<exists>q. gm_pool g' = Some q \<and> same_pool p q"
  using assms
  by (auto simp: gateway_processNextWorkItem_def process_object_def gateway_reconcile_def go_map_eq_Ret
      split: list.splits option.splits dest: createGateway_same deleteGateway_same)

lemma agent_step_wf:
  assumes "agent_step env d excl crd gk gp s s'" and "wf_manager (ag_mgr s)"
  shows "wf_manager (ag_mgr s')"
  using assms
proof (induction rule: agent_step.induct)
  case (action s a rest k s')
  then show ?case using do_act_wf[of "at_cluster env k" d excl a "s\<lparr>ag_pending := rest\<rparr>" s'] by simp
next
  case (life_alive s c cs k l)
  then show ?case using life_step_wf[OF life_alive.hyps(2)] by simp
next
  case (life_purge s c cs k l)
  then show ?case using life_step_wf[OF life_purge.hyps(2)] by simp
next
  case (life_inst k s l)
  then show ?case using life_step_wf[OF life_inst.hyps(1)] by simp
next
  case (sel_master s rest k l)
  then show ?case using life_step_wf[OF sel_master.hyps(2)] by simp
next
  case (egress s c cs everything k)
  then show ?case using extends_log_wf[OF egress_alive_log[of "ag_mgr s" everything "at_cluster env k"]] by (simp add: set_mgr_def)
next
  case (url known k u s um err)
  let ?s = "\<lparr>um_lb = ag_mgr s, crdControlOn = ag_crdControlOn s, um_purgeCh = [], um_applyCh = []\<rparr>"
  have "wf_manager (um_lb ?s)" using url.prems by simp
  from add_url_wf[OF this, of "at_cluster env k" d u] delete_url_wf[OF this, of "at_cluster env k" d u] url.hyps(1)
  have "wf_manager (um_lb um)" by (auto simp: syncLBURLs_def split: if_splits)
  then show ?case by (simp add: set_mgr_def)
next
  case (service k ns name s m err)
  then show ?case using steady_wf[OF syncLoadBalancer_steady[OF service.hyps(1)]] by simp
next
  case (compare k listing s m err)
  then show ?case using extends_log_wf[OF compare_log] by (simp add: compareLoxiLBToK8sService_def)
next
  case (gateway p s queue cluster lister queue' g q)
  from gateway_work_same[OF gateway.hyps(3), of "poolStore (ag_mgr s) ! p"] gateway.hyps(4) have "same_pool (poolStore (ag_mgr s) ! p) q" by simp
  from steady_wf[OF pools_moved_steady[OF pools_moved_upd[OF gateway.hyps(2) this]] gateway.prems] show ?case by simp
next
  case (requests s m)
  then show ?case using extends_log_wf[OF requests.hyps(1)] by simp
qed (simp_all add: deliver_def set_mgr_def)

lemma agent_run_ok:
  "(agent_step env d excl crd gk gp)\<^sup>*\<^sup>* s s' \<Longrightarrow> fleet_ok env (ag_mgr s) \<and> wf_manager (ag_mgr s) \<Longrightarrow>
   fleet_ok env (ag_mgr s') \<and> wf_manager (ag_mgr s')"
  by (induction rule: rtranclp_induct) (auto intro: agent_step_fleet agent_step_wf)

lemma agent_start_ok:
  assumes "startup (e_tk env) d c = Inr m" and "e_cfg env = networkConfig c"
  shows "fleet_ok env (ag_mgr (agent_start m)) \<and> wf_manager (ag_mgr (agent_start m))"
  using startup_fleet[OF assms(1)] startup_wf_manager[OF assms(1)] assms(2)
  by (simp add: fleet_ok_def agent_start_def networkConfig_def)

text \<open>
  C13. The store of the agent stays well-formed. From the state \<open>run\<close> starts with, whatever the
  cluster holds and the instances answer, and however the loops of the agent, the life cycle, the
  managers (that of the gateways included, which allocates from one of the pools), the health checks and
  the workers of the services interleave: every pool is well-formed,
  and every entry of the cache and of the tables of pools refers to a pool that exists. This is what
  the theorems about the handlers assume.
\<close>

theorem agent_keeps_invariant:
  assumes "startup (e_tk env) d c = Inr m" and "e_cfg env = networkConfig c"
    and "(agent_step env d excl crd gk gp)\<^sup>*\<^sup>* (agent_start m) s"
  shows "wf_manager (ag_mgr s)"
  using agent_run_ok[OF assms(3) agent_start_ok[OF assms(1,2)]] by blast

text \<open>
  C12. The agent refines the role machine: from the state \<open>run\<close> starts with, however the loops of
  the agent, the life cycle, the egress manager, the health checks, the LoxiURL manager, the gateway
  manager and the workers interleave, the clients are always a state of the role machine of the configured zone,
  and no zone instance ever has two masters.
\<close>

theorem agent_refines_roles:
  assumes "startup (e_tk env) d c = Inr m" and "e_cfg env = networkConfig c"
    and "(agent_step env d excl crd gk gp)\<^sup>*\<^sup>* (agent_start m) s"
  shows "role_reach (e_tk env) (ac_Zone c) (ac_NumZoneInst c) (LoxiClients (ag_mgr s)) \<and>
    (\<forall>(inst, n)\<in>set (zone_inst_map (ac_Zone c) (ac_NumZoneInst c)). card (masters inst (LoxiClients (ag_mgr s))) \<le> 1)"
proof -
  from agent_run_ok[OF assms(3) agent_start_ok[OF assms(1,2)]] have r: "role_reach (e_tk env) (ac_Zone c) (ac_NumZoneInst c) (LoxiClients (ag_mgr s))"
    using assms(2) by (simp add: fleet_ok_def networkConfig_def)
  then show ?thesis using role_reach_ok[OF r] by (auto simp: roles_ok_def)
qed

definition agent_env :: "AgentConfig \<Rightarrow> (string \<times> string) list lb_env" where
  "agent_env c = (demo_env accept)\<lparr>e_tk := colon_ipam, e_cfg := networkConfig c\<rparr>"

theorem agent_refines_roles_witness:
  "\<exists>m. startup colon_ipam demo_dial (setDefaults zero_config) = Inr m \<and>
     card (masters (GenZoneInstName ''llb'' 0) (LoxiClients (ag_mgr ((agent_start m)\<lparr>ag_pending := tick_acts (networkConfig (setDefaults zero_config))\<rparr>)))) \<le> 1"
proof -
  let ?c = "setDefaults zero_config"
  obtain m where m: "startup colon_ipam demo_dial ?c = Inr m" using default_config_starts by blast
  have env: "e_tk (agent_env ?c) = colon_ipam" "e_cfg (agent_env ?c) = networkConfig ?c" by (simp_all add: agent_env_def)
  have "(agent_step (agent_env ?c) demo_dial [] False list_kube (Some 0))\<^sup>*\<^sup>* (agent_start m) ((agent_start m)\<lparr>ag_pending := tick_acts (networkConfig ?c)\<rparr>)"
    using agent_step.tick[of "agent_start m" "agent_env ?c" demo_dial "[]" False list_kube "Some 0"] by (auto simp: env agent_start_def)
  note r = agent_refines_roles[OF m[folded env(1)] env(2) this]
  have "(GenZoneInstName ''llb'' 0, 0) \<in> set (zone_inst_map (ac_Zone ?c) (ac_NumZoneInst ?c))"
    unfolding default_config by (simp add: zone_inst_map_def)
  with r m show ?thesis by blast
qed

theorem agent_keeps_invariant_witness:
  "\<exists>m s. startup colon_ipam demo_dial (setDefaults zero_config) = Inr m \<and>
     agent_step (agent_env (setDefaults zero_config)) demo_dial [] False list_kube (Some 0) (agent_start m) s \<and> wf_manager (ag_mgr s)"
proof -
  let ?c = "setDefaults zero_config"
  obtain m where m: "startup colon_ipam demo_dial ?c = Inr m" using default_config_starts by blast
  have env: "e_tk (agent_env ?c) = colon_ipam" "e_cfg (agent_env ?c) = networkConfig ?c" by (simp_all add: agent_env_def)
  have step: "agent_step (agent_env ?c) demo_dial [] False list_kube (Some 0) (agent_start m) ((agent_start m)\<lparr>ag_pending := tick_acts (e_cfg (agent_env ?c))\<rparr>)"
    by (rule agent_step.tick) (simp add: agent_start_def)
  from agent_keeps_invariant[OF m[folded env(1)] env(2) r_into_rtranclp[of "agent_step (agent_env ?c) demo_dial [] False list_kube (Some 0)", OF step]]
  show ?thesis using m step by blast
qed

subsection \<open>The loop can stop for ever\<close>

text \<open>
  Three sends of the loop wait for a reader that never comes: the purge channel is read by the loop
  itself, nobody reads \<open>ClientDeadCh\<close>, and the egress manager reads its channel only once its resource
  definition is installed.
\<close>

definition wedged :: "bool \<Rightarrow> 'a Agent \<Rightarrow> bool" where
  "wedged crd s \<longleftrightarrow>
     (case ag_pending s of
        Send (ToPurge c) # _ \<Rightarrow> 5 \<le> length (ag_purge s)
      | Send ToClientDead # _ \<Rightarrow> 64 \<le> ag_clientDead s
      | Send (ToEgressAlive c) # _ \<Rightarrow> \<not> crd \<and> 50 \<le> length (ag_egressAlive s)
      | _ \<Rightarrow> False)"

lemma wedged_step:
  assumes "agent_step env d excl crd gk gp s s'" and "wedged crd s"
  shows "wedged crd s' \<and> ag_pending s' = ag_pending s"
  using assms
proof (induction rule: agent_step.induct)
  case (action s a rest s')
  then show ?case by (auto simp: wedged_def split: act.splits msg.splits)
next
  case (sel_master s rest l)
  then show ?case by (auto simp: wedged_def)
next
  case (url known u s um err)
  then show ?case by (auto simp: wedged_def set_mgr_def split: list.splits act.splits msg.splits)
qed (auto simp: wedged_def set_mgr_def deliver_def split: list.splits act.splits msg.splits)

lemma wedged_run:
  "(agent_step env d excl crd gk gp)\<^sup>*\<^sup>* s s' \<Longrightarrow> wedged crd s \<Longrightarrow> wedged crd s' \<and> ag_pending s' = ag_pending s"
  by (induction rule: rtranclp_induct) (auto dest: wedged_step)

lemma purges_wedge:
  assumes "ag_pending s = map (\<lambda>c. Send (ToPurge c)) cs @ rest" and "length (ag_purge s) \<le> 5"
    and "5 < length (ag_purge s) + length cs"
  shows "\<exists>s'. (agent_step env d excl crd gk gp)\<^sup>*\<^sup>* s s' \<and> wedged crd s'"
  using assms
proof (induction cs arbitrary: s)
  case (Cons c cs)
  show ?case
  proof (cases "length (ag_purge s) < 5")
    case True
    let ?s = "s\<lparr>ag_pending := map (\<lambda>c. Send (ToPurge c)) cs @ rest, ag_purge := ag_purge s @ [c]\<rparr>"
    have "agent_step env d excl crd gk gp s ?s"
      using Cons.prems(1) True by (intro agent_step.action[of s "Send (ToPurge c)" "map (\<lambda>c. Send (ToPurge c)) cs @ rest"]) simp_all
    moreover obtain s' where "(agent_step env d excl crd gk gp)\<^sup>*\<^sup>* ?s s'" "wedged crd s'"
      using Cons.IH[of ?s] Cons.prems(3) True by auto
    ultimately show ?thesis by (meson converse_rtranclp_into_rtranclp)
  next
    case False
    then have "wedged crd s" using Cons.prems(1) by (simp add: wedged_def)
    then show ?thesis by blast
  qed
qed simp

text \<open>
  C15. Losing many instances at once stops the agent for ever: when discovery finds more clients
  gone than the purge channel has room for (5, and the loop that runs discovery is the only
  reader), the system can reach a state after which, whatever any goroutine does, the loop never
  finishes the tick: no client becomes alive, is purged, or is elected master any more.
\<close>

theorem discovery_deadlock:
  assumes "cfg_LoxilbURLs (e_cfg env) = []" and "ag_pending s = []" and "length (ag_purge s) \<le> 5"
    and "5 < length (ag_purge s) + length (filter (\<lambda>c. Host c \<notin> set (service_ips env ''loxilb-lb-service'' (zone_nodes env)))
      (LoxiClients (ag_mgr s)))"
  shows "\<exists>s'. (agent_step env d excl crd gk gp)\<^sup>*\<^sup>* s s' \<and>
    (\<forall>s''. (agent_step env d excl crd gk gp)\<^sup>*\<^sup>* s' s'' \<longrightarrow> ag_pending s'' = ag_pending s' \<and> ag_pending s'' \<noteq> [])"
proof -
  let ?ips = "service_ips env ''loxilb-lb-service'' (zone_nodes env)" and ?m = "ag_mgr s"
  let ?mk = "\<lambda>ip. discovered_client env d False (list_ex (\<lambda>n. n = ip) excl) ip"
  define cs where "cs = discover_marks ?mk ?ips (LoxiClients ?m)"
  define rest where "rest = DropClients # tl (tick_acts (e_cfg env))"
  let ?s1 = "s\<lparr>ag_pending := tick_acts (e_cfg env)\<rparr>"
  let ?s2 = "(set_mgr (?m\<lparr>LoxiClients := cs\<rparr>) s)\<lparr>ag_pending := map (\<lambda>c. Send (ToPurge c)) (filter Purge cs) @ rest\<rparr>"
  have t: "tick_acts (e_cfg env) = Discover # tl (tick_acts (e_cfg env))" using assms(1) by (simp add: tick_acts_def)
  have "agent_step env d excl crd gk gp s ?s1" using assms(2) by (rule agent_step.tick)
  moreover have "agent_step env d excl crd gk gp ?s1 ?s2"
    by (rule agent_step.action[of _ Discover "tl (tick_acts (e_cfg env))", where k = "e_kube env"])
       (simp_all add: t[symmetric] Let_def set_mgr_def cs_def rest_def)
  ultimately have run: "(agent_step env d excl crd gk gp)\<^sup>*\<^sup>* s ?s2" by auto
  have "length (filter (\<lambda>c. Host c \<notin> set ?ips) (LoxiClients ?m)) =
      length (filter Purge (map (mark_purge ?ips) (LoxiClients ?m)))"
    by (simp add: filter_map o_def mark_purge_def list_ex_iff)
  also have "\<dots> \<le> length (filter Purge cs)" by (simp add: cs_def discover_marks_def Let_def)
  finally have "5 < length (ag_purge ?s2) + length (filter Purge cs)" using assms(4) by simp
  then obtain s' where "(agent_step env d excl crd gk gp)\<^sup>*\<^sup>* ?s2 s'" "wedged crd s'"
    using purges_wedge[of ?s2 "filter Purge cs" rest env d excl crd gk gp] assms(3) by auto
  moreover have "ag_pending s'' \<noteq> []" if "wedged crd s''" for s'' using that by (auto simp: wedged_def)
  ultimately show ?thesis using run wedged_run by (meson rtranclp_trans)
qed

definition crowded :: "(string \<times> string) list Agent" where
  "crowded = agent_start (demo_manager\<lparr>LoxiClients := replicate 6 demo_client\<rparr>)"

theorem discovery_deadlock_witness:
  "\<exists>s'. (agent_step (demo_env accept) demo_dial [] True list_kube (Some 0))\<^sup>*\<^sup>* crowded s' \<and>
     (\<forall>s''. (agent_step (demo_env accept) demo_dial [] True list_kube (Some 0))\<^sup>*\<^sup>* s' s'' \<longrightarrow> ag_pending s'' = ag_pending s' \<and> ag_pending s'' \<noteq> [])"
proof (rule discovery_deadlock)
  have "service_ips (demo_env accept) ''loxilb-lb-service'' (zone_nodes (demo_env accept)) = [''10.244.1.5'']"
    by code_simp
  then show "5 < length (ag_purge crowded) + length (filter (\<lambda>c. Host c \<notin> set (service_ips (demo_env accept) ''loxilb-lb-service''
      (zone_nodes (demo_env accept)))) (LoxiClients (ag_mgr crowded)))"
    by (simp add: crowded_def agent_start_def demo_client_def)
qed (simp_all add: crowded_def agent_start_def demo_env_def demo_cfg_def)

end
