(* ===== verification/Meta_Manager.thy ===== *)
theory Meta_Manager
  imports Crd_Queue
begin

text \<open>
  The metadata manager (\<open>manager/meta/meta.go\<close>): once a minute it sends the services of the loxilb
  class, their pods and all nodes to every instance that is alive.

  The listers are arguments; \<open>podLister\<close> takes the selector of a service. The records extend those of
  \<open>K8s_Model\<close> by the fields that only this manager reads.
\<close>

record MetaService = Service +
  ms_ClusterIP :: string

record MetaPod = Pod +
  mpod_NodeName :: string
  mpod_Labels :: "(string \<times> string) list"

record MetaNode = Node +
  mnode_Labels :: "(string \<times> string) list"

definition createServiceMetaData :: "MetaService \<Rightarrow> ServiceMetadata" where
  "createServiceMetaData svc =
     \<lparr>sm_Name = sv_Name svc, sm_Namespace = sv_Namespace svc, sm_ClusterIP = ms_ClusterIP svc,
      sm_ExternalIP = (case sv_Ingress svc of
                         [] \<Rightarrow> []
                       | ing # _ \<Rightarrow> if ing_Hostname ing = [] then ing_IP ing else ing_Hostname ing),
      sm_Ports = map (\<lambda>port. \<lparr>mp_Port = sp_Port port, mp_Protocol = sp_Protocol port, mp_NodePort = sp_NodePort port,
                              mp_TargetPort = int_value (sp_TargetPort port)\<rparr>) (sv_Ports svc)\<rparr>"

definition createPodMetaData :: "MetaPod \<Rightarrow> PodMetadata" where
  "createPodMetaData pod =
     \<lparr>pm_Name = pod_Name pod, pm_Namespace = pod_Namespace pod, pm_IP = pod_PodIP pod,
      pm_NodeName = mpod_NodeName pod, pm_Labels = mpod_Labels pod\<rparr>"

definition served :: "NetworkConfig \<Rightarrow> MetaService \<Rightarrow> bool" where
  "served cfg svc \<longleftrightarrow> sv_Type svc = ''LoadBalancer'' \<and> sv_LoadBalancerClass svc = Some (cfg_LoxilbLoadBalancerClass cfg)"

text \<open>The loop over the services; an error of the pod lister ends the round.\<close>

fun meta_services ::
  "NetworkConfig \<Rightarrow> ((string \<times> string) list \<Rightarrow> error + MetaPod list) \<Rightarrow> MetaService list \<Rightarrow> K8sMetaModel \<Rightarrow>
   error + K8sMetaModel" where
  "meta_services cfg podLister [] body = Inr body"
| "meta_services cfg podLister (svc # svcs) body =
     (if served cfg svc then
        (case podLister (sv_Selector svc) of
           Inl err \<Rightarrow> Inl err
         | Inr pods \<Rightarrow>
             meta_services cfg podLister svcs
               (body\<lparr>meta_Services := meta_Services body @ [createServiceMetaData svc],
                     meta_Pods := meta_Pods body @ map createPodMetaData pods\<rparr>))
      else meta_services cfg podLister svcs body)"

text \<open>The first address and the last condition of a node are read without a test.\<close>

definition node_meta :: "MetaNode \<Rightarrow> NodeMetadata go" where
  "node_meta node =
     (if node_Addresses node = [] \<or> node_Conditions node = [] then Panic ''index out of range''
      else Ret \<lparr>nm_Name = node_Name node, nm_InternalIP = snd (node_Addresses node ! 0), nm_Labels = mnode_Labels node,
                nm_Status = snd (node_Conditions node ! (length (node_Conditions node) - 1))\<rparr>)"

definition meta_nodes :: "MetaNode list \<Rightarrow> K8sMetaModel \<Rightarrow> K8sMetaModel go" where
  "meta_nodes nodes body =
     go_fold (\<lambda>node body. go_map (\<lambda>n. body\<lparr>meta_Nodes := meta_Nodes body @ [n]\<rparr>) (node_meta node)) nodes body"

text \<open>One round of the worker; errors of the instances are logged only.\<close>

definition meta_worker ::
  "'a lb_env \<Rightarrow> error + MetaService list \<Rightarrow> ((string \<times> string) list \<Rightarrow> error + MetaPod list) \<Rightarrow> error + MetaNode list \<Rightarrow>
   'a Manager \<Rightarrow> 'a Manager go" where
  "meta_worker env svcLister podLister nodeLister m =
     (case svcLister of
        Inl _ \<Rightarrow> Ret m
      | Inr svcs \<Rightarrow>
          (case meta_services (e_cfg env) podLister svcs \<lparr>meta_Pods = [], meta_Services = [], meta_Nodes = []\<rparr> of
             Inl _ \<Rightarrow> Ret m
           | Inr body \<Rightarrow>
               (case nodeLister of
                  Inl _ \<Rightarrow> Ret m
                | Inr nodes \<Rightarrow>
                    go_map (\<lambda>body. fold (\<lambda>c m. if IsAlive c then fst (api_send env c (K8sMetaCreate body) m) else m) (LoxiClients m) m)
                      (meta_nodes nodes body))))"

subsection \<open>What is sent\<close>

lemma meta_services_result:
  "meta_services cfg podLister svcs body = Inr body' \<Longrightarrow>
   \<exists>podss. map (\<lambda>svc. podLister (sv_Selector svc)) (filter (served cfg) svcs) = map Inr podss \<and>
      body' = body\<lparr>meta_Services := meta_Services body @ map createServiceMetaData (filter (served cfg) svcs),
                   meta_Pods := meta_Pods body @ map createPodMetaData (concat podss)\<rparr>"
proof (induction svcs arbitrary: body)
  case (Cons svc svcs)
  show ?case
  proof (cases "served cfg svc")
    case True
    then obtain pods where pods: "podLister (sv_Selector svc) = Inr pods"
      using Cons.prems by (auto split: sum.splits)
    then obtain podss where "map (\<lambda>svc. podLister (sv_Selector svc)) (filter (served cfg) svcs) = map Inr podss"
      "body' = body\<lparr>meta_Services := meta_Services body @ map createServiceMetaData (filter (served cfg) (svc # svcs)),
                   meta_Pods := meta_Pods body @ map createPodMetaData (concat (pods # podss))\<rparr>"
      using Cons.IH Cons.prems True by fastforce
    then show ?thesis using True pods by (intro exI[of _ "pods # podss"]) simp
  qed (use Cons in simp)
qed (auto intro: exI[of _ "[]"])

lemma meta_nodes_panics: "(\<exists>body'. meta_nodes nodes body = Ret body') \<longleftrightarrow> (\<forall>n\<in>set nodes. node_Addresses n \<noteq> [] \<and> node_Conditions n \<noteq> [])"
  unfolding meta_nodes_def by (induction nodes arbitrary: body) (auto simp: node_meta_def go_map_eq_Ret)

lemma meta_send_log:
  "fold (\<lambda>c m. if IsAlive c then fst (api_send env c call m) else m) cs m =
   m\<lparr>apiLog := apiLog m @ calls_to_all (filter IsAlive cs) call\<rparr>"
  by (induction cs arbitrary: m) (simp_all add: api_send_def calls_to_all_def)

text \<open>
  The same metadata goes to every instance that is alive, and to no other; a round in which a list is
  not available sends nothing; and the worker crashes exactly on a node without address or condition.
\<close>

lemma meta_worker_effect:
  assumes "meta_worker env svcLister podLister nodeLister m = Ret m'"
  shows "m' = m \<or> (\<exists>body svcs. svcLister = Inr svcs \<and>
    meta_Services body = map createServiceMetaData (filter (served (e_cfg env)) svcs) \<and>
    m' = m\<lparr>apiLog := apiLog m @ calls_to_all (filter IsAlive (LoxiClients m)) (K8sMetaCreate body)\<rparr>)"
proof -
  have nodes: "meta_Services b' = meta_Services b" if "meta_nodes ns b = Ret b'" for ns b b'
    using that unfolding meta_nodes_def
    by (rule go_fold_inv[where P = "\<lambda>x. meta_Services x = meta_Services b"]) (auto simp: go_map_eq_Ret)
  show ?thesis
    using assms
    by (auto simp: meta_worker_def go_map_eq_Ret meta_send_log split: sum.splits dest!: nodes meta_services_result)
qed

lemma meta_worker_extends: "meta_worker env s p n m = Ret m' \<Longrightarrow> extends_log m m'"
  by (drule meta_worker_effect, elim disjE) (simp, auto simp: extends_log_def)

end
