(* ===== verification/Name_Queue.thy ===== *)
theory Name_Queue
  imports Lb_Lifecycle Gateway_Api
begin

text \<open>
  Work queues of names: those of the services (\<open>loadbalancer.go\<close>), and of the gateway classes and the
  TCP, UDP and HTTP routes (\<open>pkg/agent/manager/gatewayapi\<close>). A worker takes the first name, runs the
  handler, and puts the name back when it failed. The locale \<open>name_queue\<close> is what the queues have in common; the
  cluster, and whatever else the handlers read, may be another in every round, and other parts of the
  program may change the state in between.
\<close>

subsection \<open>Entering objects\<close>

definition class_enqueueObject :: "GatewayClass informer_item \<Rightarrow> string list \<Rightarrow> string list go" where
  "class_enqueueObject = name_enqueueObject gc_Name"

definition tcp_enqueueObject :: "L4Route informer_item \<Rightarrow> (string \<times> string) list \<Rightarrow> (string \<times> string) list go" where
  "tcp_enqueueObject = name_enqueueObject (\<lambda>rt. (rt_Namespace rt, rt_Name rt))"

definition udp_enqueueObject :: "L4Route informer_item \<Rightarrow> (string \<times> string) list \<Rightarrow> (string \<times> string) list go" where
  "udp_enqueueObject = name_enqueueObject (\<lambda>rt. (rt_Namespace rt, rt_Name rt))"

definition http_enqueueObject :: "HTTPRoute informer_item \<Rightarrow> (string \<times> string) list \<Rightarrow> (string \<times> string) list go" where
  "http_enqueueObject = name_enqueueObject (\<lambda>rt. (ht_Namespace rt, ht_Name rt))"

subsection \<open>Histories of a queue\<close>

text \<open>
  \<open>queue_run step handle enter st h st'\<close>: from \<open>st\<close> the queue comes to \<open>st'\<close>; \<open>h\<close> holds the names in the order
  in which they were handled, each with the error of its handler.
\<close>

inductive queue_run ::
  "('e \<Rightarrow> 'k list \<times> 's \<Rightarrow> ('k list \<times> 's) go) \<Rightarrow> ('e \<Rightarrow> 'k \<Rightarrow> 's \<Rightarrow> ('s \<times> error option) go) \<Rightarrow> ('o \<Rightarrow> 'k list \<Rightarrow> 'k list go) \<Rightarrow>
   'k list \<times> 's \<Rightarrow> ('k \<times> error option) list \<Rightarrow> 'k list \<times> 's \<Rightarrow> bool"
  for step handle enter st where
  start: "queue_run step handle enter st [] st"
| work: "queue_run step handle enter st (h @ [(k, err)]) (q', s')"
    if "queue_run step handle enter st h (k # q, s)" and "handle e k s = Ret (s1, err)" and "step e (k # q, s) = Ret (q', s')"
| event: "queue_run step handle enter st h (q', s)"
    if "queue_run step handle enter st h (q, s)" and "enter obj q = Ret q'"
| other: "queue_run step handle enter st h (q, s')"
    if "queue_run step handle enter st h (q, s)"

locale name_queue =
  fixes step :: "'e \<Rightarrow> 'k list \<times> 's \<Rightarrow> ('k list \<times> 's) go"
    and handle :: "'e \<Rightarrow> 'k \<Rightarrow> 's \<Rightarrow> ('s \<times> error option) go"
    and enter :: "'o \<Rightarrow> 'k list \<Rightarrow> 'k list go"
  assumes step_law: "handle e k s = Ret (s', err) \<Longrightarrow>
      \<exists>r. step e (k # q, s) = Ret (q @ r, s') \<and> (err \<noteq> None \<longrightarrow> k \<in> set (q @ r))"
    and enter_law: "enter obj q = Ret q' \<Longrightarrow> \<exists>r. q' = q @ r"
begin

text \<open>While the names that were there at the start are handled, the rest of them is at the head of the queue.\<close>

lemma fifo:
  assumes "queue_run step handle enter (q0, s0) h (q, s)"
  shows "take (length q0) (map fst h) = take (length h) q0 \<and> (\<exists>r. q = drop (length h) q0 @ r)"
  using assms
proof (induction h "(q, s)" arbitrary: q s rule: queue_run.induct)
  case (work h k q s e s1 err q' s')
  obtain r where r: "k # q = drop (length h) q0 @ r" using work(2) by blast
  obtain r' where q': "q' = q @ r'" using step_law[OF work(3), of q] work(4) by auto
  show ?case
  proof (cases "length h < length q0")
    case True
    then have "drop (length h) q0 = q0 ! length h # drop (Suc (length h)) q0" by (simp add: Cons_nth_drop_Suc)
    then have "k = q0 ! length h" "q = drop (Suc (length h)) q0 @ r" using r by simp_all
    then show ?thesis using True work(2) q' by (simp add: take_Suc_conv_app_nth)
  next
    case False
    then show ?thesis using work(2) by simp
  qed
next
  case (event h q s obj q')
  then show ?case using enter_law[OF event(3)] by fastforce
qed auto

lemma in_turn:
  assumes "queue_run step handle enter (q0, s0) h (q, s)" and "i < length q0" and "i < length h"
  shows "fst (h ! i) = q0 ! i"
proof -
  have "take (length q0) (map fst h) ! i = take (length h) q0 ! i" using fifo[OF assms(1)] by simp
  then show ?thesis using assms(2,3) by simp
qed

lemma kept_or_done:
  assumes "queue_run step handle enter (q0, s0) h (q, s)" and "k \<in> set q0"
  shows "k \<in> set q \<or> (k, None) \<in> set h"
  using assms
proof (induction h "(q, s)" arbitrary: q s rule: queue_run.induct)
  case (work h k' q s e s1 err q' s')
  then show ?case using step_law[OF work(3), of q] by (cases err) auto
next
  case (event h q s obj q')
  then show ?case using enter_law[OF event(3)] by auto
qed auto

end

subsection \<open>The queues\<close>

lemmas round_defs = process_name_def go_map_def processNextWorkItem_def class_processNextWorkItem_def tcp_processNextWorkItem_def
  udp_processNextWorkItem_def http_processNextWorkItem_def class_enqueueObject_def tcp_enqueueObject_def udp_enqueueObject_def http_enqueueObject_def

lemma name_enqueueObject_law: "name_enqueueObject name obj q = Ret q' \<Longrightarrow> \<exists>r. q' = q @ r"
  by (auto simp: name_enqueueObject_def split: informer_item.splits if_splits)

lemma enqueueService_law: "enqueueService obj q = Ret q' \<Longrightarrow> \<exists>r. q' = q @ r"
  by (auto simp: enqueueService_def Let_def split: informer_obj.splits option.splits if_splits)

interpretation services: name_queue processNextWorkItem "\<lambda>env (ns, name). syncLoadBalancer env ns name" enqueueService
  by unfold_locales (auto simp: round_defs dest: enqueueService_law)

interpretation classes: name_queue "\<lambda>(k, lister, gc). class_processNextWorkItem k lister gc"
  "\<lambda>(k, lister, gc) name s. Ret (class_reconcile k lister gc name s)" class_enqueueObject
  by unfold_locales (auto simp: round_defs dest: name_enqueueObject_law)

interpretation tcp_routes: name_queue "\<lambda>(k, lister, gp). tcp_processNextWorkItem k lister gp"
  "\<lambda>(k, lister, gp). tcp_reconcile k lister gp" tcp_enqueueObject
  by unfold_locales (auto simp: round_defs dest: name_enqueueObject_law)

interpretation udp_routes: name_queue "\<lambda>(k, lister, gp). udp_processNextWorkItem k lister gp"
  "\<lambda>(k, lister, gp). udp_reconcile k lister gp" udp_enqueueObject
  by unfold_locales (auto simp: round_defs dest: name_enqueueObject_law)

interpretation http_routes: name_queue "\<lambda>(k, lister, gp). http_processNextWorkItem k lister gp"
  "\<lambda>(k, lister, gp). http_reconcile k lister gp" http_enqueueObject
  by unfold_locales (auto simp: round_defs dest: name_enqueueObject_law)

text \<open>
  C14. No service is lost or starved. Let the worker handle the queue of the services, with any cluster and any
  answers of the instances in each round, while informers enter services and other parts of the
  agent change the manager. Then the services that were queued at the start are handled in this order, one per round,
  no matter which of them fail or what is entered; and a service leaves the queue only when
  \<open>syncLoadBalancer\<close> has succeeded for it.
\<close>

theorem services_in_turn:
  assumes "queue_run processNextWorkItem (\<lambda>env (ns, name). syncLoadBalancer env ns name) enqueueService (q0, m0) h (q, m)"
  shows "(\<forall>i<min (length q0) (length h). fst (h ! i) = q0 ! i) \<and>
    (\<forall>key\<in>set q0. key \<in> set q \<or> (key, None) \<in> set h)"
  using services.in_turn[OF assms] services.kept_or_done[OF assms] by simp

lemma demo_round:
  obtains m' err where "syncLoadBalancer (demo_env accept) ''default'' ''web'' demo_manager = Ret (m', err)"
    "\<exists>q. processNextWorkItem (demo_env accept) ([(''default'', ''web'')], demo_manager) = Ret (q, m')"
proof -
  have "case syncLoadBalancer (demo_env accept) ''default'' ''web'' demo_manager of Ret (m', err) \<Rightarrow> True | _ \<Rightarrow> False" by code_simp
  then obtain m' err where "syncLoadBalancer (demo_env accept) ''default'' ''web'' demo_manager = Ret (m', err)" by (auto split: go.splits)
  then show ?thesis using that by (simp add: processNextWorkItem_def go_map_def)
qed

theorem services_in_turn_witness:
  "\<exists>h q m. queue_run processNextWorkItem (\<lambda>env (ns, name). syncLoadBalancer env ns name) enqueueService
     ([(''default'', ''web'')], demo_manager) h (q, m) \<and> length h = 1 \<and> fst (h ! 0) = (''default'', ''web'')"
proof -
  let ?key = "(''default'', ''web'')"
  let ?run = "queue_run processNextWorkItem (\<lambda>env (ns, name). syncLoadBalancer env ns name) enqueueService ([?key], demo_manager)"
  obtain m' err q where r: "(case ?key of (ns, name) \<Rightarrow> syncLoadBalancer (demo_env accept) ns name) demo_manager = Ret (m', err)"
    "processNextWorkItem (demo_env accept) ([?key], demo_manager) = Ret (q, m')" by (rule demo_round) auto
  have run: "?run ([] @ [(?key, err)]) (q, m')" by (rule queue_run.work[OF queue_run.start, where e = "demo_env accept"]) (use r in simp_all)
  then have "fst (([] @ [(?key, err)]) ! 0) = ?key" using services_in_turn[OF run] by simp
  then show ?thesis using run by (intro exI[of _ "[(?key, err)]"] exI[of _ q] exI[of _ m']) simp
qed

end
