(* ===== verification/Spec2Isabelle.thy ===== *)
theory Spec2Isabelle
  imports IP_Pool Ext_IP Api_Client K8s_Model Roles Lb_Model Lb_Manager Lb_Correct Lb_Invariant Lb_Partial Lb_Resync Lb_Update Lb_Tables Lb_Teardown
    Lb_Lifecycle Lb_Recovery Crd_Queue
    Egress_Manager Bgp_Managers Loxi_Url Agent_Options Log_Files Agent_Main Agent_Loop Meta_Manager Gateway_Api Gateway_Correct
    Name_Queue
begin

text \<open>
  kube-loxilb is the Kubernetes controller of the loxilb load balancer. It watches services of type
  LoadBalancer and a number of custom resources, gives services external addresses from pools, and
  keeps the rules of a set of loxilb instances in step with the cluster over a REST interface. This
  library models it as HOL functions over explicit state and proves what its parts promise.

  \<^bold>\<open>The parts and their theories.\<close> File names are relative to \<^verbatim>\<open>src/\<close>.

  \<^item> \<open>Go_Prelude\<close>, \<open>Go_Net\<close>: what the code uses of Go: the results of a call (\<open>Ret\<close>, \<open>Panic\<close>,
    \<open>Exit\<close>), maps as association lists, \<^verbatim>\<open>strings\<close>, \<^verbatim>\<open>strconv\<close>, \<^verbatim>\<open>path\<close>, and \<^verbatim>\<open>net\<close>: parsing and
    printing of addresses, networks and masks, with the lemmas the other theories share.
  \<^item> \<open>IP_Pool\<close>: \<^verbatim>\<open>pkg/ippool\<close>: pools over a CIDR or a range (\<open>NewIPPool\<close>, \<open>GetNewIPAddr\<close>, \<open>ReturnIPAddr\<close>,
    \<open>ReserveIPAddr\<close>, \<open>CheckAndReserveIP\<close>, \<open>pool_Contains\<close>), the address generator and the address set. The
    allocator of loxilib is the parameter \<open>'a loxilib\<close>; what the pools rely on is the hypothesis
    \<open>ipam_contract\<close>, which \<open>list_ipam\<close> meets.
  \<^item> \<open>Ext_IP\<close>: \<^verbatim>\<open>pkg/agent/manager/common/util_extip.go\<close> and the keys of the caches: names under which
    addresses are published, and that they lead back to the address.
  \<^item> \<open>Api_Client\<close>: \<^verbatim>\<open>pkg/api\<close>: request bodies, the requests and how a reply becomes an error, access
    tokens, the clients and their health checks. \<open>api_call\<close> has one constructor per call of the managers.
  \<^item> \<open>K8s_Model\<close>: \<^verbatim>\<open>pkg/k8s\<close> and the endpoint selection of \<^verbatim>\<open>loadbalancer.go\<close>. The API server and the
    listers are the record \<open>kube\<close> of queries.
  \<^item> \<open>Roles\<close>: the election of masters (\<open>SelectLoxiLBRoles\<close> and its helpers in \<^verbatim>\<open>loadbalancer.go\<close>), and
    the state machine \<open>role_reach\<close> of the client list.
  \<^item> \<open>Lb_Model\<close>, \<open>Lb_Manager\<close>: \<^verbatim>\<open>pkg/agent/manager/loadbalancer/loadbalancer.go\<close>: the manager's state
    (\<open>Manager\<close>: clients, cache, pools, and the log of the calls made), the messages, and the handlers
    \<open>addLoadBalancer\<close>, \<open>deleteLoadBalancer\<close>, \<open>syncLoadBalancer\<close> with everything they call.
  \<^item> \<open>Lb_Correct\<close>: what the handlers promise. The locale \<open>fan_out\<close> is the interface of a request
    that goes to several instances; it is interpreted on the installation and on the removal of rules.
  \<^item> \<open>Lb_Invariant\<close>: \<open>steady\<close>, what every handler keeps, with the invariant \<open>wf_manager\<close>, and the round trip of
    a service that is added and deleted.
  \<^item> \<open>Lb_Partial\<close>: a service of which only some rules can be installed.
  \<^item> \<open>Lb_Resync\<close>: a service that is seen again. \<open>settled\<close> is what the handler compares; the status it writes is
    read back as the address it gave, so that a second event for the same service changes nothing. Also
    what the instances are told about a new service.
  \<^item> \<open>Lb_Update\<close>: a service whose endpoints change: the new rules reach every instance, and it is settled again.
  \<^item> \<open>Lb_Tables\<close>: the abstract view of a load balancer, a table of rules per instance, which the calls and
    their answers determine (\<open>table\<close>). The step relation \<open>lb_step\<close> has the events of the services; the cache
    and the tables agree along it. Changes of the ports of a service, which the handlers do not notice, are
    treated here too.
  \<^item> \<open>Lb_Teardown\<close>: \<open>DeleteAllLoadBalancer\<close>.
  \<^item> \<open>Lb_Recovery\<close>: the table of an instance that comes up.
  \<^item> \<open>Lb_Lifecycle\<close>: discovery of the instances, the events of \<open>manageLoxiLbLifeCycle\<close>, CIDR pools,
    instance addresses, removal of stale rules and the work queue of the services.
  \<^item> \<open>Name_Queue\<close>: the locale \<open>name_queue\<close>, the contract of a work queue of names, with interpretations on the
    queues of the services, the gateway classes and the routes.
  \<^item> \<open>Crd_Queue\<close>: what the managers of custom resources share, and the locale \<open>reconciler\<close>, the
    contract of a handler behind a work queue.
  \<^item> \<open>Egress_Manager\<close>, \<open>Bgp_Managers\<close>, \<open>Loxi_Url\<close>: the managers under \<^verbatim>\<open>pkg/agent/manager\<close> of the same
    names. The first two are interpretations of \<open>reconciler\<close>, the BGP managers through the locale
    \<open>one_call_manager\<close>.
  \<^item> \<open>Agent_Options\<close>, \<open>Agent_Main\<close>, \<open>Agent_Loop\<close>: \<^verbatim>\<open>cmd/loxilb-agent\<close>: configuration and pools; the
    command with its exit codes, the clients of the API server (\<^verbatim>\<open>pkg/k8s/client.go\<close>) and the goroutines that are started;
    and the event loop with the channels between the managers as the step relation \<open>agent_step\<close>.
  \<^item> \<open>Log_Files\<close>: \<^verbatim>\<open>pkg/log/logFile.go\<close>: the limits of the log files and the monitor of their directory, and the comparison
    of slices of \<^verbatim>\<open>pkg/util\<close>. The file system and \<^verbatim>\<open>sort.Slice\<close> are parameters; \<open>slice_sorting\<close> is what is
    documented of the latter, for any comparison, and \<open>newer_file\<close> is the comparison of the code.
  \<^item> \<open>Meta_Manager\<close>: \<^verbatim>\<open>pkg/agent/manager/meta\<close>: what is sent about services, pods and nodes.
  \<^item> \<open>Gateway_Api\<close>: \<^verbatim>\<open>pkg/agent/manager/gatewayapi\<close>: gateway classes, gateways, TCP, UDP and HTTP routes.
    The API server is the parameter \<open>'s kube_api\<close> over a state \<open>'s\<close> of the cluster. TCP and UDP routes
    share their definitions, which take the kind of the route.
  \<^item> \<open>Gateway_Correct\<close>: what these managers promise, over the hypotheses \<open>reads_services\<close> and
    \<open>writes_services\<close>, the documented behaviour of the API server on services; \<open>list_kube\<close> meets them.

  \<^bold>\<open>How they interact.\<close> \<open>startup\<close> builds the manager from a validated configuration.
  The loop of the agent forwards events of the clients to \<open>life_step\<close>, runs discovery and elections, and
  shares the manager with the LoxiURL manager (\<open>syncLBURLs\<close>), the egress manager
  (\<open>egress_alive\<close>) and the workers of the services (\<open>syncLoadBalancer\<close>), and the gateway
  manager allocates from one of its pools; these are the rules of \<open>agent_step\<close>, in each of which the
  cluster may have changed. The managers of custom resources and of metadata only extend the log of calls, which is one
  rule.

  \<^bold>\<open>What is shown.\<close> Pools: membership, round trips of allocation and return, and that reservation
  and comparison hide failures. Handlers: deletion releases exactly what was held, a failed addition leaks nothing but
  gives the address of rules away that stay installed, a new service gets an address unless its pool has none left, a
  service that comes and goes leaves the pools as they were (except for identifiers of its further ports), every
  instance is told the rule of each port of a new service and of one whose endpoints changed, a service that is seen
  again is left alone, along all events of services whose ports stay every instance has exactly the rules of the
  cache, an instance that comes up is given them, a rule is cached exactly when an instance took it, comparisons of
  options and endpoints detect exactly the changes they are for. Instances: discovery keeps the clients equal to the
  endpoints, every election leaves exactly one master, and in the whole agent no instance ever has two (a simulation
  of \<open>agent_step\<close> by \<open>role_reach\<close>). Managers: no queued object is lost, services are handled
  in turn, and the queues of custom resources drain once the instances are up. Gateway API: a route changes only
  backends that did not exist or carry its marks, its deletion removes exactly the marked services of its namespace, and a gateway whose update fails keeps an address that is free.
  Log files: the newest are kept, up to the limit. Startup: a valid configuration starts the managers that are enabled
  and establishes \<open>wf_manager\<close>, the invariant that the theorems about the handlers assume and that every
  step of the agent keeps. Where the code does not do what it means to, the theorem states what it does, and the
  finding is recorded in the manifest.

  \<^bold>\<open>Conventions.\<close> Machine integers that are truncated in the code are words of their width; other
  integers are unbounded. An \<open>error\<close> is its text. A pointer into the pools is an index into
  \<open>poolStore\<close>. The answer of an instance is the function \<open>e_answer\<close> of the calls made so far. Goroutines
  that one handler starts per client run in the order of the clients, and every call returns; a Go map
  is iterated in the order of its list, except where an order is a parameter (\<open>map_order\<close>, and the table
  of instances in \<open>role_reach\<close>). Handlers are atomic steps. Objects of listers are read once per handler;
  the query \<open>get_service\<close> stands for the lister and for the API server, so that both see the same service within a handler.
  The capacity of channels is modelled in \<open>Agent_Loop\<close> only, where the rule of the LoxiURL manager is taken when the
  purged clients fit into the channel.

  \<^bold>\<open>Bounds.\<close> All functions are total. Loops of the code with a bound have it (five tries of
  \<open>send_retry\<close> and \<open>try_install\<close>, the channel capacities in \<open>send_msg\<close>); \<open>worker\<close> takes the number of
  rounds, and the theorems on queues say that the length of the queue is enough. No other fuel is used.

  \<^bold>\<open>Not modelled.\<close> Generated clients, informers and deep copies
  (\<^verbatim>\<open>pkg/*-client\<close>, \<^verbatim>\<open>zz_generated\<close>), the test commands of
  \<^verbatim>\<open>cmd/lb.go\<close>, which nothing runs, log messages, the HTTP transport and TLS files, JSON and
  YAML coding (parameters where a result is used), timeouts and delays, the registration of flags, and signal
  handling. Data races are outside of the model: two findings name where steps taken as atomic are not.
\<close>

end
